theory Spec2Isabelle
  imports Main "HOL-Library.AList"
begin

section \<open>Errors\<close>

text \<open>
  Go errors are values. \<open>errors.New\<close> and the errors handed back by the collaborators
  (server client, decryption, migrations) are \<open>Err\<close>; \<open>errors.Wrap\<close> and
  \<open>errors.Wrapf\<close> put a context message in front of a cause.
\<close>

datatype error = Err string | Wrap string error

definition ErrNoRows :: error where
  "ErrNoRows = Err ''sql: no rows in result set''"

text \<open>
  \<open>wrapE msg r\<close> is the idiom \<open>if err != nil { return errors.Wrap(err, msg) }\<close>;
  \<open>bindE\<close> runs the next statement when the previous one returned no error.
\<close>

definition wrapE :: "string \<Rightarrow> error + 'a \<Rightarrow> error + 'a" where
  "wrapE msg r = (case r of Inl e \<Rightarrow> Inl (Wrap msg e) | Inr x \<Rightarrow> Inr x)"

definition bindE :: "error + 'a \<Rightarrow> ('a \<Rightarrow> error + 'b) \<Rightarrow> error + 'b" where
  "bindE r f = (case r of Inl e \<Rightarrow> Inl e | Inr x \<Rightarrow> f x)"

section \<open>Data model\<close>

text \<open>
  Modelled from the spec: the package \<open>core\<close> (the types \<open>core.Book\<close> and
  \<open>core.Note\<close>, their constructors and their \<open>Insert\<close>, \<open>Update\<close>,
  \<open>UpdateUUID\<close>, \<open>Expunge\<close> methods, \<open>GetSystem\<close> and \<open>UpdateSystem\<close>) is not
  among the sources. The records follow the spec's data model and the columns that the
  SQL statements of \<open>sync.go\<close> name. Go's \<open>int\<close> is modelled as \<open>int\<close>: no
  arithmetic of the sync engine comes near the 64-bit range.
\<close>

record Book =
  book_UUID :: string
  book_Label :: string
  book_USN :: int
  book_Deleted :: bool
  book_Dirty :: bool

record Note =
  note_UUID :: string
  note_BookUUID :: string
  note_Body :: string
  note_AddedOn :: int
  note_EditedOn :: int
  note_USN :: int
  note_Public :: bool
  note_Deleted :: bool
  note_Dirty :: bool

text \<open>
  The local store: the tables \<open>books\<close> and \<open>notes\<close> are lists of rows (the schema of
  the migrations declares no key, so order and duplicates are possible), \<open>system\<close> is
  the list of its key/value rows. A transaction handle \<open>tx\<close> is a working copy of the
  store. SQL statements run without driver failure in this model; the one store error
  that exists is \<open>sql.ErrNoRows\<close> of a \<open>QueryRow\<close> without result.
\<close>

record DB =
  db_books :: "Book list"
  db_notes :: "Note list"
  db_system :: "(string \<times> int) list"

text \<open>The wire types of the package \<open>client\<close>, with the fields that \<open>sync.go\<close> reads.\<close>

record SyncFragBook =
  fb_UUID :: string
  fb_USN :: int
  fb_Label :: string
  fb_Deleted :: bool

record SyncFragNote =
  fn_UUID :: string
  fn_BookUUID :: string
  fn_USN :: int
  fn_AddedOn :: int
  fn_EditedOn :: int
  fn_Body :: string
  fn_Public :: bool
  fn_Deleted :: bool

record SyncFragment =
  frag_Notes :: "SyncFragNote list"
  frag_Books :: "SyncFragBook list"
  frag_ExpungedNotes :: "string list"
  frag_ExpungedBooks :: "string list"
  frag_FragMaxUSN :: int
  frag_CurrentTime :: int

record SyncState =
  ss_MaxUSN :: int
  ss_FullSyncBefore :: int
  ss_CurrentTime :: int

text \<open>
  \<open>syncList\<close>: the Go maps are association lists with one entry per key (a later write
  to a key replaces the value in place) and the expunged sets are duplicate-free lists.
  Go ranges over a map in an unspecified order; the model ranges in list order.
\<close>

record syncList =
  sl_Notes :: "(string \<times> SyncFragNote) list"
  sl_Books :: "(string \<times> SyncFragBook) list"
  sl_ExpungedNotes :: "string list"
  sl_ExpungedBooks :: "string list"
  sl_MaxUSN :: int
  sl_MaxCurrentTime :: int

section \<open>SQL statements on the store\<close>

definition QueryRow :: "('r \<Rightarrow> bool) \<Rightarrow> 'r list \<Rightarrow> error + 'r" where
  "QueryRow P rows = (case find P rows of None \<Rightarrow> Inl ErrNoRows | Some r \<Rightarrow> Inr r)"

definition UPDATE_books :: "(Book \<Rightarrow> bool) \<Rightarrow> (Book \<Rightarrow> Book) \<Rightarrow> DB \<Rightarrow> DB" where
  "UPDATE_books P f tx = tx\<lparr>db_books := map (\<lambda>r. if P r then f r else r) (db_books tx)\<rparr>"

definition UPDATE_notes :: "(Note \<Rightarrow> bool) \<Rightarrow> (Note \<Rightarrow> Note) \<Rightarrow> DB \<Rightarrow> DB" where
  "UPDATE_notes P f tx = tx\<lparr>db_notes := map (\<lambda>r. if P r then f r else r) (db_notes tx)\<rparr>"

definition DELETE_books :: "(Book \<Rightarrow> bool) \<Rightarrow> DB \<Rightarrow> DB" where
  "DELETE_books P tx = tx\<lparr>db_books := filter (\<lambda>r. \<not> P r) (db_books tx)\<rparr>"

definition DELETE_notes :: "(Note \<Rightarrow> bool) \<Rightarrow> DB \<Rightarrow> DB" where
  "DELETE_notes P tx = tx\<lparr>db_notes := filter (\<lambda>r. \<not> P r) (db_notes tx)\<rparr>"

definition countBooks :: "(Book \<Rightarrow> bool) \<Rightarrow> DB \<Rightarrow> nat" where
  "countBooks P tx = length (filter P (db_books tx))"

definition countNotes :: "(Note \<Rightarrow> bool) \<Rightarrow> DB \<Rightarrow> nat" where
  "countNotes P tx = length (filter P (db_notes tx))"

section \<open>Store access layer\<close>

text \<open>
  Modelled from the spec: \<open>core.NewBook\<close>, \<open>core.NewNote\<close> and the entity methods
  are missing from the sources. The spec's store access layer "provides Insert, Update,
  UpdateUUID, Expunge per entity and GetSystem/UpdateSystem for scalar system state";
  expunge is the hard delete of the row. The argument order of the constructors is that
  of their calls in \<open>sync.go\<close>.
\<close>

definition NewBook :: "string \<Rightarrow> string \<Rightarrow> int \<Rightarrow> bool \<Rightarrow> bool \<Rightarrow> Book" where
  "NewBook uuid label usn deleted dirty =
     \<lparr>book_UUID = uuid, book_Label = label, book_USN = usn,
      book_Deleted = deleted, book_Dirty = dirty\<rparr>"

definition NewNote ::
  "string \<Rightarrow> string \<Rightarrow> string \<Rightarrow> int \<Rightarrow> int \<Rightarrow> int \<Rightarrow> bool \<Rightarrow> bool \<Rightarrow> bool \<Rightarrow> Note" where
  "NewNote uuid bookUUID body addedOn editedOn usn public deleted dirty =
     \<lparr>note_UUID = uuid, note_BookUUID = bookUUID, note_Body = body,
      note_AddedOn = addedOn, note_EditedOn = editedOn, note_USN = usn,
      note_Public = public, note_Deleted = deleted, note_Dirty = dirty\<rparr>"

definition Book_Insert :: "Book \<Rightarrow> DB \<Rightarrow> error + DB" where
  "Book_Insert b tx = Inr (tx\<lparr>db_books := db_books tx @ [b]\<rparr>)"

definition Book_Update :: "Book \<Rightarrow> DB \<Rightarrow> error + DB" where
  "Book_Update b tx =
     Inr (UPDATE_books (\<lambda>r. book_UUID r = book_UUID b)
            (\<lambda>r. r\<lparr>book_Label := book_Label b, book_USN := book_USN b,
                   book_Dirty := book_Dirty b, book_Deleted := book_Deleted b\<rparr>) tx)"

definition Book_UpdateUUID :: "Book \<Rightarrow> string \<Rightarrow> DB \<Rightarrow> error + DB" where
  "Book_UpdateUUID b newUUID tx =
     Inr (UPDATE_books (\<lambda>r. book_UUID r = book_UUID b) (\<lambda>r. r\<lparr>book_UUID := newUUID\<rparr>) tx)"

definition Book_Expunge :: "Book \<Rightarrow> DB \<Rightarrow> error + DB" where
  "Book_Expunge b tx = Inr (DELETE_books (\<lambda>r. book_UUID r = book_UUID b) tx)"

definition Note_Insert :: "Note \<Rightarrow> DB \<Rightarrow> error + DB" where
  "Note_Insert n tx = Inr (tx\<lparr>db_notes := db_notes tx @ [n]\<rparr>)"

definition Note_Update :: "Note \<Rightarrow> DB \<Rightarrow> error + DB" where
  "Note_Update n tx =
     Inr (UPDATE_notes (\<lambda>r. note_UUID r = note_UUID n) (\<lambda>r. n) tx)"

definition Note_UpdateUUID :: "Note \<Rightarrow> string \<Rightarrow> DB \<Rightarrow> error + DB" where
  "Note_UpdateUUID n newUUID tx =
     Inr (UPDATE_notes (\<lambda>r. note_UUID r = note_UUID n) (\<lambda>r. r\<lparr>note_UUID := newUUID\<rparr>) tx)"

definition Note_Expunge :: "Note \<Rightarrow> DB \<Rightarrow> error + DB" where
  "Note_Expunge n tx = Inr (DELETE_notes (\<lambda>r. note_UUID r = note_UUID n) tx)"

definition SystemLastSyncAt :: string where
  "SystemLastSyncAt = ''last_sync_at''"

definition SystemLastMaxUSN :: string where
  "SystemLastMaxUSN = ''last_max_usn''"

definition GetSystem :: "DB \<Rightarrow> string \<Rightarrow> error + int" where
  "GetSystem tx key =
     (case QueryRow (\<lambda>kv. fst kv = key) (db_system tx) of
        Inl e \<Rightarrow> Inl e
      | Inr kv \<Rightarrow> Inr (snd kv))"

definition UpdateSystem :: "DB \<Rightarrow> string \<Rightarrow> int \<Rightarrow> error + DB" where
  "UpdateSystem tx key val =
     Inr (tx\<lparr>db_system := map (\<lambda>kv. if fst kv = key then (fst kv, val) else kv) (db_system tx)\<rparr>)"

section \<open>System state of the sync protocol\<close>

definition getLastSyncAt :: "DB \<Rightarrow> error + int" where
  "getLastSyncAt tx =
     wrapE ''querying last sync time'' (GetSystem tx SystemLastSyncAt)"

definition getLastMaxUSN :: "DB \<Rightarrow> error + int" where
  "getLastMaxUSN tx =
     wrapE ''querying last user max_usn'' (GetSystem tx SystemLastMaxUSN)"

definition updateLastMaxUSN :: "DB \<Rightarrow> int \<Rightarrow> error + DB" where
  "updateLastMaxUSN tx val =
     wrapE (''updating '' @ SystemLastMaxUSN) (UpdateSystem tx SystemLastMaxUSN val)"

definition updateLastSyncAt :: "DB \<Rightarrow> int \<Rightarrow> error + DB" where
  "updateLastSyncAt tx val =
     wrapE (''updating '' @ SystemLastSyncAt) (UpdateSystem tx SystemLastSyncAt val)"

definition saveSyncState :: "DB \<Rightarrow> int \<Rightarrow> int \<Rightarrow> error + DB" where
  "saveSyncState tx serverTime serverMaxUSN =
     bindE (wrapE ''updating last max usn'' (updateLastMaxUSN tx serverMaxUSN))
       (\<lambda>tx1. wrapE ''updating last sync at'' (updateLastSyncAt tx1 serverTime))"

section \<open>Label collision resolution\<close>

text \<open>
  \<open>fmt.Sprintf("%s (%d)", label, i)\<close>: the decimal digits of a number that starts at
  2 and only grows.
\<close>

definition digit_char :: "nat \<Rightarrow> char" where
  "digit_char d = ''0123456789'' ! d"

function itoa :: "nat \<Rightarrow> string" where
  "itoa n = (if n < 10 then [digit_char n] else itoa (n div 10) @ [digit_char (n mod 10)])"
  by pat_completeness auto
termination
  by (relation "measure id") auto

declare itoa.simps [simp del]

definition Sprintf_label :: "string \<Rightarrow> nat \<Rightarrow> string" where
  "Sprintf_label label i = label @ '' ('' @ itoa i @ '')''"

lemma digit_char_inj:
  assumes "a < 10" and "b < 10" and "digit_char a = digit_char b"
  shows "a = b"
proof -
  have d: "distinct ''0123456789''" by simp
  have la: "a < length ''0123456789''" using assms(1) by simp
  have lb: "b < length ''0123456789''" using assms(2) by simp
  from assms(3) have "''0123456789'' ! a = ''0123456789'' ! b"
    by (simp only: digit_char_def)
  with d la lb show "a = b" by (simp only: nth_eq_iff_index_eq)
qed

lemma itoa_nonempty: "itoa n \<noteq> []"
  by (subst itoa.simps) simp

lemma itoa_inj: "itoa m = itoa n \<Longrightarrow> m = n"
proof (induction m arbitrary: n rule: itoa.induct)
  case (1 m)
  show ?case
  proof (cases "m < 10")
    case ms: True
    show ?thesis
    proof (cases "n < 10")
      case True
      from "1.prems" ms True have "digit_char m = digit_char n"
        by (simp add: itoa.simps[of m] itoa.simps[of n])
      with ms True show ?thesis by (rule digit_char_inj)
    next
      case False
      from "1.prems" ms False
      have "[digit_char m] = itoa (n div 10) @ [digit_char (n mod 10)]"
        by (simp add: itoa.simps[of m] itoa.simps[of n])
      then have "itoa (n div 10) = []" by simp
      with itoa_nonempty show ?thesis by blast
    qed
  next
    case ml: False
    show ?thesis
    proof (cases "n < 10")
      case True
      from "1.prems" ml True
      have "itoa (m div 10) @ [digit_char (m mod 10)] = [digit_char n]"
        by (simp add: itoa.simps[of m] itoa.simps[of n])
      then have "itoa (m div 10) = []" by simp
      with itoa_nonempty show ?thesis by blast
    next
      case False
      from "1.prems" ml False
      have "itoa (m div 10) @ [digit_char (m mod 10)]
              = itoa (n div 10) @ [digit_char (n mod 10)]"
        by (simp add: itoa.simps[of m] itoa.simps[of n])
      then have e1: "itoa (m div 10) = itoa (n div 10)"
        and e2: "digit_char (m mod 10) = digit_char (n mod 10)"
        by simp_all
      from "1.IH"[OF ml e1] have q: "m div 10 = n div 10" .
      have "m mod 10 = n mod 10" using e2 by (intro digit_char_inj) simp_all
      with q show ?thesis by (metis div_mult_mod_eq)
    qed
  qed
qed

lemma Sprintf_label_inj: "Sprintf_label label i = Sprintf_label label j \<Longrightarrow> i = j"
  by (simp add: Sprintf_label_def itoa_inj)

text \<open>
  \<open>resolveLabel\<close>: the loop \<open>for i := 2; ; i++\<close> with its query
  \<open>SELECT count(*) FROM books WHERE label = ?\<close>. The loop ends because the candidate
  labels are pairwise different and the table is finite.
\<close>

function resolveLabel_loop :: "DB \<Rightarrow> string \<Rightarrow> nat \<Rightarrow> string" where
  "resolveLabel_loop tx label i =
     (if countBooks (\<lambda>r. book_Label r = Sprintf_label label i) tx = 0
      then Sprintf_label label i
      else resolveLabel_loop tx label (i + 1))"
  by pat_completeness auto
termination
proof (relation "measure (\<lambda>(tx, label, i).
         card {j. i \<le> j \<and> countBooks (\<lambda>r. book_Label r = Sprintf_label label j) tx \<noteq> 0})")
  show "wf (measure (\<lambda>(tx, label, i).
         card {j. i \<le> j \<and> countBooks (\<lambda>r. book_Label r = Sprintf_label label j) tx \<noteq> 0}))"
    by simp
next
  fix tx :: DB and label :: string and i :: nat
  assume taken: "countBooks (\<lambda>r. book_Label r = Sprintf_label label i) tx \<noteq> 0"
  let ?S = "\<lambda>k. {j. k \<le> j \<and> countBooks (\<lambda>r. book_Label r = Sprintf_label label j) tx \<noteq> 0}"
  have sub: "?S i \<subseteq> Sprintf_label label -` (book_Label ` set (db_books tx))"
  proof
    fix j
    assume "j \<in> ?S i"
    then have "filter (\<lambda>r. book_Label r = Sprintf_label label j) (db_books tx) \<noteq> []"
      by (simp add: countBooks_def)
    then obtain r where "r \<in> set (db_books tx)" and "book_Label r = Sprintf_label label j"
      by (auto simp: filter_empty_conv)
    then have "Sprintf_label label j \<in> book_Label ` set (db_books tx)"
      by (metis imageI)
    then show "j \<in> Sprintf_label label -` (book_Label ` set (db_books tx))"
      by simp
  qed
  have "inj (Sprintf_label label)"
    by (rule injI) (rule Sprintf_label_inj)
  then have "finite (Sprintf_label label -` (book_Label ` set (db_books tx)))"
    by (intro finite_vimageI) simp_all
  with sub have fin: "finite (?S i)" by (rule finite_subset)
  have "i \<in> ?S i" using taken by simp
  moreover have "i \<notin> ?S (i + 1)" by simp
  moreover have "?S (i + 1) \<subseteq> ?S i" by auto
  ultimately have "?S (i + 1) \<subset> ?S i" by blast
  with fin have "card (?S (i + 1)) < card (?S i)" by (rule psubset_card_mono)
  then show "((tx, label, i + 1), (tx, label, i)) \<in> measure (\<lambda>(tx, label, i).
         card {j. i \<le> j \<and> countBooks (\<lambda>r. book_Label r = Sprintf_label label j) tx \<noteq> 0})"
    by simp
qed

declare resolveLabel_loop.simps [simp del]

definition resolveLabel :: "DB \<Rightarrow> string \<Rightarrow> error + string" where
  "resolveLabel tx label = Inr (resolveLabel_loop tx label 2)"

section \<open>Merge engine\<close>

datatype mode = modeInsert | modeUpdate

text \<open>
  \<open>mergeBook\<close>. The duplicate check and the rename both select on the label alone:
  \<open>SELECT count(*) FROM books WHERE label = ?\<close> and
  \<open>UPDATE books SET label = ?, dirty = ? WHERE label = ?\<close>.
\<close>

definition mergeBook :: "DB \<Rightarrow> SyncFragBook \<Rightarrow> mode \<Rightarrow> error + DB" where
  "mergeBook tx b mode =
     bindE
       (if 0 < countBooks (\<lambda>r. book_Label r = fb_Label b) tx
        then bindE (wrapE ''getting a new book label for conflict resolution''
                      (resolveLabel tx (fb_Label b)))
               (\<lambda>newLabel.
                  Inr (UPDATE_books (\<lambda>r. book_Label r = fb_Label b)
                         (\<lambda>r. r\<lparr>book_Label := newLabel, book_Dirty := True\<rparr>) tx))
        else Inr tx)
       (\<lambda>tx1.
          case mode of
            modeInsert \<Rightarrow>
              wrapE (''inserting note with uuid '' @ fb_UUID b)
                (Book_Insert (NewBook (fb_UUID b) (fb_Label b) (fb_USN b) False False) tx1)
          | modeUpdate \<Rightarrow>
              Inr (UPDATE_books (\<lambda>r. book_UUID r = fb_UUID b)
                     (\<lambda>r. r\<lparr>book_USN := fb_USN b, book_UUID := fb_UUID b,
                            book_Label := fb_Label b, book_Deleted := fb_Deleted b\<rparr>) tx1))"

definition stepSyncBook :: "DB \<Rightarrow> SyncFragBook \<Rightarrow> error + DB" where
  "stepSyncBook tx b =
     (case QueryRow (\<lambda>r. book_UUID r = fb_UUID b) (db_books tx) of
        Inl err \<Rightarrow>
          if err \<noteq> ErrNoRows then Inl (Wrap (''getting local book '' @ fb_UUID b) err)
          else wrapE ''resolving book'' (mergeBook tx b modeInsert)
      | Inr row \<Rightarrow>
          wrapE ''resolving book'' (mergeBook tx b modeUpdate))"

text \<open>
  \<open>mergeNote\<close> gets the server's note and the local note as the callers scanned it
  (\<open>SELECT usn, book_uuid, dirty, deleted\<close>: the other fields of the Go struct keep
  their zero values). Its two updates select on the server note's uuid.
\<close>

definition scanLocalNote :: "Note \<Rightarrow> Note" where
  "scanLocalNote r =
     \<lparr>note_UUID = [], note_BookUUID = note_BookUUID r, note_Body = [],
      note_AddedOn = 0, note_EditedOn = 0, note_USN = note_USN r,
      note_Public = False, note_Deleted = note_Deleted r, note_Dirty = note_Dirty r\<rparr>"

definition mergeNote :: "DB \<Rightarrow> SyncFragNote \<Rightarrow> Note \<Rightarrow> error + DB" where
  "mergeNote tx serverNote localNote =
     (case QueryRow (\<lambda>r. book_UUID r = note_BookUUID localNote) (db_books tx) of
        Inl err \<Rightarrow>
          Inl (Wrap (''checking if local book '' @ note_BookUUID localNote @ '' is deleted'') err)
      | Inr bookRow \<Rightarrow>
          if book_Deleted bookRow then Inr tx
          else if note_Deleted localNote then
            Inr (UPDATE_notes (\<lambda>r. note_UUID r = fn_UUID serverNote)
                   (\<lambda>r. r\<lparr>note_USN := fn_USN serverNote, note_BookUUID := fn_BookUUID serverNote,
                          note_Body := fn_Body serverNote, note_EditedOn := fn_EditedOn serverNote,
                          note_Deleted := fn_Deleted serverNote, note_Public := fn_Public serverNote,
                          note_Dirty := False\<rparr>) tx)
          else
            Inr (UPDATE_notes (\<lambda>r. note_UUID r = fn_UUID serverNote)
                   (\<lambda>r. r\<lparr>note_USN := fn_USN serverNote, note_BookUUID := fn_BookUUID serverNote,
                          note_Body := fn_Body serverNote, note_EditedOn := fn_EditedOn serverNote,
                          note_Deleted := fn_Deleted serverNote,
                          note_Public := fn_Public serverNote\<rparr>) tx))"

definition insertServerNote :: "DB \<Rightarrow> SyncFragNote \<Rightarrow> error + DB" where
  "insertServerNote tx n =
     wrapE (''inserting note with uuid '' @ fn_UUID n)
       (Note_Insert (NewNote (fn_UUID n) (fn_BookUUID n) (fn_Body n) (fn_AddedOn n)
                       (fn_EditedOn n) (fn_USN n) (fn_Public n) (fn_Deleted n) False) tx)"

definition stepSyncNote :: "DB \<Rightarrow> SyncFragNote \<Rightarrow> error + DB" where
  "stepSyncNote tx n =
     (case QueryRow (\<lambda>r. note_UUID r = fn_UUID n) (db_notes tx) of
        Inl err \<Rightarrow>
          if err \<noteq> ErrNoRows then Inl (Wrap (''getting local note '' @ fn_UUID n) err)
          else insertServerNote tx n
      | Inr row \<Rightarrow>
          wrapE ''merging local note'' (mergeNote tx n (scanLocalNote row)))"

definition fullSyncNote :: "DB \<Rightarrow> SyncFragNote \<Rightarrow> error + DB" where
  "fullSyncNote tx n =
     (case QueryRow (\<lambda>r. note_UUID r = fn_UUID n) (db_notes tx) of
        Inl err \<Rightarrow>
          if err \<noteq> ErrNoRows then Inl (Wrap (''getting local note '' @ fn_UUID n) err)
          else insertServerNote tx n
      | Inr row \<Rightarrow>
          if note_USN (scanLocalNote row) < fn_USN n then
            wrapE ''merging local note'' (mergeNote tx n (scanLocalNote row))
          else Inr tx)"

definition syncDeleteNote :: "DB \<Rightarrow> string \<Rightarrow> error + DB" where
  "syncDeleteNote tx noteUUID =
     (case QueryRow (\<lambda>r. note_UUID r = noteUUID) (db_notes tx) of
        Inl err \<Rightarrow>
          if err \<noteq> ErrNoRows then Inl (Wrap (''getting local note '' @ noteUUID) err)
          else Inr tx
      | Inr row \<Rightarrow>
          if \<not> note_Dirty row then Inr (DELETE_notes (\<lambda>r. note_UUID r = noteUUID) tx)
          else Inr tx)"

definition checkNotesPristine :: "DB \<Rightarrow> string \<Rightarrow> error + bool" where
  "checkNotesPristine tx bookUUID =
     (if 0 < countNotes (\<lambda>r. note_BookUUID r = bookUUID \<and> note_Dirty r = True) tx
      then Inr False else Inr True)"

definition syncDeleteBook :: "DB \<Rightarrow> string \<Rightarrow> error + DB" where
  "syncDeleteBook tx bookUUID =
     (case QueryRow (\<lambda>r. book_UUID r = bookUUID) (db_books tx) of
        Inl err \<Rightarrow>
          if err \<noteq> ErrNoRows then Inl (Wrap (''getting local book '' @ bookUUID) err)
          else Inr tx
      | Inr row \<Rightarrow>
          if book_Dirty row then Inr tx
          else
            bindE (wrapE ''checking if any notes are dirty in book''
                     (checkNotesPristine tx bookUUID))
              (\<lambda>ok.
                 if \<not> ok then
                   Inr (UPDATE_books (\<lambda>r. book_UUID r = bookUUID)
                          (\<lambda>r. r\<lparr>book_Dirty := True\<rparr>) tx)
                 else
                   Inr (DELETE_books (\<lambda>r. book_UUID r = bookUUID)
                          (DELETE_notes (\<lambda>r. note_BookUUID r = bookUUID) tx))))"

definition fullSyncBook :: "DB \<Rightarrow> SyncFragBook \<Rightarrow> error + DB" where
  "fullSyncBook tx b =
     (case QueryRow (\<lambda>r. book_UUID r = fb_UUID b) (db_books tx) of
        Inl err \<Rightarrow>
          if err \<noteq> ErrNoRows then Inl (Wrap (''getting local book '' @ fb_UUID b) err)
          else wrapE ''resolving book'' (mergeBook tx b modeInsert)
      | Inr row \<Rightarrow>
          if book_USN row < fb_USN b then
            wrapE ''resolving book'' (mergeBook tx b modeUpdate)
          else Inr tx)"

section \<open>Local-state cleanup of a full sync\<close>

definition checkNoteInList :: "string \<Rightarrow> syncList \<Rightarrow> bool" where
  "checkNoteInList uuid list =
     (if uuid \<in> fst ` set (sl_Notes list) then True
      else if uuid \<in> set (sl_ExpungedNotes list) then True
      else False)"

definition checkBookInList :: "string \<Rightarrow> syncList \<Rightarrow> bool" where
  "checkBookInList uuid list =
     (if uuid \<in> fst ` set (sl_Books list) then True
      else if uuid \<in> set (sl_ExpungedBooks list) then True
      else False)"

text \<open>
  The cleanup loops walk the rows of \<open>SELECT uuid, usn, dirty FROM ...\<close> as they were
  when the query ran; the other fields of the scanned struct are not read.
\<close>

fun cleanLocalNotes_rows :: "syncList \<Rightarrow> Note list \<Rightarrow> DB \<Rightarrow> error + DB" where
  "cleanLocalNotes_rows fullList [] tx = Inr tx"
| "cleanLocalNotes_rows fullList (note # rows) tx =
     (if \<not> checkNoteInList (note_UUID note) fullList \<and> (\<not> note_Dirty note \<or> note_USN note \<noteq> 0)
      then bindE (wrapE ''expunging a note'' (Note_Expunge note tx))
             (\<lambda>tx'. cleanLocalNotes_rows fullList rows tx')
      else cleanLocalNotes_rows fullList rows tx)"

definition cleanLocalNotes :: "DB \<Rightarrow> syncList \<Rightarrow> error + DB" where
  "cleanLocalNotes tx fullList = cleanLocalNotes_rows fullList (db_notes tx) tx"

fun cleanLocalBooks_rows :: "syncList \<Rightarrow> Book list \<Rightarrow> DB \<Rightarrow> error + DB" where
  "cleanLocalBooks_rows fullList [] tx = Inr tx"
| "cleanLocalBooks_rows fullList (book # rows) tx =
     (if \<not> checkBookInList (book_UUID book) fullList \<and> (\<not> book_Dirty book \<or> book_USN book \<noteq> 0)
      then bindE (wrapE ''expunging a book'' (Book_Expunge book tx))
             (\<lambda>tx'. cleanLocalBooks_rows fullList rows tx')
      else cleanLocalBooks_rows fullList rows tx)"

definition cleanLocalBooks :: "DB \<Rightarrow> syncList \<Rightarrow> error + DB" where
  "cleanLocalBooks tx fullList = cleanLocalBooks_rows fullList (db_books tx) tx"

section \<open>Collaborators\<close>

text \<open>
  The server client (package \<open>client\<close>), the decryption (\<open>crypt.AesGcmDecrypt\<close>) and
  the migration runner (\<open>migrate.Run\<close>) are outside the sources: they are parameters.
  Every server call takes the state \<open>'sv\<close> of the world outside the local store and
  returns the next one, so a server may answer each call differently. \<open>migrate.Run\<close>
  commits its own transactions and hands back the store as it left it.

  The SQL driver under \<open>infra.DB\<close> is outside the sources as well. The statements on
  the handle are computed on the store of the model, where a query fails only by finding
  no row. The three driver calls whose result \<open>newRun\<close> and \<open>sendChanges\<close> treat in a
  way of their own ask the world whether they fail: \<open>ctx.DB.Begin()\<close>, the scan of the
  dirty-row count \<open>tx.QueryRow(...).Scan(&delta)\<close> and \<open>tx.Commit()\<close>; each answers
  with the driver's error, if any.
\<close>

record 'sv DnoteCtx =
  ctx_SessionKey :: string
  ctx_CipherKey :: "string option"
  crypt_AesGcmDecrypt :: "string option \<Rightarrow> string \<Rightarrow> error + string"
  migrate_Run :: "DB \<Rightarrow> 'sv \<Rightarrow> (error option \<times> DB) \<times> 'sv"
  client_GetSyncState :: "'sv \<Rightarrow> (error + SyncState) \<times> 'sv"
  client_GetSyncFragment :: "int \<Rightarrow> 'sv \<Rightarrow> (error + SyncFragment) \<times> 'sv"
  client_CreateBook :: "string \<Rightarrow> 'sv \<Rightarrow> (error + string \<times> int) \<times> 'sv"
  client_UpdateBook :: "string \<Rightarrow> string \<Rightarrow> 'sv \<Rightarrow> (error + int) \<times> 'sv"
  client_DeleteBook :: "string \<Rightarrow> 'sv \<Rightarrow> (error + int) \<times> 'sv"
  client_CreateNote :: "string \<Rightarrow> string \<Rightarrow> 'sv \<Rightarrow> (error + string \<times> int) \<times> 'sv"
  client_UpdateNote :: "string \<Rightarrow> string \<Rightarrow> string \<Rightarrow> bool \<Rightarrow> 'sv \<Rightarrow> (error + int) \<times> 'sv"
  client_DeleteNote :: "string \<Rightarrow> 'sv \<Rightarrow> (error + int) \<times> 'sv"
  DB_Begin :: "'sv \<Rightarrow> error option \<times> 'sv"
  tx_Scan_delta :: "'sv \<Rightarrow> error option \<times> 'sv"
  tx_Commit :: "'sv \<Rightarrow> error option \<times> 'sv"

section \<open>Sync-list assembler\<close>

fun processNotes ::
  "(string \<Rightarrow> error + string) \<Rightarrow> SyncFragNote list \<Rightarrow> (string \<times> SyncFragNote) list
     \<Rightarrow> error + (string \<times> SyncFragNote) list" where
  "processNotes dec [] notes = Inr notes"
| "processNotes dec (note # rest) notes =
     (case dec (fn_Body note) of
        Inl err \<Rightarrow> Inl (Wrap (''decrypting body for note '' @ fn_UUID note) err)
      | Inr bodyDec \<Rightarrow>
          processNotes dec rest (AList.update (fn_UUID note) (note\<lparr>fn_Body := bodyDec\<rparr>) notes))"

fun processBooks ::
  "(string \<Rightarrow> error + string) \<Rightarrow> SyncFragBook list \<Rightarrow> (string \<times> SyncFragBook) list
     \<Rightarrow> error + (string \<times> SyncFragBook) list" where
  "processBooks dec [] books = Inr books"
| "processBooks dec (book # rest) books =
     (case dec (fb_Label book) of
        Inl err \<Rightarrow> Inl (Wrap (''decrypting label for book '' @ fb_UUID book) err)
      | Inr labelDec \<Rightarrow>
          processBooks dec rest (AList.update (fb_UUID book) (book\<lparr>fb_Label := labelDec\<rparr>) books))"

fun processFragments_loop ::
  "(string \<Rightarrow> error + string) \<Rightarrow> SyncFragment list \<Rightarrow> syncList \<Rightarrow> error + syncList" where
  "processFragments_loop dec [] sl = Inr sl"
| "processFragments_loop dec (fragment # rest) sl =
     bindE (processNotes dec (frag_Notes fragment) (sl_Notes sl))
       (\<lambda>notes. bindE (processBooks dec (frag_Books fragment) (sl_Books sl))
       (\<lambda>books.
          processFragments_loop dec rest
            \<lparr>sl_Notes = notes,
             sl_Books = books,
             sl_ExpungedNotes = fold List.insert (frag_ExpungedNotes fragment) (sl_ExpungedNotes sl),
             sl_ExpungedBooks = fold List.insert (frag_ExpungedBooks fragment) (sl_ExpungedBooks sl),
             sl_MaxUSN = (if sl_MaxUSN sl < frag_FragMaxUSN fragment
                          then frag_FragMaxUSN fragment else sl_MaxUSN sl),
             sl_MaxCurrentTime = (if sl_MaxCurrentTime sl < frag_CurrentTime fragment
                                  then frag_CurrentTime fragment else sl_MaxCurrentTime sl)\<rparr>))"

definition emptySyncList :: syncList where
  "emptySyncList =
     \<lparr>sl_Notes = [], sl_Books = [], sl_ExpungedNotes = [], sl_ExpungedBooks = [],
      sl_MaxUSN = 0, sl_MaxCurrentTime = 0\<rparr>"

definition processFragments ::
  "'sv DnoteCtx \<Rightarrow> SyncFragment list \<Rightarrow> string option \<Rightarrow> error + syncList" where
  "processFragments ctx fragments cipherKey =
     processFragments_loop (crypt_AesGcmDecrypt ctx cipherKey) fragments emptySyncList"

definition getLength :: "syncList \<Rightarrow> nat" where
  "getLength l = length (sl_Notes l) + length (sl_Books l)
                 + length (sl_ExpungedNotes l) + length (sl_ExpungedBooks l)"

text \<open>
  \<open>getSyncFragments\<close>: the loop \<open>for { ... }\<close> has no bound of its own, it runs for as
  long as the server reports a non-zero \<open>FragMaxUSN\<close>. \<open>None\<close> is the run that never
  returns.
\<close>

partial_function (option) getSyncFragments_loop ::
  "'sv DnoteCtx \<Rightarrow> int \<Rightarrow> SyncFragment list \<Rightarrow> 'sv
     \<Rightarrow> ((error + SyncFragment list) \<times> 'sv) option" where
  "getSyncFragments_loop ctx nextAfterUSN buf sv =
     (case client_GetSyncFragment ctx nextAfterUSN sv of
        (Inl err, sv') \<Rightarrow> Some (Inl (Wrap ''getting sync fragment'' err), sv')
      | (Inr frag, sv') \<Rightarrow>
          if frag_FragMaxUSN frag = 0 then Some (Inr (buf @ [frag]), sv')
          else getSyncFragments_loop ctx (frag_FragMaxUSN frag) (buf @ [frag]) sv')"

declare getSyncFragments_loop.simps [code]

definition getSyncFragments ::
  "'sv DnoteCtx \<Rightarrow> int \<Rightarrow> 'sv \<Rightarrow> ((error + SyncFragment list) \<times> 'sv) option" where
  "getSyncFragments ctx afterUSN sv = getSyncFragments_loop ctx afterUSN [] sv"

definition getSyncList ::
  "'sv DnoteCtx \<Rightarrow> int \<Rightarrow> 'sv \<Rightarrow> ((error + syncList) \<times> 'sv) option" where
  "getSyncList ctx afterUSN sv =
     (case getSyncFragments ctx afterUSN sv of
        None \<Rightarrow> None
      | Some (Inl err, sv') \<Rightarrow> Some (Inl (Wrap ''getting sync fragments'' err), sv')
      | Some (Inr fragments, sv') \<Rightarrow>
          Some (wrapE ''making sync list'' (processFragments ctx fragments (ctx_CipherKey ctx)), sv'))"

section \<open>Pull: full sync and step sync\<close>

text \<open>
  \<open>forEach msg f xs tx\<close> is the loop
  \<open>for _, x := range xs { if err := f(tx, x); err != nil { return errors.Wrap(err, msg) } }\<close>.
\<close>

fun forEach :: "string \<Rightarrow> (DB \<Rightarrow> 'a \<Rightarrow> error + DB) \<Rightarrow> 'a list \<Rightarrow> DB \<Rightarrow> error + DB" where
  "forEach msg f [] tx = Inr tx"
| "forEach msg f (x # xs) tx = bindE (wrapE msg (f tx x)) (\<lambda>tx'. forEach msg f xs tx')"

text \<open>The body of \<open>fullSync\<close> after the sync list has arrived.\<close>

definition fullSync_merge :: "DB \<Rightarrow> syncList \<Rightarrow> error + DB" where
  "fullSync_merge tx list =
     bindE (wrapE ''cleaning up local notes'' (cleanLocalNotes tx list))
       (\<lambda>tx1. bindE (wrapE ''cleaning up local books'' (cleanLocalBooks tx1 list))
       (\<lambda>tx2. bindE (forEach ''merging note'' fullSyncNote (map snd (sl_Notes list)) tx2)
       (\<lambda>tx3. bindE (forEach ''merging book'' fullSyncBook (map snd (sl_Books list)) tx3)
       (\<lambda>tx4. bindE (forEach ''deleting note'' syncDeleteNote (sl_ExpungedNotes list) tx4)
       (\<lambda>tx5. bindE (forEach ''deleting book'' syncDeleteBook (sl_ExpungedBooks list) tx5)
       (\<lambda>tx6. wrapE ''saving sync state''
                 (saveSyncState tx6 (sl_MaxCurrentTime list) (sl_MaxUSN list))))))))"

definition fullSync :: "'sv DnoteCtx \<Rightarrow> DB \<Rightarrow> 'sv \<Rightarrow> ((error + DB) \<times> 'sv) option" where
  "fullSync ctx tx sv =
     (case getSyncList ctx 0 sv of
        None \<Rightarrow> None
      | Some (Inl err, sv') \<Rightarrow> Some (Inl (Wrap ''getting sync list'' err), sv')
      | Some (Inr list, sv') \<Rightarrow> Some (fullSync_merge tx list, sv'))"

text \<open>The body of \<open>stepSync\<close> after the sync list has arrived.\<close>

definition stepSync_merge :: "DB \<Rightarrow> syncList \<Rightarrow> error + DB" where
  "stepSync_merge tx list =
     bindE (forEach ''merging note'' stepSyncNote (map snd (sl_Notes list)) tx)
       (\<lambda>tx1. bindE (forEach ''merging book'' stepSyncBook (map snd (sl_Books list)) tx1)
       (\<lambda>tx2. bindE (forEach ''deleting note'' syncDeleteNote (sl_ExpungedNotes list) tx2)
       (\<lambda>tx3. bindE (forEach ''deleting book'' syncDeleteBook (sl_ExpungedBooks list) tx3)
       (\<lambda>tx4. wrapE ''saving sync state''
                 (saveSyncState tx4 (sl_MaxCurrentTime list) (sl_MaxUSN list))))))"

definition stepSync :: "'sv DnoteCtx \<Rightarrow> DB \<Rightarrow> int \<Rightarrow> 'sv \<Rightarrow> ((error + DB) \<times> 'sv) option" where
  "stepSync ctx tx afterUSN sv =
     (case getSyncList ctx afterUSN sv of
        None \<Rightarrow> None
      | Some (Inl err, sv') \<Rightarrow> Some (Inl (Wrap ''getting sync list'' err), sv')
      | Some (Inr list, sv') \<Rightarrow> Some (stepSync_merge tx list, sv'))"

section \<open>Push engine\<close>

text \<open>
  The end of each round of the two send loops: read \<open>last_max_usn\<close>, advance it when
  the response's USN is the next one, else raise \<open>isBehind\<close>.
\<close>

definition trackUSN :: "DB \<Rightarrow> int \<Rightarrow> bool \<Rightarrow> error + bool \<times> DB" where
  "trackUSN tx respUSN isBehind =
     bindE (wrapE ''getting last max usn'' (getLastMaxUSN tx))
       (\<lambda>lastMaxUSN.
          if respUSN = lastMaxUSN + 1 then
            bindE (wrapE ''updating last max usn'' (updateLastMaxUSN tx (lastMaxUSN + 1)))
              (\<lambda>tx'. Inr (isBehind, tx'))
          else Inr (True, tx))"

text \<open>
  One round of the loop of \<open>sendBooks\<close>, for a row scanned by
  \<open>SELECT uuid, label, usn, deleted FROM books WHERE dirty\<close> (the struct's \<open>Dirty\<close>
  keeps its zero value \<open>false\<close>).
\<close>

definition scanSyncableBook :: "Book \<Rightarrow> Book" where
  "scanSyncableBook r =
     \<lparr>book_UUID = book_UUID r, book_Label = book_Label r, book_USN = book_USN r,
      book_Deleted = book_Deleted r, book_Dirty = False\<rparr>"

definition sendBook ::
  "'sv DnoteCtx \<Rightarrow> Book \<Rightarrow> bool \<times> DB \<Rightarrow> 'sv \<Rightarrow> (error + bool \<times> DB) \<times> 'sv" where
  "sendBook ctx book st sv =
     (let isBehind = fst st; tx = snd st in
      if book_USN book = 0 then
        if book_Deleted book then
          (bindE (wrapE ''expunging a book locally'' (Book_Expunge book tx))
             (\<lambda>tx'. Inr (isBehind, tx')), sv)
        else
          (case client_CreateBook ctx (book_Label book) sv of
             (Inl err, sv') \<Rightarrow> (Inl (Wrap ''creating a book'' err), sv')
           | (Inr (respUUID, respUSN), sv') \<Rightarrow>
               (let tx1 = UPDATE_notes (\<lambda>r. note_BookUUID r = book_UUID book)
                            (\<lambda>r. r\<lparr>note_BookUUID := respUUID\<rparr>) tx;
                    book' = book\<lparr>book_Dirty := False, book_USN := respUSN\<rparr>
                in bindE (wrapE ''marking book dirty'' (Book_Update book' tx1))
                     (\<lambda>tx2. bindE (wrapE ''updating book uuid'' (Book_UpdateUUID book' respUUID tx2))
                     (\<lambda>tx3. trackUSN tx3 respUSN isBehind)), sv'))
      else
        if book_Deleted book then
          (case client_DeleteBook ctx (book_UUID book) sv of
             (Inl err, sv') \<Rightarrow> (Inl (Wrap ''deleting a book'' err), sv')
           | (Inr respUSN, sv') \<Rightarrow>
               (bindE (wrapE ''expunging a book locally'' (Book_Expunge book tx))
                  (\<lambda>tx1. trackUSN tx1 respUSN isBehind), sv'))
        else
          (case client_UpdateBook ctx (book_Label book) (book_UUID book) sv of
             (Inl err, sv') \<Rightarrow> (Inl (Wrap ''updating a book'' err), sv')
           | (Inr respUSN, sv') \<Rightarrow>
               (let book' = book\<lparr>book_Dirty := False, book_USN := respUSN\<rparr>
                in bindE (wrapE ''marking book dirty'' (Book_Update book' tx))
                     (\<lambda>tx1. trackUSN tx1 respUSN isBehind), sv')))"

fun sendBooks_rows ::
  "'sv DnoteCtx \<Rightarrow> Book list \<Rightarrow> bool \<times> DB \<Rightarrow> 'sv \<Rightarrow> (error + bool \<times> DB) \<times> 'sv" where
  "sendBooks_rows ctx [] st sv = (Inr st, sv)"
| "sendBooks_rows ctx (book # rows) st sv =
     (case sendBook ctx book st sv of
        (Inl err, sv') \<Rightarrow> (Inl err, sv')
      | (Inr st', sv') \<Rightarrow> sendBooks_rows ctx rows st' sv')"

definition sendBooks :: "'sv DnoteCtx \<Rightarrow> DB \<Rightarrow> 'sv \<Rightarrow> (error + bool \<times> DB) \<times> 'sv" where
  "sendBooks ctx tx sv =
     sendBooks_rows ctx (map scanSyncableBook (filter book_Dirty (db_books tx))) (False, tx) sv"

text \<open>
  One round of the loop of \<open>sendNotes\<close>, for a row scanned by
  \<open>SELECT uuid, book_uuid, body, public, deleted, usn, added_on FROM notes WHERE dirty\<close>.
\<close>

definition scanSyncableNote :: "Note \<Rightarrow> Note" where
  "scanSyncableNote r =
     \<lparr>note_UUID = note_UUID r, note_BookUUID = note_BookUUID r, note_Body = note_Body r,
      note_AddedOn = note_AddedOn r, note_EditedOn = 0, note_USN = note_USN r,
      note_Public = note_Public r, note_Deleted = note_Deleted r, note_Dirty = False\<rparr>"

definition sendNote ::
  "'sv DnoteCtx \<Rightarrow> Note \<Rightarrow> bool \<times> DB \<Rightarrow> 'sv \<Rightarrow> (error + bool \<times> DB) \<times> 'sv" where
  "sendNote ctx note st sv =
     (let isBehind = fst st; tx = snd st in
      if note_USN note = 0 then
        if note_Deleted note then
          (bindE (wrapE ''expunging a note locally'' (Note_Expunge note tx))
             (\<lambda>tx'. Inr (isBehind, tx')), sv)
        else
          (case client_CreateNote ctx (note_BookUUID note) (note_Body note) sv of
             (Inl err, sv') \<Rightarrow> (Inl (Wrap ''creating a note'' err), sv')
           | (Inr (respUUID, respUSN), sv') \<Rightarrow>
               (let note' = note\<lparr>note_Dirty := False, note_USN := respUSN\<rparr>
                in bindE (wrapE ''marking note dirty'' (Note_Update note' tx))
                     (\<lambda>tx1. bindE (wrapE ''updating note uuid'' (Note_UpdateUUID note' respUUID tx1))
                     (\<lambda>tx2. trackUSN tx2 respUSN isBehind)), sv'))
      else
        if note_Deleted note then
          (case client_DeleteNote ctx (note_UUID note) sv of
             (Inl err, sv') \<Rightarrow> (Inl (Wrap ''deleting a note'' err), sv')
           | (Inr respUSN, sv') \<Rightarrow>
               (bindE (wrapE ''expunging a note locally'' (Note_Expunge note tx))
                  (\<lambda>tx1. trackUSN tx1 respUSN isBehind), sv'))
        else
          (case client_UpdateNote ctx (note_UUID note) (note_BookUUID note) (note_Body note)
                  (note_Public note) sv of
             (Inl err, sv') \<Rightarrow> (Inl (Wrap ''updating a note'' err), sv')
           | (Inr respUSN, sv') \<Rightarrow>
               (let note' = note\<lparr>note_Dirty := False, note_USN := respUSN\<rparr>
                in bindE (wrapE ''marking note dirty'' (Note_Update note' tx))
                     (\<lambda>tx1. trackUSN tx1 respUSN isBehind), sv')))"

fun sendNotes_rows ::
  "'sv DnoteCtx \<Rightarrow> Note list \<Rightarrow> bool \<times> DB \<Rightarrow> 'sv \<Rightarrow> (error + bool \<times> DB) \<times> 'sv" where
  "sendNotes_rows ctx [] st sv = (Inr st, sv)"
| "sendNotes_rows ctx (note # rows) st sv =
     (case sendNote ctx note st sv of
        (Inl err, sv') \<Rightarrow> (Inl err, sv')
      | (Inr st', sv') \<Rightarrow> sendNotes_rows ctx rows st' sv')"

definition sendNotes :: "'sv DnoteCtx \<Rightarrow> DB \<Rightarrow> 'sv \<Rightarrow> (error + bool \<times> DB) \<times> 'sv" where
  "sendNotes ctx tx sv =
     sendNotes_rows ctx (map scanSyncableNote (filter note_Dirty (db_notes tx))) (False, tx) sv"

text \<open>
  \<open>sendChanges\<close> first counts the dirty rows for the progress line:
  \<open>err := tx.QueryRow("SELECT (SELECT count(*) FROM notes WHERE dirty) + (SELECT count(*)
  FROM books WHERE dirty)").Scan(&delta)\<close>. The count is only printed, and \<open>err\<close> is
  assigned anew by \<open>behind1, err := sendBooks(ctx, tx)\<close> before anything looks at it, so
  neither of them reaches the result.
\<close>

definition countDirty :: "'sv DnoteCtx \<Rightarrow> DB \<Rightarrow> 'sv \<Rightarrow> (error + nat) \<times> 'sv" where
  "countDirty ctx tx sv =
     (case tx_Scan_delta ctx sv of
        (Some err, sv') \<Rightarrow> (Inl err, sv')
      | (None, sv') \<Rightarrow> (Inr (countNotes note_Dirty tx + countBooks book_Dirty tx), sv'))"

definition sendChanges :: "'sv DnoteCtx \<Rightarrow> DB \<Rightarrow> 'sv \<Rightarrow> (error + bool \<times> DB) \<times> 'sv" where
  "sendChanges ctx tx sv =
     (case countDirty ctx tx sv of
        (delta, sv0) \<Rightarrow>
          (case sendBooks ctx tx sv0 of
             (Inl err, sv1) \<Rightarrow> (Inl (Wrap ''sending books'' err), sv1)
           | (Inr (behind1, tx1), sv1) \<Rightarrow>
               (case sendNotes ctx tx1 sv1 of
                  (Inl err, sv2) \<Rightarrow> (Inl (Wrap ''sending notes'' err), sv2)
                | (Inr (behind2, tx2), sv2) \<Rightarrow> (Inr (behind1 \<or> behind2, tx2), sv2))))"

section \<open>Sync orchestrator\<close>

text \<open>
  \<open>newRun\<close> begins one transaction \<open>tx\<close> on the store and gives every phase that
  handle. What the command leaves behind is the error it returns (if any), the fate of
  the transaction and the committed store: a \<open>tx.Commit()\<close> that succeeds makes the
  working copy the store; \<open>tx.Rollback()\<close>, a return that does neither and a
  \<open>tx.Commit()\<close> that fails leave the store as it was when the transaction began.
\<close>

datatype tx_fate = NotBegun | LeftOpen | RolledBack | Committed | CommitFailed

text \<open>\<open>if syncErr != nil { tx.Rollback(); return errors.Wrap(syncErr, ...) }\<close>\<close>

definition syncErrCheck ::
  "((error + DB) \<times> 'sv) option \<Rightarrow> (((error \<times> tx_fate) + DB) \<times> 'sv) option" where
  "syncErrCheck r =
     (case r of
        None \<Rightarrow> None
      | Some (Inl syncErr, sv') \<Rightarrow>
          Some (Inl (Wrap ''syncing changes from the server'' syncErr, RolledBack), sv')
      | Some (Inr tx', sv') \<Rightarrow> Some (Inr tx', sv'))"

text \<open>The pull decision of \<open>newRun\<close>.\<close>

definition pullChanges ::
  "'sv DnoteCtx \<Rightarrow> bool \<Rightarrow> SyncState \<Rightarrow> int \<Rightarrow> int \<Rightarrow> DB \<Rightarrow> 'sv
     \<Rightarrow> (((error \<times> tx_fate) + DB) \<times> 'sv) option" where
  "pullChanges ctx isFullSync syncState lastSyncAt lastMaxUSN tx sv =
     (if isFullSync \<or> lastSyncAt < ss_FullSyncBefore syncState then
        syncErrCheck (fullSync ctx tx sv)
      else if lastMaxUSN \<noteq> ss_MaxUSN syncState then
        syncErrCheck (stepSync ctx tx lastMaxUSN sv)
      else
        (case updateLastSyncAt tx (ss_CurrentTime syncState) of
           Inl err \<Rightarrow> Some (Inl (Wrap ''updating last sync at'' err, LeftOpen), sv)
         | Inr tx' \<Rightarrow> Some (Inr tx', sv)))"

text \<open>
  The end of \<open>newRun\<close>: \<open>tx.Commit()\<close>, then \<open>return nil\<close>. The code does not look at
  what \<open>tx.Commit()\<close> returns (nor at what \<open>core.CheckUpdate\<close> returns after it, which
  it only logs), so the command reports no error either way; \<open>db0\<close> is the store at the
  begin of \<open>tx\<close>.
\<close>

definition commitTx ::
  "'sv DnoteCtx \<Rightarrow> DB \<Rightarrow> DB \<Rightarrow> 'sv \<Rightarrow> (error option \<times> tx_fate \<times> DB) \<times> 'sv" where
  "commitTx ctx db0 tx sv =
     (case tx_Commit ctx sv of
        (Some err, sv') \<Rightarrow> ((None, CommitFailed, db0), sv')
      | (None, sv') \<Rightarrow> ((None, Committed, tx), sv'))"

text \<open>The follow-up step sync and the commit.\<close>

definition followUp ::
  "'sv DnoteCtx \<Rightarrow> DB \<Rightarrow> bool \<Rightarrow> DB \<Rightarrow> 'sv
     \<Rightarrow> ((error option \<times> tx_fate \<times> DB) \<times> 'sv) option" where
  "followUp ctx db0 isBehind tx sv =
     (if isBehind then
        (case getLastMaxUSN tx of
           Inl err \<Rightarrow> Some ((Some (Wrap ''getting the new last max_usn'' err), RolledBack, db0), sv)
         | Inr updatedLastMaxUSN \<Rightarrow>
             (case stepSync ctx tx updatedLastMaxUSN sv of
                None \<Rightarrow> None
              | Some (Inl err, sv') \<Rightarrow>
                  Some ((Some (Wrap ''performing the follow-up step sync'' err), RolledBack, db0), sv')
              | Some (Inr tx', sv') \<Rightarrow> Some (commitTx ctx db0 tx' sv')))
      else Some (commitTx ctx db0 tx sv))"

definition newRun ::
  "'sv DnoteCtx \<Rightarrow> bool \<Rightarrow> DB \<Rightarrow> 'sv \<Rightarrow> ((error option \<times> tx_fate \<times> DB) \<times> 'sv) option" where
  "newRun ctx isFullSync db sv =
     (if ctx_SessionKey ctx = [] \<or> ctx_CipherKey ctx = None then
        Some ((Some (Err ''not logged in''), NotBegun, db), sv)
      else
        (case migrate_Run ctx db sv of
           ((Some err, db0), sv0) \<Rightarrow>
             Some ((Some (Wrap ''running remote migrations'' err), NotBegun, db0), sv0)
         | ((None, db0), sv0) \<Rightarrow>
             (case DB_Begin ctx sv0 of
                (Some err, svb) \<Rightarrow>
                  Some ((Some (Wrap ''beginning a transaction'' err), NotBegun, db0), svb)
              | (None, svb) \<Rightarrow>
             (case client_GetSyncState ctx svb of
                (Inl err, sv1) \<Rightarrow>
                  Some ((Some (Wrap ''getting the sync state from the server'' err), LeftOpen, db0), sv1)
              | (Inr syncState, sv1) \<Rightarrow>
                  (case getLastSyncAt db0 of
                     Inl err \<Rightarrow>
                       Some ((Some (Wrap ''getting the last sync time'' err), LeftOpen, db0), sv1)
                   | Inr lastSyncAt \<Rightarrow>
                       (case getLastMaxUSN db0 of
                          Inl err \<Rightarrow>
                            Some ((Some (Wrap ''getting the last max_usn'' err), LeftOpen, db0), sv1)
                        | Inr lastMaxUSN \<Rightarrow>
                            (case pullChanges ctx isFullSync syncState lastSyncAt lastMaxUSN db0 sv1 of
                               None \<Rightarrow> None
                             | Some (Inl (err, fate), sv2) \<Rightarrow> Some ((Some err, fate, db0), sv2)
                             | Some (Inr tx1, sv2) \<Rightarrow>
                                 (case sendChanges ctx tx1 sv2 of
                                    (Inl err, sv3) \<Rightarrow>
                                      Some ((Some (Wrap ''sending changes'' err), RolledBack, db0), sv3)
                                  | (Inr (isBehind, tx2), sv3) \<Rightarrow>
                                      followUp ctx db0 isBehind tx2 sv3))))))))"

section \<open>Properties of the store\<close>

text \<open>
  After a full sync every local row is either known to the pulled sync list (live or
  expunged there) or it is dirty with \<open>usn = 0\<close>, a new row that waits for its upload.
\<close>

definition noteOK :: "syncList \<Rightarrow> Note \<Rightarrow> bool" where
  "noteOK list n \<longleftrightarrow> checkNoteInList (note_UUID n) list \<or> (note_Dirty n \<and> note_USN n = 0)"

definition bookOK :: "syncList \<Rightarrow> Book \<Rightarrow> bool" where
  "bookOK list b \<longleftrightarrow> checkBookInList (book_UUID b) list \<or> (book_Dirty b \<and> book_USN b = 0)"

definition presentOrNew :: "syncList \<Rightarrow> DB \<Rightarrow> bool" where
  "presentOrNew list tx \<longleftrightarrow>
     (\<forall>n\<in>set (db_notes tx). noteOK list n) \<and> (\<forall>b\<in>set (db_books tx). bookOK list b)"

definition keysAreUUIDs :: "syncList \<Rightarrow> bool" where
  "keysAreUUIDs list \<longleftrightarrow>
     (\<forall>kv\<in>set (sl_Notes list). fst kv = fn_UUID (snd kv))
   \<and> (\<forall>kv\<in>set (sl_Books list). fst kv = fb_UUID (snd kv))"

section \<open>A scripted server\<close>

text \<open>
  A server for the worked examples: its state is the number of fragments it has served,
  it serves the fragments of a script one after the other and then an empty last
  fragment, it accepts every key, has no migrations to run and answers \<open>CreateBook\<close>
  with a fixed response. The SQL driver beside it never fails.
\<close>

definition endFragment :: SyncFragment where
  "endFragment =
     \<lparr>frag_Notes = [], frag_Books = [], frag_ExpungedNotes = [], frag_ExpungedBooks = [],
      frag_FragMaxUSN = 0, frag_CurrentTime = 0\<rparr>"

definition scriptedCtx ::
  "SyncState \<Rightarrow> SyncFragment list \<Rightarrow> error + string \<times> int \<Rightarrow> nat DnoteCtx" where
  "scriptedCtx state frags created =
     \<lparr>ctx_SessionKey = ''session'',
      ctx_CipherKey = Some ''key'',
      crypt_AesGcmDecrypt = (\<lambda>key data. Inr data),
      migrate_Run = (\<lambda>db sv. ((None, db), sv)),
      client_GetSyncState = (\<lambda>sv. (Inr state, sv)),
      client_GetSyncFragment =
        (\<lambda>afterUSN sv. (Inr (if sv < length frags then frags ! sv else endFragment), sv + 1)),
      client_CreateBook = (\<lambda>label sv. (created, sv)),
      client_UpdateBook = (\<lambda>label uuid sv. (Inl (Err ''no such book''), sv)),
      client_DeleteBook = (\<lambda>uuid sv. (Inl (Err ''no such book''), sv)),
      client_CreateNote = (\<lambda>bookUUID body sv. (Inl (Err ''no such book''), sv)),
      client_UpdateNote = (\<lambda>uuid bookUUID body public sv. (Inl (Err ''no such note''), sv)),
      client_DeleteNote = (\<lambda>uuid sv. (Inl (Err ''no such note''), sv)),
      DB_Begin = (\<lambda>sv. (None, sv)),
      tx_Scan_delta = (\<lambda>sv. (None, sv)),
      tx_Commit = (\<lambda>sv. (None, sv))\<rparr>"

section \<open>Basic facts about the error idioms and the SQL statements\<close>

lemma wrapE_Inr [simp]: "wrapE msg (Inr x) = Inr x"
  by (simp add: wrapE_def)

lemma wrapE_Inl [simp]: "wrapE msg (Inl e) = Inl (Wrap msg e)"
  by (simp add: wrapE_def)

lemma wrapE_eq_Inr [simp]: "wrapE msg r = Inr x \<longleftrightarrow> r = Inr x"
  by (cases r) simp_all

lemma bindE_Inr [simp]: "bindE (Inr x) f = f x"
  by (simp add: bindE_def)

lemma bindE_Inl [simp]: "bindE (Inl e) f = Inl e"
  by (simp add: bindE_def)

lemma bindE_eq_Inr: "bindE r f = Inr y \<longleftrightarrow> (\<exists>x. r = Inr x \<and> f x = Inr y)"
  by (cases r) simp_all

lemma find_SomeD: "find P xs = Some x \<Longrightarrow> x \<in> set xs \<and> P x"
  by (induction xs) (auto split: if_splits)

lemma QueryRow_eq_Inl: "QueryRow P rows = Inl e \<longleftrightarrow> e = ErrNoRows \<and> (\<forall>r\<in>set rows. \<not> P r)"
proof (cases "find P rows")
  case None
  then have "\<forall>r\<in>set rows. \<not> P r" by (simp add: find_None_iff)
  with None show ?thesis by (auto simp: QueryRow_def)
next
  case (Some r)
  then have "r \<in> set rows \<and> P r" by (rule find_SomeD)
  with Some show ?thesis by (auto simp: QueryRow_def)
qed

lemma QueryRow_eq_Inr: "QueryRow P rows = Inr r \<Longrightarrow> r \<in> set rows \<and> P r"
  by (cases "find P rows") (auto simp: QueryRow_def dest: find_SomeD)

lemma checkNotesPristine_eq:
  "checkNotesPristine tx bookUUID
     = Inr (\<not> (\<exists>n\<in>set (db_notes tx). note_BookUUID n = bookUUID \<and> note_Dirty n))"
  by (auto simp: checkNotesPristine_def countNotes_def filter_empty_conv)

section \<open>Note merge\<close>

text \<open>
  C10. In the ordinary note-merge path (the owning book of the local note is present and
  not deleted, the local note is not deleted) \<open>mergeNote\<close> succeeds and rewrites the
  \<open>notes\<close> table row by row: a row with the server note's uuid gets \<open>usn\<close>,
  \<open>book_uuid\<close>, \<open>body\<close>, \<open>edited_on\<close>, \<open>deleted\<close> and \<open>public\<close> from the server and
  keeps its \<open>dirty\<close>, \<open>added_on\<close> and \<open>uuid\<close>; every other row, the \<open>books\<close> table
  and the system table stay as they are. So a dirty note is still dirty afterwards.
\<close>

theorem mergeNote_ordinary_frame:
  assumes book: "QueryRow (\<lambda>r. book_UUID r = note_BookUUID localNote) (db_books tx) = Inr bookRow"
    and live: "\<not> book_Deleted bookRow"
    and present: "\<not> note_Deleted localNote"
  shows "\<exists>tx'. mergeNote tx serverNote localNote = Inr tx'
           \<and> db_books tx' = db_books tx \<and> db_system tx' = db_system tx
           \<and> length (db_notes tx') = length (db_notes tx)
           \<and> (\<forall>i < length (db_notes tx).
                 (note_UUID (db_notes tx ! i) = fn_UUID serverNote \<longrightarrow>
                    db_notes tx' ! i =
                      (db_notes tx ! i)\<lparr>note_USN := fn_USN serverNote,
                         note_BookUUID := fn_BookUUID serverNote,
                         note_Body := fn_Body serverNote,
                         note_EditedOn := fn_EditedOn serverNote,
                         note_Deleted := fn_Deleted serverNote,
                         note_Public := fn_Public serverNote\<rparr>)
               \<and> (note_UUID (db_notes tx ! i) \<noteq> fn_UUID serverNote \<longrightarrow>
                    db_notes tx' ! i = db_notes tx ! i)
               \<and> note_Dirty (db_notes tx' ! i) = note_Dirty (db_notes tx ! i)
               \<and> note_AddedOn (db_notes tx' ! i) = note_AddedOn (db_notes tx ! i)
               \<and> note_UUID (db_notes tx' ! i) = note_UUID (db_notes tx ! i))"
  using assms by (simp add: mergeNote_def UPDATE_notes_def)

theorem mergeNote_ordinary_frame_witness:
  "\<exists>tx'. mergeNote
       \<lparr>db_books = [NewBook ''b1'' ''js'' 3 False False],
        db_notes = [NewNote ''n1'' ''b1'' ''local text'' 10 11 4 False False True],
        db_system = []\<rparr>
       \<lparr>fn_UUID = ''n1'', fn_BookUUID = ''b1'', fn_USN = 9, fn_AddedOn = 20,
        fn_EditedOn = 21, fn_Body = ''server text'', fn_Public = True, fn_Deleted = False\<rparr>
       (scanLocalNote (NewNote ''n1'' ''b1'' ''local text'' 10 11 4 False False True)) = Inr tx'
     \<and> db_notes tx' = [NewNote ''n1'' ''b1'' ''server text'' 10 21 9 True False True]"
proof -
  let ?tx = "\<lparr>db_books = [NewBook ''b1'' ''js'' 3 False False],
        db_notes = [NewNote ''n1'' ''b1'' ''local text'' 10 11 4 False False True],
        db_system = []\<rparr>"
  let ?ln = "scanLocalNote (NewNote ''n1'' ''b1'' ''local text'' 10 11 4 False False True)"
  have q: "QueryRow (\<lambda>r. book_UUID r = note_BookUUID ?ln) (db_books ?tx)
             = Inr (NewBook ''b1'' ''js'' 3 False False)"
    by (simp add: QueryRow_def scanLocalNote_def NewNote_def NewBook_def)
  have l: "\<not> book_Deleted (NewBook ''b1'' ''js'' 3 False False)"
    by (simp add: NewBook_def)
  have p: "\<not> note_Deleted ?ln"
    by (simp add: scanLocalNote_def NewNote_def)
  from mergeNote_ordinary_frame[OF q l p, of "\<lparr>fn_UUID = ''n1'', fn_BookUUID = ''b1'', fn_USN = 9,
        fn_AddedOn = 20, fn_EditedOn = 21, fn_Body = ''server text'', fn_Public = True,
        fn_Deleted = False\<rparr>"]
  obtain tx' where r: "mergeNote ?tx \<lparr>fn_UUID = ''n1'', fn_BookUUID = ''b1'', fn_USN = 9,
        fn_AddedOn = 20, fn_EditedOn = 21, fn_Body = ''server text'', fn_Public = True,
        fn_Deleted = False\<rparr> ?ln = Inr tx'"
    by blast
  then have "db_notes tx' = [NewNote ''n1'' ''b1'' ''server text'' 10 21 9 True False True]"
    by (auto simp: mergeNote_def UPDATE_notes_def QueryRow_def scanLocalNote_def NewNote_def
          NewBook_def)
  with r show ?thesis by blast
qed

text \<open>
  C5, as stated, does not hold: "all of its fields are overwritten from the server" fails
  for \<open>added_on\<close>. Neither \<open>UPDATE\<close> of \<open>mergeNote\<close> names that column. Here
  the local note was added at 10, the server's copy says 20, and after the merge the
  local row still says 10.
\<close>

theorem mergeNote_keeps_added_on_counterexample:
  "mergeNote
     \<lparr>db_books = [NewBook ''b1'' ''js'' 3 False False],
      db_notes = [NewNote ''n1'' ''b1'' ''local text'' 10 11 4 False False False],
      db_system = []\<rparr>
     \<lparr>fn_UUID = ''n1'', fn_BookUUID = ''b1'', fn_USN = 9, fn_AddedOn = 20,
      fn_EditedOn = 21, fn_Body = ''server text'', fn_Public = True, fn_Deleted = False\<rparr>
     (scanLocalNote (NewNote ''n1'' ''b1'' ''local text'' 10 11 4 False False False))
   = Inr \<lparr>db_books = [NewBook ''b1'' ''js'' 3 False False],
          db_notes = [NewNote ''n1'' ''b1'' ''server text'' 10 21 9 True False False],
          db_system = []\<rparr>
   \<and> note_AddedOn (NewNote ''n1'' ''b1'' ''server text'' 10 21 9 True False False)
       \<noteq> fn_AddedOn \<lparr>fn_UUID = ''n1'', fn_BookUUID = ''b1'', fn_USN = 9, fn_AddedOn = 20,
            fn_EditedOn = 21, fn_Body = ''server text'', fn_Public = True, fn_Deleted = False\<rparr>"
  by (simp add: mergeNote_def UPDATE_notes_def QueryRow_def scanLocalNote_def NewNote_def
        NewBook_def)

text \<open>
  C5, amended. A server note is merged against a present local note. If the row of the
  owning local book is missing, \<open>mergeNote\<close> fails. If the owning book is deleted, the
  store is unchanged. Otherwise every row with the server note's uuid gets \<open>usn\<close>,
  \<open>book_uuid\<close>, \<open>body\<close>, \<open>edited_on\<close>, \<open>deleted\<close> and \<open>public\<close> from the server
  and keeps its \<open>uuid\<close> and \<open>added_on\<close>; its \<open>dirty\<close> is cleared when the local note
  was deleted and kept when it was not. All other rows are unchanged.
\<close>

theorem mergeNote_cases:
  "(\<forall>err. QueryRow (\<lambda>r. book_UUID r = note_BookUUID localNote) (db_books tx) = Inl err \<longrightarrow>
      (\<exists>e. mergeNote tx serverNote localNote = Inl e))
   \<and> (\<forall>bookRow.
        QueryRow (\<lambda>r. book_UUID r = note_BookUUID localNote) (db_books tx) = Inr bookRow \<longrightarrow>
        (book_Deleted bookRow \<longrightarrow> mergeNote tx serverNote localNote = Inr tx)
      \<and> (\<not> book_Deleted bookRow \<longrightarrow>
           (\<exists>tx'. mergeNote tx serverNote localNote = Inr tx'
              \<and> db_books tx' = db_books tx \<and> db_system tx' = db_system tx
              \<and> length (db_notes tx') = length (db_notes tx)
              \<and> (\<forall>i < length (db_notes tx).
                    (note_UUID (db_notes tx ! i) \<noteq> fn_UUID serverNote \<longrightarrow>
                       db_notes tx' ! i = db_notes tx ! i)
                  \<and> (note_UUID (db_notes tx ! i) = fn_UUID serverNote \<longrightarrow>
                       db_notes tx' ! i =
                         (db_notes tx ! i)\<lparr>note_USN := fn_USN serverNote,
                            note_BookUUID := fn_BookUUID serverNote,
                            note_Body := fn_Body serverNote,
                            note_EditedOn := fn_EditedOn serverNote,
                            note_Deleted := fn_Deleted serverNote,
                            note_Public := fn_Public serverNote,
                            note_Dirty := (if note_Deleted localNote then False
                                           else note_Dirty (db_notes tx ! i))\<rparr>)))))"
  by (simp add: mergeNote_def UPDATE_notes_def)

theorem mergeNote_cases_witness:
  "mergeNote
     \<lparr>db_books = [NewBook ''b1'' ''js'' 3 True False],
      db_notes = [NewNote ''n1'' ''b1'' ''local text'' 10 11 4 False False True],
      db_system = []\<rparr>
     \<lparr>fn_UUID = ''n1'', fn_BookUUID = ''b1'', fn_USN = 9, fn_AddedOn = 20,
      fn_EditedOn = 21, fn_Body = ''server text'', fn_Public = True, fn_Deleted = False\<rparr>
     (scanLocalNote (NewNote ''n1'' ''b1'' ''local text'' 10 11 4 False False True))
   = Inr \<lparr>db_books = [NewBook ''b1'' ''js'' 3 True False],
          db_notes = [NewNote ''n1'' ''b1'' ''local text'' 10 11 4 False False True],
          db_system = []\<rparr>
   \<and> (\<exists>tx'. mergeNote
        \<lparr>db_books = [NewBook ''b1'' ''js'' 3 False False],
         db_notes = [NewNote ''n1'' ''b1'' ''local text'' 10 11 4 False True True],
         db_system = []\<rparr>
        \<lparr>fn_UUID = ''n1'', fn_BookUUID = ''b1'', fn_USN = 9, fn_AddedOn = 20,
         fn_EditedOn = 21, fn_Body = ''server text'', fn_Public = True, fn_Deleted = False\<rparr>
        (scanLocalNote (NewNote ''n1'' ''b1'' ''local text'' 10 11 4 False True True)) = Inr tx'
      \<and> db_notes tx' ! 0 = NewNote ''n1'' ''b1'' ''server text'' 10 21 9 True False False)
   \<and> (\<exists>e. mergeNote
        \<lparr>db_books = [],
         db_notes = [NewNote ''n1'' ''b1'' ''local text'' 10 11 4 False False True],
         db_system = []\<rparr>
        \<lparr>fn_UUID = ''n1'', fn_BookUUID = ''b1'', fn_USN = 9, fn_AddedOn = 20,
         fn_EditedOn = 21, fn_Body = ''server text'', fn_Public = True, fn_Deleted = False\<rparr>
        (scanLocalNote (NewNote ''n1'' ''b1'' ''local text'' 10 11 4 False False True)) = Inl e)"
proof -
  let ?sn = "\<lparr>fn_UUID = ''n1'', fn_BookUUID = ''b1'', fn_USN = 9, fn_AddedOn = 20,
      fn_EditedOn = 21, fn_Body = ''server text'', fn_Public = True, fn_Deleted = False\<rparr>"
  let ?n1 = "NewNote ''n1'' ''b1'' ''local text'' 10 11 4 False False True"
  let ?n2 = "NewNote ''n1'' ''b1'' ''local text'' 10 11 4 False True True"
  let ?tx1 = "\<lparr>db_books = [NewBook ''b1'' ''js'' 3 True False], db_notes = [?n1], db_system = []\<rparr>"
  let ?tx2 = "\<lparr>db_books = [NewBook ''b1'' ''js'' 3 False False], db_notes = [?n2], db_system = []\<rparr>"
  let ?tx3 = "\<lparr>db_books = [], db_notes = [?n1], db_system = []\<rparr>"
  have a: "mergeNote ?tx1 ?sn (scanLocalNote ?n1) = Inr ?tx1"
    using mergeNote_cases[of "scanLocalNote ?n1" ?tx1 ?sn]
    by (simp add: QueryRow_def scanLocalNote_def NewNote_def NewBook_def)
  have b: "\<exists>tx'. mergeNote ?tx2 ?sn (scanLocalNote ?n2) = Inr tx'
             \<and> db_notes tx' ! 0 = NewNote ''n1'' ''b1'' ''server text'' 10 21 9 True False False"
    using mergeNote_cases[of "scanLocalNote ?n2" ?tx2 ?sn]
    by (auto simp: QueryRow_def scanLocalNote_def NewNote_def NewBook_def)
  have c: "\<exists>e. mergeNote ?tx3 ?sn (scanLocalNote ?n1) = Inl e"
    using mergeNote_cases[of "scanLocalNote ?n1" ?tx3 ?sn]
    by (simp add: QueryRow_def scanLocalNote_def NewNote_def)
  from a b c show ?thesis by blast
qed

section \<open>Server-observed deletion of a book\<close>

text \<open>
  C6. \<open>syncDeleteBook\<close> applied to a book uuid: when no local row has the uuid, the
  store is unchanged; when the local row is dirty, the store is unchanged; when the row is
  clean and a note of the book is dirty, every row of the book stays in the table with
  \<open>dirty\<close> set and \<open>deleted\<close> (and every other field) as it was, and the notes are
  untouched; otherwise the notes of the book are removed and then the rows of the book.
\<close>

theorem syncDeleteBook_cases:
  "(\<forall>err. QueryRow (\<lambda>r. book_UUID r = bookUUID) (db_books tx) = Inl err \<longrightarrow>
      syncDeleteBook tx bookUUID = Inr tx)
   \<and> (\<forall>row. QueryRow (\<lambda>r. book_UUID r = bookUUID) (db_books tx) = Inr row \<longrightarrow>
        (book_Dirty row \<longrightarrow> syncDeleteBook tx bookUUID = Inr tx)
      \<and> (\<not> book_Dirty row \<and> (\<exists>n\<in>set (db_notes tx). note_BookUUID n = bookUUID \<and> note_Dirty n) \<longrightarrow>
           (\<exists>tx'. syncDeleteBook tx bookUUID = Inr tx'
              \<and> db_notes tx' = db_notes tx \<and> db_system tx' = db_system tx
              \<and> length (db_books tx') = length (db_books tx)
              \<and> (\<forall>i < length (db_books tx).
                    (book_UUID (db_books tx ! i) = bookUUID \<longrightarrow>
                       db_books tx' ! i = (db_books tx ! i)\<lparr>book_Dirty := True\<rparr>
                       \<and> book_Deleted (db_books tx' ! i) = book_Deleted (db_books tx ! i))
                  \<and> (book_UUID (db_books tx ! i) \<noteq> bookUUID \<longrightarrow>
                       db_books tx' ! i = db_books tx ! i))))
      \<and> (\<not> book_Dirty row \<and> \<not> (\<exists>n\<in>set (db_notes tx). note_BookUUID n = bookUUID \<and> note_Dirty n) \<longrightarrow>
           (\<exists>tx'. syncDeleteBook tx bookUUID = Inr tx'
              \<and> db_notes tx' = filter (\<lambda>n. note_BookUUID n \<noteq> bookUUID) (db_notes tx)
              \<and> db_books tx' = filter (\<lambda>b. book_UUID b \<noteq> bookUUID) (db_books tx)
              \<and> db_system tx' = db_system tx)))"
proof -
  show ?thesis
  proof (cases "QueryRow (\<lambda>r. book_UUID r = bookUUID) (db_books tx)")
    case (Inl err)
    then have "err = ErrNoRows" by (simp add: QueryRow_eq_Inl)
    with Inl show ?thesis by (simp add: syncDeleteBook_def)
  next
    case (Inr row)
    then show ?thesis
      by (simp add: syncDeleteBook_def checkNotesPristine_eq
            UPDATE_books_def DELETE_books_def DELETE_notes_def)
  qed
qed

theorem syncDeleteBook_cases_witness:
  "(\<exists>tx'. syncDeleteBook
        \<lparr>db_books = [NewBook ''B1'' ''js'' 5 False False],
         db_notes = [NewNote ''N1'' ''B1'' ''text'' 10 11 4 False False True],
         db_system = []\<rparr> ''B1'' = Inr tx'
      \<and> db_books tx' ! 0 = NewBook ''B1'' ''js'' 5 False True
      \<and> db_notes tx' = [NewNote ''N1'' ''B1'' ''text'' 10 11 4 False False True])
   \<and> (\<exists>tx'. syncDeleteBook
        \<lparr>db_books = [NewBook ''B1'' ''js'' 5 False False, NewBook ''B2'' ''go'' 6 False False],
         db_notes = [NewNote ''N1'' ''B1'' ''text'' 10 11 4 False False False,
                     NewNote ''N2'' ''B2'' ''text'' 10 11 7 False False True],
         db_system = []\<rparr> ''B1'' = Inr tx'
      \<and> db_books tx' = [NewBook ''B2'' ''go'' 6 False False]
      \<and> db_notes tx' = [NewNote ''N2'' ''B2'' ''text'' 10 11 7 False False True])
   \<and> syncDeleteBook
        \<lparr>db_books = [NewBook ''B1'' ''js'' 5 False True], db_notes = [], db_system = []\<rparr> ''B1''
      = Inr \<lparr>db_books = [NewBook ''B1'' ''js'' 5 False True], db_notes = [], db_system = []\<rparr>
   \<and> syncDeleteBook
        \<lparr>db_books = [NewBook ''B1'' ''js'' 5 False False], db_notes = [], db_system = []\<rparr> ''B9''
      = Inr \<lparr>db_books = [NewBook ''B1'' ''js'' 5 False False], db_notes = [], db_system = []\<rparr>"
proof -
  let ?txa = "\<lparr>db_books = [NewBook ''B1'' ''js'' 5 False False],
         db_notes = [NewNote ''N1'' ''B1'' ''text'' 10 11 4 False False True],
         db_system = []\<rparr>"
  let ?txb = "\<lparr>db_books = [NewBook ''B1'' ''js'' 5 False False, NewBook ''B2'' ''go'' 6 False False],
         db_notes = [NewNote ''N1'' ''B1'' ''text'' 10 11 4 False False False,
                     NewNote ''N2'' ''B2'' ''text'' 10 11 7 False False True],
         db_system = []\<rparr>"
  let ?txc = "\<lparr>db_books = [NewBook ''B1'' ''js'' 5 False True], db_notes = [], db_system = []\<rparr>"
  let ?txd = "\<lparr>db_books = [NewBook ''B1'' ''js'' 5 False False], db_notes = [], db_system = []\<rparr>"
  have a: "\<exists>tx'. syncDeleteBook ?txa ''B1'' = Inr tx'
      \<and> db_books tx' ! 0 = NewBook ''B1'' ''js'' 5 False True
      \<and> db_notes tx' = [NewNote ''N1'' ''B1'' ''text'' 10 11 4 False False True]"
    using syncDeleteBook_cases[of "''B1''" ?txa]
    by (auto simp: QueryRow_def NewBook_def NewNote_def)
  have b: "\<exists>tx'. syncDeleteBook ?txb ''B1'' = Inr tx'
      \<and> db_books tx' = [NewBook ''B2'' ''go'' 6 False False]
      \<and> db_notes tx' = [NewNote ''N2'' ''B2'' ''text'' 10 11 7 False False True]"
    using syncDeleteBook_cases[of "''B1''" ?txb]
    by (auto simp: QueryRow_def NewBook_def NewNote_def)
  have c: "syncDeleteBook ?txc ''B1'' = Inr ?txc"
    using syncDeleteBook_cases[of "''B1''" ?txc]
    by (simp add: QueryRow_def NewBook_def)
  have d: "syncDeleteBook ?txd ''B9'' = Inr ?txd"
    using syncDeleteBook_cases[of "''B9''" ?txd]
    by (simp add: QueryRow_def NewBook_def)
  from a b c d show ?thesis by blast
qed

section \<open>Label collision resolution: the first free label\<close>

lemma resolveLabel_loop_first:
  "\<exists>j\<ge>i. resolveLabel_loop tx label i = Sprintf_label label j
          \<and> countBooks (\<lambda>r. book_Label r = Sprintf_label label j) tx = 0
          \<and> (\<forall>k. i \<le> k \<and> k < j \<longrightarrow>
                 0 < countBooks (\<lambda>r. book_Label r = Sprintf_label label k) tx)"
proof (induction tx label i rule: resolveLabel_loop.induct)
  case (1 tx label i)
  show ?case
  proof (cases "countBooks (\<lambda>r. book_Label r = Sprintf_label label i) tx = 0")
    case True
    then have "resolveLabel_loop tx label i = Sprintf_label label i"
      by (subst resolveLabel_loop.simps) simp
    with True show ?thesis by (intro exI[of _ i]) simp
  next
    case False
    from "1.IH"[OF False] obtain j where j: "i + 1 \<le> j"
      and r: "resolveLabel_loop tx label (i + 1) = Sprintf_label label j"
      and free: "countBooks (\<lambda>r. book_Label r = Sprintf_label label j) tx = 0"
      and taken: "\<forall>k. i + 1 \<le> k \<and> k < j \<longrightarrow>
                    0 < countBooks (\<lambda>r. book_Label r = Sprintf_label label k) tx"
      by blast
    from False r have "resolveLabel_loop tx label i = Sprintf_label label j"
      by (subst resolveLabel_loop.simps) simp
    moreover have "\<forall>k. i \<le> k \<and> k < j \<longrightarrow>
                    0 < countBooks (\<lambda>r. book_Label r = Sprintf_label label k) tx"
    proof (intro allI impI)
      fix k
      assume k: "i \<le> k \<and> k < j"
      show "0 < countBooks (\<lambda>r. book_Label r = Sprintf_label label k) tx"
      proof (cases "k = i")
        case True
        with False show ?thesis by simp
      next
        case False
        with k have "i + 1 \<le> k \<and> k < j" by simp
        with taken show ?thesis by blast
      qed
    qed
    moreover from j have "i \<le> j" by simp
    ultimately show ?thesis using free by blast
  qed
qed

text \<open>
  C4, as stated, does not hold: the resolver does not look at \<open>deleted\<close>. Its query is
  \<open>SELECT count(*) FROM books WHERE label = ?\<close>, so a deleted book blocks a label
  too. Here "X (2)" is held by one book, which is deleted: no live book holds
  "X (2)", and yet the result is "X (3)".
\<close>

theorem resolveLabel_counts_deleted_books_counterexample:
  "resolveLabel
     \<lparr>db_books = [NewBook ''L1'' ''X'' 1 False False, NewBook ''L2'' ''X (2)'' 2 True False],
      db_notes = [], db_system = []\<rparr> ''X'' = Inr ''X (3)''
   \<and> countBooks (\<lambda>r. book_Label r = ''X (2)'' \<and> \<not> book_Deleted r)
       \<lparr>db_books = [NewBook ''L1'' ''X'' 1 False False, NewBook ''L2'' ''X (2)'' 2 True False],
        db_notes = [], db_system = []\<rparr> = 0"
  by (simp add: resolveLabel_def resolveLabel_loop.simps countBooks_def NewBook_def
        Sprintf_label_def itoa.simps digit_char_def)

text \<open>
  C4, amended. For every colliding label \<open>L\<close>, \<open>resolveLabel\<close> returns the first label
  among "L (2)", "L (3)", ... that no row of \<open>books\<close> holds, deleted or not.
  \<open>mergeBook\<close> gives that label to every row that holds the server book's label and marks
  it dirty, and then inserts the server's book after the rows of the table or overwrites
  \<open>usn\<close>, \<open>label\<close> and \<open>deleted\<close> of the row with the server book's uuid; that row, when it
  held the label itself, has the server's label again and stays dirty. Every row that
  held the label is dirty afterwards, and notes and system values are not touched. Against
  the labels "X", "X (2)", "X (3)" the result is "X (4)" (the witness).
\<close>

theorem resolveLabel_first_unheld:
  "(\<exists>j\<ge>2. resolveLabel tx label = Inr (Sprintf_label label j)
          \<and> countBooks (\<lambda>r. book_Label r = Sprintf_label label j) tx = 0
          \<and> (\<forall>k. 2 \<le> k \<and> k < j \<longrightarrow>
                 0 < countBooks (\<lambda>r. book_Label r = Sprintf_label label k) tx))
   \<and> (\<exists>newLabel. resolveLabel tx (fb_Label b) = Inr newLabel
        \<and> mergeBook tx b modeInsert
            = Inr (tx\<lparr>db_books :=
                     map (\<lambda>r. if book_Label r = fb_Label b
                               then r\<lparr>book_Label := newLabel, book_Dirty := True\<rparr> else r)
                       (db_books tx)
                     @ [NewBook (fb_UUID b) (fb_Label b) (fb_USN b) False False]\<rparr>)
        \<and> mergeBook tx b modeUpdate
            = Inr (tx\<lparr>db_books :=
                     map (\<lambda>r. if book_UUID r = fb_UUID b
                               then r\<lparr>book_USN := fb_USN b, book_UUID := fb_UUID b,
                                      book_Label := fb_Label b, book_Deleted := fb_Deleted b,
                                      book_Dirty := (book_Dirty r \<or> book_Label r = fb_Label b)\<rparr>
                               else if book_Label r = fb_Label b
                               then r\<lparr>book_Label := newLabel, book_Dirty := True\<rparr> else r)
                       (db_books tx)\<rparr>))
   \<and> (\<forall>mode tx'. mergeBook tx b mode = Inr tx' \<longrightarrow>
          length (db_books tx) \<le> length (db_books tx')
        \<and> (\<forall>i < length (db_books tx).
              book_Label (db_books tx ! i) = fb_Label b \<longrightarrow> book_Dirty (db_books tx' ! i))
        \<and> db_notes tx' = db_notes tx \<and> db_system tx' = db_system tx)"
proof -
  have first: "\<exists>j\<ge>2. resolveLabel tx label = Inr (Sprintf_label label j)
          \<and> countBooks (\<lambda>r. book_Label r = Sprintf_label label j) tx = 0
          \<and> (\<forall>k. 2 \<le> k \<and> k < j \<longrightarrow>
                 0 < countBooks (\<lambda>r. book_Label r = Sprintf_label label k) tx)"
    using resolveLabel_loop_first[of 2 tx label] by (simp add: resolveLabel_def)
  let ?new = "resolveLabel_loop tx (fb_Label b) 2"
  let ?ren = "\<lambda>r. if book_Label r = fb_Label b
                   then r\<lparr>book_Label := ?new, book_Dirty := True\<rparr> else r"
  have none: "countBooks (\<lambda>r. book_Label r = fb_Label b) tx = 0
                \<Longrightarrow> map ?ren (db_books tx) = db_books tx"
    by (simp add: countBooks_def filter_empty_conv map_idI)
  have ins: "mergeBook tx b modeInsert
            = Inr (tx\<lparr>db_books := map ?ren (db_books tx)
                     @ [NewBook (fb_UUID b) (fb_Label b) (fb_USN b) False False]\<rparr>)"
  proof (cases "0 < countBooks (\<lambda>r. book_Label r = fb_Label b) tx")
    case True
    then show ?thesis
      by (simp add: mergeBook_def resolveLabel_def UPDATE_books_def Book_Insert_def)
  next
    case False
    with none show ?thesis
      by (simp add: mergeBook_def Book_Insert_def)
  qed
  have upd: "mergeBook tx b modeUpdate
            = Inr (tx\<lparr>db_books :=
                     map (\<lambda>r. if book_UUID r = fb_UUID b
                               then r\<lparr>book_USN := fb_USN b, book_UUID := fb_UUID b,
                                      book_Label := fb_Label b, book_Deleted := fb_Deleted b,
                                      book_Dirty := (book_Dirty r \<or> book_Label r = fb_Label b)\<rparr>
                               else ?ren r)
                       (db_books tx)\<rparr>)"
  proof (cases "0 < countBooks (\<lambda>r. book_Label r = fb_Label b) tx")
    case True
    then show ?thesis
      by (auto simp: mergeBook_def resolveLabel_def UPDATE_books_def)
  next
    case False
    then have "\<forall>r\<in>set (db_books tx). book_Label r \<noteq> fb_Label b"
      by (simp add: countBooks_def filter_empty_conv)
    with False show ?thesis
      by (auto simp: mergeBook_def UPDATE_books_def)
  qed
  have frame: "\<forall>mode tx'. mergeBook tx b mode = Inr tx' \<longrightarrow>
          length (db_books tx) \<le> length (db_books tx')
        \<and> (\<forall>i < length (db_books tx).
              book_Label (db_books tx ! i) = fb_Label b \<longrightarrow> book_Dirty (db_books tx' ! i))
        \<and> db_notes tx' = db_notes tx \<and> db_system tx' = db_system tx"
  proof (intro allI impI)
    fix mode tx'
    assume m: "mergeBook tx b mode = Inr tx'"
    show "length (db_books tx) \<le> length (db_books tx')
        \<and> (\<forall>i < length (db_books tx).
              book_Label (db_books tx ! i) = fb_Label b \<longrightarrow> book_Dirty (db_books tx' ! i))
        \<and> db_notes tx' = db_notes tx \<and> db_system tx' = db_system tx"
    proof (cases mode)
      case modeInsert
      with m ins show ?thesis by (auto simp: nth_append)
    next
      case modeUpdate
      with m upd show ?thesis by auto
    qed
  qed
  from ins upd have "\<exists>newLabel. resolveLabel tx (fb_Label b) = Inr newLabel
        \<and> mergeBook tx b modeInsert
            = Inr (tx\<lparr>db_books :=
                     map (\<lambda>r. if book_Label r = fb_Label b
                               then r\<lparr>book_Label := newLabel, book_Dirty := True\<rparr> else r)
                       (db_books tx)
                     @ [NewBook (fb_UUID b) (fb_Label b) (fb_USN b) False False]\<rparr>)
        \<and> mergeBook tx b modeUpdate
            = Inr (tx\<lparr>db_books :=
                     map (\<lambda>r. if book_UUID r = fb_UUID b
                               then r\<lparr>book_USN := fb_USN b, book_UUID := fb_UUID b,
                                      book_Label := fb_Label b, book_Deleted := fb_Deleted b,
                                      book_Dirty := (book_Dirty r \<or> book_Label r = fb_Label b)\<rparr>
                               else if book_Label r = fb_Label b
                               then r\<lparr>book_Label := newLabel, book_Dirty := True\<rparr> else r)
                       (db_books tx)\<rparr>)"
    by (simp add: resolveLabel_def)
  with first frame show ?thesis by blast
qed


theorem resolveLabel_first_unheld_witness:
  "resolveLabel
     \<lparr>db_books = [NewBook ''L1'' ''X'' 1 False False, NewBook ''L2'' ''X (2)'' 2 False False,
                  NewBook ''L3'' ''X (3)'' 3 False False],
      db_notes = [], db_system = []\<rparr> ''X'' = Inr ''X (4)''
   \<and> mergeBook
        \<lparr>db_books = [NewBook ''L9'' ''js'' 0 False True], db_notes = [], db_system = []\<rparr>
        \<lparr>fb_UUID = ''S9'', fb_USN = 7, fb_Label = ''js'', fb_Deleted = False\<rparr> modeInsert
     = Inr \<lparr>db_books = [NewBook ''L9'' ''js (2)'' 0 False True, NewBook ''S9'' ''js'' 7 False False],
            db_notes = [], db_system = []\<rparr>
   \<and> mergeBook
        \<lparr>db_books = [NewBook ''S9'' ''go'' 3 False False, NewBook ''L9'' ''js'' 0 False True],
         db_notes = [], db_system = []\<rparr>
        \<lparr>fb_UUID = ''S9'', fb_USN = 7, fb_Label = ''js'', fb_Deleted = False\<rparr> modeUpdate
     = Inr \<lparr>db_books = [NewBook ''S9'' ''js'' 7 False False, NewBook ''L9'' ''js (2)'' 0 False True],
            db_notes = [], db_system = []\<rparr>
   \<and> mergeBook
        \<lparr>db_books = [NewBook ''S9'' ''js'' 3 False False], db_notes = [], db_system = []\<rparr>
        \<lparr>fb_UUID = ''S9'', fb_USN = 7, fb_Label = ''js'', fb_Deleted = False\<rparr> modeUpdate
     = Inr \<lparr>db_books = [NewBook ''S9'' ''js'' 7 False True], db_notes = [], db_system = []\<rparr>"
proof -
  let ?txx = "\<lparr>db_books = [NewBook ''L1'' ''X'' 1 False False, NewBook ''L2'' ''X (2)'' 2 False False,
                  NewBook ''L3'' ''X (3)'' 3 False False],
      db_notes = [], db_system = []\<rparr>"
  let ?t1 = "\<lparr>db_books = [NewBook ''L9'' ''js'' 0 False True], db_notes = [], db_system = []\<rparr>"
  let ?t2 = "\<lparr>db_books = [NewBook ''S9'' ''go'' 3 False False, NewBook ''L9'' ''js'' 0 False True],
         db_notes = [], db_system = []\<rparr>"
  let ?t3 = "\<lparr>db_books = [NewBook ''S9'' ''js'' 3 False False], db_notes = [], db_system = []\<rparr>"
  let ?b = "\<lparr>fb_UUID = ''S9'', fb_USN = 7, fb_Label = ''js'', fb_Deleted = False\<rparr>"
  have x: "resolveLabel ?txx ''X'' = Inr ''X (4)''"
    using resolveLabel_first_unheld[of ?txx "''X''" ?b]
    by (simp add: resolveLabel_def resolveLabel_loop.simps countBooks_def NewBook_def
          Sprintf_label_def itoa.simps digit_char_def)
  have r1: "resolveLabel ?t1 ''js'' = Inr ''js (2)''"
    by (simp add: resolveLabel_def resolveLabel_loop.simps countBooks_def NewBook_def
          Sprintf_label_def itoa.simps digit_char_def)
  have r2: "resolveLabel ?t2 ''js'' = Inr ''js (2)''"
    by (simp add: resolveLabel_def resolveLabel_loop.simps countBooks_def NewBook_def
          Sprintf_label_def itoa.simps digit_char_def)
  have r3: "resolveLabel ?t3 ''js'' = Inr ''js (2)''"
    by (simp add: resolveLabel_def resolveLabel_loop.simps countBooks_def NewBook_def
          Sprintf_label_def itoa.simps digit_char_def)
  have a: "mergeBook ?t1 ?b modeInsert
     = Inr \<lparr>db_books = [NewBook ''L9'' ''js (2)'' 0 False True, NewBook ''S9'' ''js'' 7 False False],
            db_notes = [], db_system = []\<rparr>"
    using resolveLabel_first_unheld[of ?t1 "''js''" ?b] r1
    by (auto simp: NewBook_def)
  have b: "mergeBook ?t2 ?b modeUpdate
     = Inr \<lparr>db_books = [NewBook ''S9'' ''js'' 7 False False, NewBook ''L9'' ''js (2)'' 0 False True],
            db_notes = [], db_system = []\<rparr>"
    using resolveLabel_first_unheld[of ?t2 "''js''" ?b] r2
    by (auto simp: NewBook_def)
  have c: "mergeBook ?t3 ?b modeUpdate
     = Inr \<lparr>db_books = [NewBook ''S9'' ''js'' 7 False True], db_notes = [], db_system = []\<rparr>"
    using resolveLabel_first_unheld[of ?t3 "''js''" ?b] r3
    by (auto simp: NewBook_def)
  from x a b c show ?thesis by simp
qed

section \<open>Cleanup and the state after a full sync\<close>

lemma cleanLocalNotes_rows_eq:
  "cleanLocalNotes_rows l rows tx =
     Inr (tx\<lparr>db_notes := filter (\<lambda>r. \<not> (\<exists>s\<in>set rows. note_UUID s = note_UUID r
                  \<and> \<not> checkNoteInList (note_UUID s) l \<and> (\<not> note_Dirty s \<or> note_USN s \<noteq> 0)))
                (db_notes tx)\<rparr>)"
proof (induction rows arbitrary: tx)
  case Nil
  show ?case by simp
next
  case (Cons n rows)
  let ?bad = "\<lambda>s. \<not> checkNoteInList (note_UUID s) l \<and> (\<not> note_Dirty s \<or> note_USN s \<noteq> 0)"
  show ?case
  proof (cases "?bad n")
    case True
    have "filter (\<lambda>r. \<not> (\<exists>s\<in>set rows. note_UUID s = note_UUID r \<and> ?bad s))
            (filter (\<lambda>r. \<not> note_UUID r = note_UUID n) (db_notes tx))
          = filter (\<lambda>r. \<not> (\<exists>s\<in>set (n # rows). note_UUID s = note_UUID r \<and> ?bad s)) (db_notes tx)"
      unfolding filter_filter using True by (intro filter_cong) auto
    note flt = this
    have step: "cleanLocalNotes_rows l (n # rows) tx
                  = cleanLocalNotes_rows l rows (DELETE_notes (\<lambda>r. note_UUID r = note_UUID n) tx)"
      using True by (auto simp: Note_Expunge_def)
    have d1: "\<And>x. (DELETE_notes (\<lambda>r. note_UUID r = note_UUID n) tx)\<lparr>db_notes := x\<rparr> = tx\<lparr>db_notes := x\<rparr>"
      by (simp add: DELETE_notes_def)
    have d2: "db_notes (DELETE_notes (\<lambda>r. note_UUID r = note_UUID n) tx)
                = filter (\<lambda>r. \<not> note_UUID r = note_UUID n) (db_notes tx)"
      by (simp add: DELETE_notes_def)
    show ?thesis
      by (simp only: step Cons.IH d1 d2 flt)
  next
    case False
    have "filter (\<lambda>r. \<not> (\<exists>s\<in>set rows. note_UUID s = note_UUID r \<and> ?bad s)) (db_notes tx)
          = filter (\<lambda>r. \<not> (\<exists>s\<in>set (n # rows). note_UUID s = note_UUID r \<and> ?bad s)) (db_notes tx)"
      using False by (intro filter_cong) auto
    note flt = this
    have step: "cleanLocalNotes_rows l (n # rows) tx = cleanLocalNotes_rows l rows tx"
      using False by auto
    show ?thesis
      by (simp only: step Cons.IH flt)
  qed
qed

lemma cleanLocalBooks_rows_eq:
  "cleanLocalBooks_rows l rows tx =
     Inr (tx\<lparr>db_books := filter (\<lambda>r. \<not> (\<exists>s\<in>set rows. book_UUID s = book_UUID r
                  \<and> \<not> checkBookInList (book_UUID s) l \<and> (\<not> book_Dirty s \<or> book_USN s \<noteq> 0)))
                (db_books tx)\<rparr>)"
proof (induction rows arbitrary: tx)
  case Nil
  show ?case by simp
next
  case (Cons b rows)
  let ?bad = "\<lambda>s. \<not> checkBookInList (book_UUID s) l \<and> (\<not> book_Dirty s \<or> book_USN s \<noteq> 0)"
  show ?case
  proof (cases "?bad b")
    case True
    have "filter (\<lambda>r. \<not> (\<exists>s\<in>set rows. book_UUID s = book_UUID r \<and> ?bad s))
            (filter (\<lambda>r. \<not> book_UUID r = book_UUID b) (db_books tx))
          = filter (\<lambda>r. \<not> (\<exists>s\<in>set (b # rows). book_UUID s = book_UUID r \<and> ?bad s)) (db_books tx)"
      unfolding filter_filter using True by (intro filter_cong) auto
    note flt = this
    have step: "cleanLocalBooks_rows l (b # rows) tx
                  = cleanLocalBooks_rows l rows (DELETE_books (\<lambda>r. book_UUID r = book_UUID b) tx)"
      using True by (auto simp: Book_Expunge_def)
    have d1: "\<And>x. (DELETE_books (\<lambda>r. book_UUID r = book_UUID b) tx)\<lparr>db_books := x\<rparr> = tx\<lparr>db_books := x\<rparr>"
      by (simp add: DELETE_books_def)
    have d2: "db_books (DELETE_books (\<lambda>r. book_UUID r = book_UUID b) tx)
                = filter (\<lambda>r. \<not> book_UUID r = book_UUID b) (db_books tx)"
      by (simp add: DELETE_books_def)
    show ?thesis
      by (simp only: step Cons.IH d1 d2 flt)
  next
    case False
    have "filter (\<lambda>r. \<not> (\<exists>s\<in>set rows. book_UUID s = book_UUID r \<and> ?bad s)) (db_books tx)
          = filter (\<lambda>r. \<not> (\<exists>s\<in>set (b # rows). book_UUID s = book_UUID r \<and> ?bad s)) (db_books tx)"
      using False by (intro filter_cong) auto
    note flt = this
    have step: "cleanLocalBooks_rows l (b # rows) tx = cleanLocalBooks_rows l rows tx"
      using False by auto
    show ?thesis
      by (simp only: step Cons.IH flt)
  qed
qed

lemma forEach_preserves:
  assumes "forEach msg f xs tx = Inr tx'" and "P tx"
    and "\<And>x t t'. x \<in> set xs \<Longrightarrow> P t \<Longrightarrow> f t x = Inr t' \<Longrightarrow> P t'"
  shows "P tx'"
  using assms
proof (induction xs arbitrary: tx)
  case Nil
  then show ?case by simp
next
  case (Cons x xs)
  from Cons.prems(1) obtain t where t: "f tx x = Inr t" and rest: "forEach msg f xs t = Inr tx'"
    by (auto simp: bindE_eq_Inr)
  from Cons.prems(2) t have "P t" by (intro Cons.prems(3)[of x tx t]) simp_all
  with rest show ?case by (intro Cons.IH[of t]) (auto intro: Cons.prems(3))
qed


lemma mergeNote_rows:
  assumes "mergeNote tx sn ln = Inr tx'"
  shows "db_books tx' = db_books tx
         \<and> (\<forall>n'\<in>set (db_notes tx'). n' \<in> set (db_notes tx) \<or> note_UUID n' = fn_UUID sn)"
proof (cases "QueryRow (\<lambda>r. book_UUID r = note_BookUUID ln) (db_books tx)")
  case (Inl err)
  with assms show ?thesis by (simp add: mergeNote_def)
next
  case (Inr row)
  with assms show ?thesis
    by (auto simp: mergeNote_def UPDATE_notes_def split: if_splits)
qed

lemma fullSyncNote_rows:
  assumes "fullSyncNote tx n = Inr tx'"
  shows "db_books tx' = db_books tx
         \<and> (\<forall>n'\<in>set (db_notes tx'). n' \<in> set (db_notes tx) \<or> note_UUID n' = fn_UUID n)"
proof (cases "QueryRow (\<lambda>r. note_UUID r = fn_UUID n) (db_notes tx)")
  case (Inl err)
  with assms show ?thesis
    by (auto simp: fullSyncNote_def insertServerNote_def Note_Insert_def NewNote_def
          split: if_splits)
next
  case (Inr row)
  show ?thesis
  proof (cases "note_USN (scanLocalNote row) < fn_USN n")
    case True
    with Inr assms have "mergeNote tx n (scanLocalNote row) = Inr tx'"
      by (simp add: fullSyncNote_def)
    then show ?thesis by (rule mergeNote_rows)
  next
    case False
    with Inr assms show ?thesis by (simp add: fullSyncNote_def)
  qed
qed

lemma fullSyncNote_presentOrNew:
  assumes k: "fn_UUID n \<in> fst ` set (sl_Notes list)" and p: "presentOrNew list tx"
    and r: "fullSyncNote tx n = Inr tx'"
  shows "presentOrNew list tx'"
proof -
  from k have "checkNoteInList (fn_UUID n) list" by (simp add: checkNoteInList_def)
  then have "\<And>n'. note_UUID n' = fn_UUID n \<Longrightarrow> noteOK list n'" by (simp add: noteOK_def)
  with fullSyncNote_rows[OF r] p show ?thesis
    by (auto simp: presentOrNew_def)
qed

lemma mergeBook_rows:
  assumes "mergeBook tx b m = Inr tx'"
  shows "db_notes tx' = db_notes tx
         \<and> (\<forall>b'\<in>set (db_books tx'). book_UUID b' = fb_UUID b
               \<or> (\<exists>b0\<in>set (db_books tx). book_UUID b' = book_UUID b0 \<and> book_USN b' = book_USN b0
                     \<and> (book_Dirty b0 \<longrightarrow> book_Dirty b')))"
proof -
  let ?keeps = "\<lambda>t. db_notes t = db_notes tx
         \<and> (\<forall>b'\<in>set (db_books t). 
               (\<exists>b0\<in>set (db_books tx). book_UUID b' = book_UUID b0 \<and> book_USN b' = book_USN b0
                     \<and> (book_Dirty b0 \<longrightarrow> book_Dirty b')))"
  obtain tx1 where tx1: "tx1 = tx \<or> tx1 = UPDATE_books (\<lambda>r. book_Label r = fb_Label b)
             (\<lambda>r. r\<lparr>book_Label := resolveLabel_loop tx (fb_Label b) 2, book_Dirty := True\<rparr>) tx"
    and rest: "(case m of
            modeInsert \<Rightarrow>
              wrapE (''inserting note with uuid '' @ fb_UUID b)
                (Book_Insert (NewBook (fb_UUID b) (fb_Label b) (fb_USN b) False False) tx1)
          | modeUpdate \<Rightarrow>
              Inr (UPDATE_books (\<lambda>r. book_UUID r = fb_UUID b)
                     (\<lambda>r. r\<lparr>book_USN := fb_USN b, book_UUID := fb_UUID b,
                            book_Label := fb_Label b, book_Deleted := fb_Deleted b\<rparr>) tx1)) = Inr tx'"
    using assms by (auto simp: mergeBook_def resolveLabel_def bindE_eq_Inr split: if_splits)
  from tx1 have k1: "?keeps tx1"
  proof
    assume "tx1 = tx"
    then show ?thesis by auto
  next
    assume u: "tx1 = UPDATE_books (\<lambda>r. book_Label r = fb_Label b)
             (\<lambda>r. r\<lparr>book_Label := resolveLabel_loop tx (fb_Label b) 2, book_Dirty := True\<rparr>) tx"
    have "\<forall>b'\<in>set (db_books tx1).
            \<exists>b0\<in>set (db_books tx). book_UUID b' = book_UUID b0 \<and> book_USN b' = book_USN b0
                     \<and> (book_Dirty b0 \<longrightarrow> book_Dirty b')"
    proof
      fix b'
      assume "b' \<in> set (db_books tx1)"
      then obtain b0 where b0: "b0 \<in> set (db_books tx)"
        and b': "b' = (if book_Label b0 = fb_Label b
                       then b0\<lparr>book_Label := resolveLabel_loop tx (fb_Label b) 2, book_Dirty := True\<rparr>
                       else b0)"
        unfolding u by (auto simp: UPDATE_books_def)
      from b' have "book_UUID b' = book_UUID b0 \<and> book_USN b' = book_USN b0
                     \<and> (book_Dirty b0 \<longrightarrow> book_Dirty b')"
        by simp
      with b0 show "\<exists>b0\<in>set (db_books tx). book_UUID b' = book_UUID b0 \<and> book_USN b' = book_USN b0
                     \<and> (book_Dirty b0 \<longrightarrow> book_Dirty b')"
        by blast
    qed
    moreover have "db_notes tx1 = db_notes tx" unfolding u by (simp add: UPDATE_books_def)
    ultimately show ?thesis by simp
  qed
  show ?thesis
  proof (cases m)
    case modeInsert
    with rest have "tx' = tx1\<lparr>db_books := db_books tx1 @ [NewBook (fb_UUID b) (fb_Label b) (fb_USN b) False False]\<rparr>"
      by (simp add: Book_Insert_def)
    with k1 show ?thesis by (auto simp: NewBook_def)
  next
    case modeUpdate
    with rest have "tx' = UPDATE_books (\<lambda>r. book_UUID r = fb_UUID b)
                     (\<lambda>r. r\<lparr>book_USN := fb_USN b, book_UUID := fb_UUID b,
                            book_Label := fb_Label b, book_Deleted := fb_Deleted b\<rparr>) tx1"
      by simp
    with k1 show ?thesis by (auto simp: UPDATE_books_def)
  qed
qed

lemma mergeBook_presentOrNew:
  assumes k: "fb_UUID b \<in> fst ` set (sl_Books list)" and p: "presentOrNew list tx"
    and r: "mergeBook tx b m = Inr tx'"
  shows "presentOrNew list tx'"
proof -
  from k have "checkBookInList (fb_UUID b) list" by (simp add: checkBookInList_def)
  then have a: "\<And>b'. book_UUID b' = fb_UUID b \<Longrightarrow> bookOK list b'" by (simp add: bookOK_def)
  have c: "\<And>b' b0. bookOK list b0 \<Longrightarrow> book_UUID b' = book_UUID b0 \<Longrightarrow> book_USN b' = book_USN b0
              \<Longrightarrow> (book_Dirty b0 \<longrightarrow> book_Dirty b') \<Longrightarrow> bookOK list b'"
    by (auto simp: bookOK_def)
  from mergeBook_rows[OF r] p show ?thesis
    unfolding presentOrNew_def by (metis a c)
qed

lemma fullSyncBook_presentOrNew:
  assumes k: "fb_UUID b \<in> fst ` set (sl_Books list)" and p: "presentOrNew list tx"
    and r: "fullSyncBook tx b = Inr tx'"
  shows "presentOrNew list tx'"
proof (cases "QueryRow (\<lambda>r. book_UUID r = fb_UUID b) (db_books tx)")
  case (Inl err)
  with r have "mergeBook tx b modeInsert = Inr tx'"
    by (simp add: fullSyncBook_def split: if_splits)
  with k p show ?thesis by (rule mergeBook_presentOrNew)
next
  case (Inr row)
  show ?thesis
  proof (cases "book_USN row < fb_USN b")
    case True
    with Inr r have "mergeBook tx b modeUpdate = Inr tx'"
      by (simp add: fullSyncBook_def)
    with k p show ?thesis by (rule mergeBook_presentOrNew)
  next
    case False
    with Inr r have "tx' = tx" by (simp add: fullSyncBook_def)
    with p show ?thesis by simp
  qed
qed

lemma syncDeleteNote_presentOrNew:
  assumes p: "presentOrNew list tx" and r: "syncDeleteNote tx u = Inr tx'"
  shows "presentOrNew list tx'"
proof -
  from r have "tx' = tx \<or> tx' = DELETE_notes (\<lambda>r. note_UUID r = u) tx"
    by (auto simp: syncDeleteNote_def split: sum.splits if_splits)
  with p show ?thesis by (auto simp: presentOrNew_def DELETE_notes_def)
qed

lemma syncDeleteBook_presentOrNew:
  assumes p: "presentOrNew list tx" and r: "syncDeleteBook tx u = Inr tx'"
  shows "presentOrNew list tx'"
proof -
  from r have "tx' = tx
      \<or> tx' = UPDATE_books (\<lambda>r. book_UUID r = u) (\<lambda>r. r\<lparr>book_Dirty := True\<rparr>) tx
      \<or> tx' = DELETE_books (\<lambda>r. book_UUID r = u) (DELETE_notes (\<lambda>r. note_BookUUID r = u) tx)"
    by (auto simp: syncDeleteBook_def checkNotesPristine_eq split: sum.splits if_splits)
  moreover have "\<And>b0. bookOK list b0 \<Longrightarrow> bookOK list (b0\<lparr>book_Dirty := True\<rparr>)"
    by (auto simp: bookOK_def)
  ultimately show ?thesis using p
    by (auto simp: presentOrNew_def UPDATE_books_def DELETE_books_def DELETE_notes_def)
qed

lemma saveSyncState_tables:
  "saveSyncState tx t u = Inr tx' \<Longrightarrow> db_books tx' = db_books tx \<and> db_notes tx' = db_notes tx"
  by (auto simp: saveSyncState_def updateLastMaxUSN_def updateLastSyncAt_def UpdateSystem_def
        bindE_eq_Inr)

lemma cleanLocal_presentOrNew:
  assumes "cleanLocalNotes tx list = Inr tx1" and "cleanLocalBooks tx1 list = Inr tx2"
  shows "presentOrNew list tx2"
  using assms
  by (auto simp: cleanLocalNotes_def cleanLocalBooks_def cleanLocalNotes_rows_eq
        cleanLocalBooks_rows_eq presentOrNew_def noteOK_def bookOK_def)

lemma fullSync_merge_presentOrNew:
  assumes keys: "keysAreUUIDs list" and run: "fullSync_merge tx list = Inr tx'"
  shows "presentOrNew list tx'"
proof -
  from run obtain tx1 tx2 tx3 tx4 tx5 tx6 where
    c1: "cleanLocalNotes tx list = Inr tx1" and
    c2: "cleanLocalBooks tx1 list = Inr tx2" and
    m1: "forEach ''merging note'' fullSyncNote (map snd (sl_Notes list)) tx2 = Inr tx3" and
    m2: "forEach ''merging book'' fullSyncBook (map snd (sl_Books list)) tx3 = Inr tx4" and
    d1: "forEach ''deleting note'' syncDeleteNote (sl_ExpungedNotes list) tx4 = Inr tx5" and
    d2: "forEach ''deleting book'' syncDeleteBook (sl_ExpungedBooks list) tx5 = Inr tx6" and
    s: "saveSyncState tx6 (sl_MaxCurrentTime list) (sl_MaxUSN list) = Inr tx'"
    by (auto simp: fullSync_merge_def bindE_eq_Inr)
  from c1 c2 have p2: "presentOrNew list tx2" by (rule cleanLocal_presentOrNew)
  have p3: "presentOrNew list tx3"
  proof (rule forEach_preserves[where P = "presentOrNew list", OF m1 p2])
    fix x t t'
    assume x: "x \<in> set (map snd (sl_Notes list))" and t: "presentOrNew list t"
      and f: "fullSyncNote t x = Inr t'"
    from x keys have "fn_UUID x \<in> fst ` set (sl_Notes list)"
      by (force simp: keysAreUUIDs_def)
    then show "presentOrNew list t'" using t f by (rule fullSyncNote_presentOrNew)
  qed
  have p4: "presentOrNew list tx4"
  proof (rule forEach_preserves[where P = "presentOrNew list", OF m2 p3])
    fix x t t'
    assume x: "x \<in> set (map snd (sl_Books list))" and t: "presentOrNew list t"
      and f: "fullSyncBook t x = Inr t'"
    from x keys have "fb_UUID x \<in> fst ` set (sl_Books list)"
      by (force simp: keysAreUUIDs_def)
    then show "presentOrNew list t'" using t f by (rule fullSyncBook_presentOrNew)
  qed
  have p5: "presentOrNew list tx5"
    by (rule forEach_preserves[where P = "presentOrNew list", OF d1 p4])
       (rule syncDeleteNote_presentOrNew)
  have p6: "presentOrNew list tx6"
    by (rule forEach_preserves[where P = "presentOrNew list", OF d2 p5])
       (rule syncDeleteBook_presentOrNew)
  from saveSyncState_tables[OF s] p6 show ?thesis
    by (simp add: presentOrNew_def)
qed


lemma update_entries: "kv \<in> set (AList.update k v al) \<Longrightarrow> kv = (k, v) \<or> kv \<in> set al"
  by (induction al) (auto split: if_splits)

lemma processNotes_keys:
  assumes "processNotes dec ns acc = Inr acc'" and "\<forall>kv\<in>set acc. fst kv = fn_UUID (snd kv)"
  shows "\<forall>kv\<in>set acc'. fst kv = fn_UUID (snd kv)"
  using assms
proof (induction ns arbitrary: acc)
  case Nil
  then show ?case by simp
next
  case (Cons n ns)
  from Cons.prems(1) obtain bodyDec where
    rest: "processNotes dec ns (AList.update (fn_UUID n) (n\<lparr>fn_Body := bodyDec\<rparr>) acc) = Inr acc'"
    by (auto split: sum.splits)
  have "\<forall>kv\<in>set (AList.update (fn_UUID n) (n\<lparr>fn_Body := bodyDec\<rparr>) acc). fst kv = fn_UUID (snd kv)"
    using Cons.prems(2) by (auto dest!: update_entries)
  with rest show ?case by (rule Cons.IH)
qed

lemma processBooks_keys:
  assumes "processBooks dec bs acc = Inr acc'" and "\<forall>kv\<in>set acc. fst kv = fb_UUID (snd kv)"
  shows "\<forall>kv\<in>set acc'. fst kv = fb_UUID (snd kv)"
  using assms
proof (induction bs arbitrary: acc)
  case Nil
  then show ?case by simp
next
  case (Cons b bs)
  from Cons.prems(1) obtain labelDec where
    rest: "processBooks dec bs (AList.update (fb_UUID b) (b\<lparr>fb_Label := labelDec\<rparr>) acc) = Inr acc'"
    by (auto split: sum.splits)
  have "\<forall>kv\<in>set (AList.update (fb_UUID b) (b\<lparr>fb_Label := labelDec\<rparr>) acc). fst kv = fb_UUID (snd kv)"
    using Cons.prems(2) by (auto dest!: update_entries)
  with rest show ?case by (rule Cons.IH)
qed

lemma processFragments_loop_keys:
  assumes "processFragments_loop dec fs sl = Inr sl'" and "keysAreUUIDs sl"
  shows "keysAreUUIDs sl'"
  using assms
proof (induction fs arbitrary: sl)
  case Nil
  then show ?case by simp
next
  case (Cons f fs)
  from Cons.prems(1) obtain ns bs where
    ns: "processNotes dec (frag_Notes f) (sl_Notes sl) = Inr ns" and
    bs: "processBooks dec (frag_Books f) (sl_Books sl) = Inr bs" and
    rest: "processFragments_loop dec fs
            \<lparr>sl_Notes = ns, sl_Books = bs,
             sl_ExpungedNotes = fold List.insert (frag_ExpungedNotes f) (sl_ExpungedNotes sl),
             sl_ExpungedBooks = fold List.insert (frag_ExpungedBooks f) (sl_ExpungedBooks sl),
             sl_MaxUSN = (if sl_MaxUSN sl < frag_FragMaxUSN f
                          then frag_FragMaxUSN f else sl_MaxUSN sl),
             sl_MaxCurrentTime = (if sl_MaxCurrentTime sl < frag_CurrentTime f
                                  then frag_CurrentTime f else sl_MaxCurrentTime sl)\<rparr> = Inr sl'"
    by (auto simp: bindE_eq_Inr)
  from processNotes_keys[OF ns] processBooks_keys[OF bs] Cons.prems(2)
  have "keysAreUUIDs \<lparr>sl_Notes = ns, sl_Books = bs,
             sl_ExpungedNotes = fold List.insert (frag_ExpungedNotes f) (sl_ExpungedNotes sl),
             sl_ExpungedBooks = fold List.insert (frag_ExpungedBooks f) (sl_ExpungedBooks sl),
             sl_MaxUSN = (if sl_MaxUSN sl < frag_FragMaxUSN f
                          then frag_FragMaxUSN f else sl_MaxUSN sl),
             sl_MaxCurrentTime = (if sl_MaxCurrentTime sl < frag_CurrentTime f
                                  then frag_CurrentTime f else sl_MaxCurrentTime sl)\<rparr>"
    by (simp add: keysAreUUIDs_def)
  with rest show ?case by (rule Cons.IH)
qed

lemma getSyncList_keys:
  assumes "getSyncList ctx afterUSN sv = Some (Inr list, sv')"
  shows "keysAreUUIDs list"
proof -
  from assms obtain fragments where
    "processFragments ctx fragments (ctx_CipherKey ctx) = Inr list"
    by (auto simp: getSyncList_def split: option.splits sum.splits)
  then show ?thesis
    unfolding processFragments_def
    by (rule processFragments_loop_keys) (simp add: keysAreUUIDs_def emptySyncList_def)
qed

lemma distinct_same_key:
  assumes "distinct (map f xs)" and "x \<in> set xs" and "y \<in> set xs" and "f x = f y"
  shows "x = y"
  using assms by (meson distinct_map inj_onD)

text \<open>
  C7. When uuids identify the rows of a table, the cleanup of a full sync keeps exactly the
  rows whose uuid is in the full sync list (live or expunged) and the rows with
  \<open>dirty\<close> and \<open>usn = 0\<close>; every other row is expunged. And whenever \<open>fullSync\<close>
  returns without error, every local note and book is present in the pulled sync list or
  is dirty with \<open>usn = 0\<close>.
\<close>

theorem fullSync_cleanup:
  "(distinct (map note_UUID (db_notes tx)) \<longrightarrow>
      cleanLocalNotes tx list =
        Inr (tx\<lparr>db_notes := filter (\<lambda>r. checkNoteInList (note_UUID r) list
                                        \<or> (note_Dirty r \<and> note_USN r = 0)) (db_notes tx)\<rparr>))
   \<and> (distinct (map book_UUID (db_books tx)) \<longrightarrow>
      cleanLocalBooks tx list =
        Inr (tx\<lparr>db_books := filter (\<lambda>r. checkBookInList (book_UUID r) list
                                        \<or> (book_Dirty r \<and> book_USN r = 0)) (db_books tx)\<rparr>))
   \<and> (\<forall>tx' sv'. fullSync ctx tx sv = Some (Inr tx', sv') \<longrightarrow>
        (\<exists>pulled. getSyncList ctx 0 sv = Some (Inr pulled, sv') \<and> presentOrNew pulled tx'))"
proof (intro conjI impI allI)
  assume d: "distinct (map note_UUID (db_notes tx))"
  have "filter (\<lambda>r. \<not> (\<exists>s\<in>set (db_notes tx). note_UUID s = note_UUID r
            \<and> \<not> checkNoteInList (note_UUID s) list \<and> (\<not> note_Dirty s \<or> note_USN s \<noteq> 0)))
          (db_notes tx)
        = filter (\<lambda>r. checkNoteInList (note_UUID r) list \<or> (note_Dirty r \<and> note_USN r = 0))
            (db_notes tx)"
  proof (rule filter_cong[OF refl])
    fix r
    assume r: "r \<in> set (db_notes tx)"
    have "\<And>s. s \<in> set (db_notes tx) \<Longrightarrow> note_UUID s = note_UUID r \<Longrightarrow> s = r"
      using distinct_same_key[OF d _ r] by blast
    with r show "(\<not> (\<exists>s\<in>set (db_notes tx). note_UUID s = note_UUID r
            \<and> \<not> checkNoteInList (note_UUID s) list \<and> (\<not> note_Dirty s \<or> note_USN s \<noteq> 0)))
          = (checkNoteInList (note_UUID r) list \<or> (note_Dirty r \<and> note_USN r = 0))"
      by blast
  qed
  then show "cleanLocalNotes tx list =
        Inr (tx\<lparr>db_notes := filter (\<lambda>r. checkNoteInList (note_UUID r) list
                                        \<or> (note_Dirty r \<and> note_USN r = 0)) (db_notes tx)\<rparr>)"
    by (simp only: cleanLocalNotes_def cleanLocalNotes_rows_eq)
next
  assume d: "distinct (map book_UUID (db_books tx))"
  have "filter (\<lambda>r. \<not> (\<exists>s\<in>set (db_books tx). book_UUID s = book_UUID r
            \<and> \<not> checkBookInList (book_UUID s) list \<and> (\<not> book_Dirty s \<or> book_USN s \<noteq> 0)))
          (db_books tx)
        = filter (\<lambda>r. checkBookInList (book_UUID r) list \<or> (book_Dirty r \<and> book_USN r = 0))
            (db_books tx)"
  proof (rule filter_cong[OF refl])
    fix r
    assume r: "r \<in> set (db_books tx)"
    have "\<And>s. s \<in> set (db_books tx) \<Longrightarrow> book_UUID s = book_UUID r \<Longrightarrow> s = r"
      using distinct_same_key[OF d _ r] by blast
    with r show "(\<not> (\<exists>s\<in>set (db_books tx). book_UUID s = book_UUID r
            \<and> \<not> checkBookInList (book_UUID s) list \<and> (\<not> book_Dirty s \<or> book_USN s \<noteq> 0)))
          = (checkBookInList (book_UUID r) list \<or> (book_Dirty r \<and> book_USN r = 0))"
      by blast
  qed
  then show "cleanLocalBooks tx list =
        Inr (tx\<lparr>db_books := filter (\<lambda>r. checkBookInList (book_UUID r) list
                                        \<or> (book_Dirty r \<and> book_USN r = 0)) (db_books tx)\<rparr>)"
    by (simp only: cleanLocalBooks_def cleanLocalBooks_rows_eq)
next
  fix tx' sv'
  assume run: "fullSync ctx tx sv = Some (Inr tx', sv')"
  then obtain pulled where g: "getSyncList ctx 0 sv = Some (Inr pulled, sv')"
    and m: "fullSync_merge tx pulled = Inr tx'"
    by (auto simp: fullSync_def split: option.splits sum.splits)
  from getSyncList_keys[OF g] m have "presentOrNew pulled tx'"
    by (rule fullSync_merge_presentOrNew)
  with g show "\<exists>pulled. getSyncList ctx 0 sv = Some (Inr pulled, sv') \<and> presentOrNew pulled tx'"
    by blast
qed

theorem fullSync_cleanup_witness:
  "distinct (map note_UUID
       [NewNote ''n1'' ''b1'' ''one'' 10 11 3 False False False,
        NewNote ''n2'' ''b2'' ''two'' 10 11 5 False False False,
        NewNote ''n3'' ''b3'' ''three'' 10 0 0 False False True])
   \<and> cleanLocalNotes
        \<lparr>db_books = [], 
         db_notes = [NewNote ''n1'' ''b1'' ''one'' 10 11 3 False False False,
                     NewNote ''n2'' ''b2'' ''two'' 10 11 5 False False False,
                     NewNote ''n3'' ''b3'' ''three'' 10 0 0 False False True],
         db_system = []\<rparr>
        (emptySyncList\<lparr>sl_ExpungedNotes := [''n1'']\<rparr>)
      = Inr \<lparr>db_books = [],
             db_notes = [NewNote ''n1'' ''b1'' ''one'' 10 11 3 False False False,
                         NewNote ''n3'' ''b3'' ''three'' 10 0 0 False False True],
             db_system = []\<rparr>
   \<and> cleanLocalBooks
        \<lparr>db_books = [NewBook ''b1'' ''js'' 3 False False, NewBook ''b2'' ''go'' 4 False True,
                     NewBook ''b3'' ''new'' 0 False True],
         db_notes = [], db_system = []\<rparr>
        (emptySyncList\<lparr>sl_ExpungedBooks := [''b1'']\<rparr>)
      = Inr \<lparr>db_books = [NewBook ''b1'' ''js'' 3 False False, NewBook ''b3'' ''new'' 0 False True],
             db_notes = [], db_system = []\<rparr>
   \<and> (\<exists>tx' pulled.
        fullSync
          (scriptedCtx \<lparr>ss_MaxUSN = 9, ss_FullSyncBefore = 0, ss_CurrentTime = 100\<rparr>
             [\<lparr>frag_Notes = [\<lparr>fn_UUID = ''n1'', fn_BookUUID = ''b1'', fn_USN = 8, fn_AddedOn = 10,
                              fn_EditedOn = 12, fn_Body = ''uno'', fn_Public = False,
                              fn_Deleted = False\<rparr>],
               frag_Books = [\<lparr>fb_UUID = ''b1'', fb_USN = 9, fb_Label = ''js'', fb_Deleted = False\<rparr>],
               frag_ExpungedNotes = [], frag_ExpungedBooks = [], frag_FragMaxUSN = 9,
               frag_CurrentTime = 100\<rparr>]
             (Inl (Err ''offline'')))
          \<lparr>db_books = [NewBook ''b1'' ''js'' 3 False False, NewBook ''b2'' ''go'' 4 False True,
                       NewBook ''b3'' ''new'' 0 False True],
           db_notes = [NewNote ''n1'' ''b1'' ''one'' 10 11 3 False False False,
                       NewNote ''n2'' ''b2'' ''two'' 10 11 5 False False False,
                       NewNote ''n3'' ''b3'' ''three'' 10 0 0 False False True],
           db_system = [(''last_sync_at'', 50), (''last_max_usn'', 5)]\<rparr> 0
          = Some (Inr tx', 2)
      \<and> map note_UUID (db_notes tx') = [''n1'', ''n3'']
      \<and> map book_UUID (db_books tx') = [''b1'', ''b3'']
      \<and> presentOrNew pulled tx')"
proof -
  let ?ns = "[NewNote ''n1'' ''b1'' ''one'' 10 11 3 False False False,
              NewNote ''n2'' ''b2'' ''two'' 10 11 5 False False False,
              NewNote ''n3'' ''b3'' ''three'' 10 0 0 False False True]"
  let ?bs = "[NewBook ''b1'' ''js'' 3 False False, NewBook ''b2'' ''go'' 4 False True,
              NewBook ''b3'' ''new'' 0 False True]"
  let ?txn = "\<lparr>db_books = [], db_notes = ?ns, db_system = []\<rparr>"
  let ?txb = "\<lparr>db_books = ?bs, db_notes = [], db_system = []\<rparr>"
  let ?tx = "\<lparr>db_books = ?bs, db_notes = ?ns,
              db_system = [(''last_sync_at'', 50), (''last_max_usn'', 5)]\<rparr>"
  let ?ctx = "scriptedCtx \<lparr>ss_MaxUSN = 9, ss_FullSyncBefore = 0, ss_CurrentTime = 100\<rparr>
             [\<lparr>frag_Notes = [\<lparr>fn_UUID = ''n1'', fn_BookUUID = ''b1'', fn_USN = 8, fn_AddedOn = 10,
                              fn_EditedOn = 12, fn_Body = ''uno'', fn_Public = False,
                              fn_Deleted = False\<rparr>],
               frag_Books = [\<lparr>fb_UUID = ''b1'', fb_USN = 9, fb_Label = ''js'', fb_Deleted = False\<rparr>],
               frag_ExpungedNotes = [], frag_ExpungedBooks = [], frag_FragMaxUSN = 9,
               frag_CurrentTime = 100\<rparr>]
             (Inl (Err ''offline''))"
  have dn: "distinct (map note_UUID ?ns)" by (simp add: NewNote_def)
  have db: "distinct (map book_UUID ?bs)" by (simp add: NewBook_def)
  have n: "cleanLocalNotes ?txn (emptySyncList\<lparr>sl_ExpungedNotes := [''n1'']\<rparr>)
            = Inr \<lparr>db_books = [],
             db_notes = [NewNote ''n1'' ''b1'' ''one'' 10 11 3 False False False,
                         NewNote ''n3'' ''b3'' ''three'' 10 0 0 False False True],
             db_system = []\<rparr>"
    using fullSync_cleanup[of ?txn "emptySyncList\<lparr>sl_ExpungedNotes := [''n1'']\<rparr>" ?ctx 0] dn
    by (simp add: NewNote_def checkNoteInList_def emptySyncList_def)
  have b: "cleanLocalBooks ?txb (emptySyncList\<lparr>sl_ExpungedBooks := [''b1'']\<rparr>)
            = Inr \<lparr>db_books = [NewBook ''b1'' ''js'' 3 False False, NewBook ''b3'' ''new'' 0 False True],
             db_notes = [], db_system = []\<rparr>"
    using fullSync_cleanup[of ?txb "emptySyncList\<lparr>sl_ExpungedBooks := [''b1'']\<rparr>" ?ctx 0] db
    by (simp add: NewBook_def checkBookInList_def emptySyncList_def)
  have f: "fullSync ?ctx ?tx 0 =
      Some (Inr \<lparr>db_books = [NewBook ''b1'' ''js'' 9 False True, NewBook ''b3'' ''new'' 0 False True],
                 db_notes = [NewNote ''n1'' ''b1'' ''uno'' 10 12 8 False False False,
                             NewNote ''n3'' ''b3'' ''three'' 10 0 0 False False True],
                 db_system = [(''last_sync_at'', 100), (''last_max_usn'', 9)]\<rparr>, 2)"
    by code_simp
  from fullSync_cleanup[of ?tx emptySyncList ?ctx 0] f
  obtain pulled where "presentOrNew pulled
       \<lparr>db_books = [NewBook ''b1'' ''js'' 9 False True, NewBook ''b3'' ''new'' 0 False True],
                 db_notes = [NewNote ''n1'' ''b1'' ''uno'' 10 12 8 False False False,
                             NewNote ''n3'' ''b3'' ''three'' 10 0 0 False False True],
                 db_system = [(''last_sync_at'', 100), (''last_max_usn'', 9)]\<rparr>"
    by blast
  with f have "\<exists>tx' pulled. fullSync ?ctx ?tx 0 = Some (Inr tx', 2)
      \<and> map note_UUID (db_notes tx') = [''n1'', ''n3'']
      \<and> map book_UUID (db_books tx') = [''b1'', ''b3'']
      \<and> presentOrNew pulled tx'"
    by (auto simp: NewNote_def NewBook_def)
  with dn n b show ?thesis by blast
qed

section \<open>The sync-list assembly loop\<close>

lemma getSyncFragments_loop_result:
  assumes "getSyncFragments_loop ctx a buf sv = Some y"
  shows "\<forall>frs sv'. y = (Inr frs, sv') \<longrightarrow>
           (\<exists>new. frs = buf @ new \<and> new \<noteq> [] \<and> frag_FragMaxUSN (last new) = 0
                  \<and> (\<forall>f\<in>set (butlast new). frag_FragMaxUSN f \<noteq> 0))"
proof (rule getSyncFragments_loop.raw_induct[where P = "\<lambda>ctx a buf sv y.
         \<forall>frs sv'. y = (Inr frs, sv') \<longrightarrow>
           (\<exists>new. frs = buf @ new \<and> new \<noteq> [] \<and> frag_FragMaxUSN (last new) = 0
                  \<and> (\<forall>f\<in>set (butlast new). frag_FragMaxUSN f \<noteq> 0))", OF _ assms])
  fix loop :: "'a DnoteCtx \<Rightarrow> int \<Rightarrow> SyncFragment list \<Rightarrow> 'a
                 \<Rightarrow> ((error + SyncFragment list) \<times> 'a) option"
  fix ctx a buf sv y
  assume IH: "\<And>ctx a buf sv y. loop ctx a buf sv = Some y \<Longrightarrow>
         \<forall>frs sv'. y = (Inr frs, sv') \<longrightarrow>
           (\<exists>new. frs = buf @ new \<and> new \<noteq> [] \<and> frag_FragMaxUSN (last new) = 0
                  \<and> (\<forall>f\<in>set (butlast new). frag_FragMaxUSN f \<noteq> 0))"
    and hyp: "(case client_GetSyncFragment ctx a sv of
        (Inl err, sv') \<Rightarrow> Some (Inl (Wrap ''getting sync fragment'' err), sv')
      | (Inr frag, sv') \<Rightarrow>
          if frag_FragMaxUSN frag = 0 then Some (Inr (buf @ [frag]), sv')
          else loop ctx (frag_FragMaxUSN frag) (buf @ [frag]) sv') = Some y"
  obtain r sv1 where call: "client_GetSyncFragment ctx a sv = (r, sv1)"
    by (cases "client_GetSyncFragment ctx a sv")
  show "\<forall>frs sv'. y = (Inr frs, sv') \<longrightarrow>
           (\<exists>new. frs = buf @ new \<and> new \<noteq> [] \<and> frag_FragMaxUSN (last new) = 0
                  \<and> (\<forall>f\<in>set (butlast new). frag_FragMaxUSN f \<noteq> 0))"
  proof (cases r)
    case (Inl err)
    with call hyp show ?thesis by auto
  next
    case (Inr frag)
    show ?thesis
    proof (cases "frag_FragMaxUSN frag = 0")
      case True
      with call Inr hyp have "y = (Inr (buf @ [frag]), sv1)" by simp
      with True show ?thesis by auto
    next
      case False
      with call Inr hyp have rec: "loop ctx (frag_FragMaxUSN frag) (buf @ [frag]) sv1 = Some y"
        by simp
      show ?thesis
      proof (intro allI impI)
        fix frs sv'
        assume y: "y = (Inr frs, sv')"
        with IH[OF rec] obtain new where n: "frs = (buf @ [frag]) @ new" "new \<noteq> []"
          "frag_FragMaxUSN (last new) = 0" "\<forall>f\<in>set (butlast new). frag_FragMaxUSN f \<noteq> 0"
          by blast
        with False have "frs = buf @ (frag # new) \<and> frag # new \<noteq> []
            \<and> frag_FragMaxUSN (last (frag # new)) = 0
            \<and> (\<forall>f\<in>set (butlast (frag # new)). frag_FragMaxUSN f \<noteq> 0)"
          by simp
        then show "\<exists>new. frs = buf @ new \<and> new \<noteq> [] \<and> frag_FragMaxUSN (last new) = 0
                  \<and> (\<forall>f\<in>set (butlast new). frag_FragMaxUSN f \<noteq> 0)"
          by blast
      qed
    qed
  qed
qed

text \<open>
  C8. \<open>getSyncFragments\<close> calls \<open>GetSyncFragment\<close> again and again: a fragment with a
  non-zero \<open>FragMaxUSN\<close> is buffered and the loop goes on with that \<open>FragMaxUSN\<close> as the
  next \<open>afterUSN\<close>, from the server state the call left; a fragment with
  \<open>FragMaxUSN = 0\<close> is buffered and ends the loop (a failed call ends it with the error).
  So a list of fragments that the loop returns ends with the one fragment that reports
  zero. If the very first response reports zero, the loop returns after that one call, the
  sync list is made of that fragment alone and has \<open>MaxUSN = 0\<close>; the fragment being the
  server's mark for "no more pages", with no notes, books or expunged uuids in it, the
  sync list is empty: no entry in any of its four parts, and only the server's time kept.
\<close>

theorem getSyncFragments_protocol:
  "(\<forall>err sv'. client_GetSyncFragment ctx afterUSN sv = (Inl err, sv') \<longrightarrow>
      getSyncFragments_loop ctx afterUSN buf sv = Some (Inl (Wrap ''getting sync fragment'' err), sv'))
   \<and> (\<forall>frag sv'. client_GetSyncFragment ctx afterUSN sv = (Inr frag, sv') \<longrightarrow>
        (frag_FragMaxUSN frag \<noteq> 0 \<longrightarrow>
           getSyncFragments_loop ctx afterUSN buf sv
             = getSyncFragments_loop ctx (frag_FragMaxUSN frag) (buf @ [frag]) sv')
      \<and> (frag_FragMaxUSN frag = 0 \<longrightarrow>
           getSyncFragments_loop ctx afterUSN buf sv = Some (Inr (buf @ [frag]), sv')
         \<and> getSyncFragments ctx afterUSN sv = Some (Inr [frag], sv')
         \<and> getSyncList ctx afterUSN sv
             = Some (wrapE ''making sync list''
                       (processFragments ctx [frag] (ctx_CipherKey ctx)), sv')
         \<and> (\<forall>list sv''. getSyncList ctx afterUSN sv = Some (Inr list, sv'') \<longrightarrow> sl_MaxUSN list = 0)
         \<and> (frag_Notes frag = [] \<and> frag_Books frag = [] \<and> frag_ExpungedNotes frag = []
              \<and> frag_ExpungedBooks frag = [] \<longrightarrow>
              getSyncList ctx afterUSN sv
                = Some (Inr \<lparr>sl_Notes = [], sl_Books = [], sl_ExpungedNotes = [],
                             sl_ExpungedBooks = [], sl_MaxUSN = 0,
                             sl_MaxCurrentTime = (if 0 < frag_CurrentTime frag
                                                  then frag_CurrentTime frag else 0)\<rparr>, sv')
            \<and> (\<forall>list sv''. getSyncList ctx afterUSN sv = Some (Inr list, sv'') \<longrightarrow>
                   getLength list = 0 \<and> sl_MaxUSN list = 0))))
   \<and> (\<forall>frs sv'. getSyncFragments ctx afterUSN sv = Some (Inr frs, sv') \<longrightarrow>
        frs \<noteq> [] \<and> frag_FragMaxUSN (last frs) = 0
        \<and> (\<forall>f\<in>set (butlast frs). frag_FragMaxUSN f \<noteq> 0))"
proof (intro conjI allI impI)
  fix err sv'
  assume "client_GetSyncFragment ctx afterUSN sv = (Inl err, sv')"
  then show "getSyncFragments_loop ctx afterUSN buf sv
               = Some (Inl (Wrap ''getting sync fragment'' err), sv')"
    by (subst getSyncFragments_loop.simps) simp
next
  fix frag sv'
  assume "client_GetSyncFragment ctx afterUSN sv = (Inr frag, sv')" and "frag_FragMaxUSN frag \<noteq> 0"
  then show "getSyncFragments_loop ctx afterUSN buf sv
             = getSyncFragments_loop ctx (frag_FragMaxUSN frag) (buf @ [frag]) sv'"
    by (subst getSyncFragments_loop.simps) simp
next
  fix frag sv'
  assume "client_GetSyncFragment ctx afterUSN sv = (Inr frag, sv')" and "frag_FragMaxUSN frag = 0"
  then show "getSyncFragments_loop ctx afterUSN buf sv = Some (Inr (buf @ [frag]), sv')"
    by (subst getSyncFragments_loop.simps) simp
next
  fix frag sv'
  assume "client_GetSyncFragment ctx afterUSN sv = (Inr frag, sv')" and "frag_FragMaxUSN frag = 0"
  then show "getSyncFragments ctx afterUSN sv = Some (Inr [frag], sv')"
    unfolding getSyncFragments_def by (subst getSyncFragments_loop.simps) simp
next
  fix frag sv'
  assume c: "client_GetSyncFragment ctx afterUSN sv = (Inr frag, sv')" and z: "frag_FragMaxUSN frag = 0"
  from c z have "getSyncFragments ctx afterUSN sv = Some (Inr [frag], sv')"
    unfolding getSyncFragments_def by (subst getSyncFragments_loop.simps) simp
  then show "getSyncList ctx afterUSN sv
             = Some (wrapE ''making sync list''
                       (processFragments ctx [frag] (ctx_CipherKey ctx)), sv')"
    by (simp add: getSyncList_def)
next
  fix frag sv' list sv''
  assume c: "client_GetSyncFragment ctx afterUSN sv = (Inr frag, sv')" and z: "frag_FragMaxUSN frag = 0"
    and g: "getSyncList ctx afterUSN sv = Some (Inr list, sv'')"
  from c z have "getSyncFragments ctx afterUSN sv = Some (Inr [frag], sv')"
    unfolding getSyncFragments_def by (subst getSyncFragments_loop.simps) simp
  with g z show "sl_MaxUSN list = 0"
    by (auto simp: getSyncList_def processFragments_def emptySyncList_def bindE_eq_Inr)
next
  fix frag sv'
  assume c: "client_GetSyncFragment ctx afterUSN sv = (Inr frag, sv')" and z: "frag_FragMaxUSN frag = 0"
    and e: "frag_Notes frag = [] \<and> frag_Books frag = [] \<and> frag_ExpungedNotes frag = []
              \<and> frag_ExpungedBooks frag = []"
  from c z have "getSyncFragments ctx afterUSN sv = Some (Inr [frag], sv')"
    unfolding getSyncFragments_def by (subst getSyncFragments_loop.simps) simp
  with z e show "getSyncList ctx afterUSN sv
                = Some (Inr \<lparr>sl_Notes = [], sl_Books = [], sl_ExpungedNotes = [],
                             sl_ExpungedBooks = [], sl_MaxUSN = 0,
                             sl_MaxCurrentTime = (if 0 < frag_CurrentTime frag
                                                  then frag_CurrentTime frag else 0)\<rparr>, sv')"
    by (simp add: getSyncList_def processFragments_def emptySyncList_def)
next
  fix frag sv' list sv''
  assume c: "client_GetSyncFragment ctx afterUSN sv = (Inr frag, sv')" and z: "frag_FragMaxUSN frag = 0"
    and e: "frag_Notes frag = [] \<and> frag_Books frag = [] \<and> frag_ExpungedNotes frag = []
              \<and> frag_ExpungedBooks frag = []"
    and g: "getSyncList ctx afterUSN sv = Some (Inr list, sv'')"
  from c z have "getSyncFragments ctx afterUSN sv = Some (Inr [frag], sv')"
    unfolding getSyncFragments_def by (subst getSyncFragments_loop.simps) simp
  with z e g have l: "list = \<lparr>sl_Notes = [], sl_Books = [], sl_ExpungedNotes = [],
                             sl_ExpungedBooks = [], sl_MaxUSN = 0,
                             sl_MaxCurrentTime = (if 0 < frag_CurrentTime frag
                                                  then frag_CurrentTime frag else 0)\<rparr>"
    by (auto simp: getSyncList_def processFragments_def emptySyncList_def)
  from l show "getLength list = 0" by (simp add: getLength_def)
  from l show "sl_MaxUSN list = 0" by simp
next
  fix frs sv'
  assume "getSyncFragments ctx afterUSN sv = Some (Inr frs, sv')"
  then have "getSyncFragments_loop ctx afterUSN [] sv = Some (Inr frs, sv')"
    by (simp add: getSyncFragments_def)
  from getSyncFragments_loop_result[OF this]
  have r: "\<exists>new. frs = [] @ new \<and> new \<noteq> [] \<and> frag_FragMaxUSN (last new) = 0
                  \<and> (\<forall>f\<in>set (butlast new). frag_FragMaxUSN f \<noteq> 0)"
    by blast
  from r show "frs \<noteq> []" by auto
  from r show "frag_FragMaxUSN (last frs) = 0" by auto
  from r show "\<forall>f\<in>set (butlast frs). frag_FragMaxUSN f \<noteq> 0" by auto
qed

theorem getSyncFragments_protocol_witness:
  "getSyncFragments
     (scriptedCtx \<lparr>ss_MaxUSN = 9, ss_FullSyncBefore = 0, ss_CurrentTime = 100\<rparr>
        [\<lparr>frag_Notes = [], frag_Books = [], frag_ExpungedNotes = [''n7''],
          frag_ExpungedBooks = [], frag_FragMaxUSN = 9, frag_CurrentTime = 100\<rparr>]
        (Inl (Err ''offline''))) 5 0
   = Some (Inr [\<lparr>frag_Notes = [], frag_Books = [], frag_ExpungedNotes = [''n7''],
                  frag_ExpungedBooks = [], frag_FragMaxUSN = 9, frag_CurrentTime = 100\<rparr>,
                endFragment], 2)
   \<and> getSyncList
       (scriptedCtx \<lparr>ss_MaxUSN = 0, ss_FullSyncBefore = 0, ss_CurrentTime = 100\<rparr>
          [\<lparr>frag_Notes = [], frag_Books = [], frag_ExpungedNotes = [],
            frag_ExpungedBooks = [], frag_FragMaxUSN = 0, frag_CurrentTime = 100\<rparr>]
          (Inl (Err ''offline''))) 0 0
     = Some (Inr \<lparr>sl_Notes = [], sl_Books = [], sl_ExpungedNotes = [], sl_ExpungedBooks = [],
                  sl_MaxUSN = 0, sl_MaxCurrentTime = 100\<rparr>, 1)"
proof -
  let ?fr = "\<lparr>frag_Notes = [], frag_Books = [], frag_ExpungedNotes = [''n7''],
          frag_ExpungedBooks = [], frag_FragMaxUSN = 9, frag_CurrentTime = 100\<rparr>"
  let ?zero = "\<lparr>frag_Notes = [], frag_Books = [], frag_ExpungedNotes = [],
            frag_ExpungedBooks = [], frag_FragMaxUSN = 0, frag_CurrentTime = 100\<rparr>"
  let ?ctx = "scriptedCtx \<lparr>ss_MaxUSN = 9, ss_FullSyncBefore = 0, ss_CurrentTime = 100\<rparr> [?fr]
                (Inl (Err ''offline''))"
  let ?quiet = "scriptedCtx \<lparr>ss_MaxUSN = 0, ss_FullSyncBefore = 0, ss_CurrentTime = 100\<rparr> [?zero]
                (Inl (Err ''offline''))"
  have c1: "client_GetSyncFragment ?ctx 5 0 = (Inr ?fr, 1)"
    by (simp add: scriptedCtx_def)
  have c2: "client_GetSyncFragment ?ctx 9 1 = (Inr endFragment, 2)"
    by (simp add: scriptedCtx_def)
  have s1: "getSyncFragments_loop ?ctx 5 [] 0 = getSyncFragments_loop ?ctx 9 [?fr] 1"
    using getSyncFragments_protocol[of ?ctx 5 0 "[]"] c1 by simp
  have z: "frag_FragMaxUSN endFragment = 0"
    by (simp add: endFragment_def)
  from getSyncFragments_protocol[of ?ctx 9 1 "[?fr]"] c2 z
  have "getSyncFragments_loop ?ctx 9 [?fr] 1 = Some (Inr ([?fr] @ [endFragment]), 2)"
    by blast
  then have s2: "getSyncFragments_loop ?ctx 9 [?fr] 1 = Some (Inr [?fr, endFragment], 2)"
    by simp
  from s1 s2 have a: "getSyncFragments ?ctx 5 0 = Some (Inr [?fr, endFragment], 2)"
    by (simp add: getSyncFragments_def)
  have c0: "client_GetSyncFragment ?quiet 0 0 = (Inr ?zero, 1)"
    by (simp add: scriptedCtx_def)
  from getSyncFragments_protocol[of ?quiet 0 0 "[]"] c0
  have "getSyncList ?quiet 0 0
     = Some (Inr \<lparr>sl_Notes = [], sl_Books = [], sl_ExpungedNotes = [], sl_ExpungedBooks = [],
                  sl_MaxUSN = 0, sl_MaxCurrentTime = 100\<rparr>, 1)"
    by (simp add: processFragments_def emptySyncList_def scriptedCtx_def)
  with a show ?thesis by simp
qed

section \<open>The push engine and \<open>last_max_usn\<close>\<close>

lemma db_system_UPDATE_books [simp]: "db_system (UPDATE_books P f tx) = db_system tx"
  by (simp add: UPDATE_books_def)

lemma db_system_UPDATE_notes [simp]: "db_system (UPDATE_notes P f tx) = db_system tx"
  by (simp add: UPDATE_notes_def)

lemma db_system_DELETE_books [simp]: "db_system (DELETE_books P tx) = db_system tx"
  by (simp add: DELETE_books_def)

lemma db_system_DELETE_notes [simp]: "db_system (DELETE_notes P tx) = db_system tx"
  by (simp add: DELETE_notes_def)

lemma find_updated_key:
  assumes "find (\<lambda>kv. fst kv = k) xs = Some kv"
  shows "find (\<lambda>kv. fst kv = k) (map (\<lambda>kv. if fst kv = k then (fst kv, v) else kv) xs) = Some (k, v)"
  using assms
proof (induction xs)
  case Nil
  then show ?case by simp
next
  case (Cons a xs)
  show ?case
  proof (cases "fst a = k")
    case True
    then show ?thesis by simp
  next
    case False
    with Cons show ?thesis by simp
  qed
qed

lemma find_other_key:
  assumes "k' \<noteq> k"
  shows "find (\<lambda>kv. fst kv = k') (map (\<lambda>kv. if fst kv = k then (fst kv, v) else kv) xs)
     = find (\<lambda>kv. fst kv = k') xs"
proof (induction xs)
  case Nil
  show ?case by simp
next
  case (Cons a xs)
  show ?case
  proof (cases "fst a = k")
    case True
    with assms Cons show ?thesis by simp
  next
    case False
    with Cons show ?thesis by simp
  qed
qed


lemma GetSystem_UpdateSystem:
  assumes "GetSystem tx k = Inr l" and "UpdateSystem tx k v = Inr tx'"
  shows "GetSystem tx' k = Inr v"
proof -
  from assms(1) obtain kv where f: "find (\<lambda>kv. fst kv = k) (db_system tx) = Some kv"
    by (cases "find (\<lambda>kv. fst kv = k) (db_system tx)") (simp_all add: GetSystem_def QueryRow_def)
  from assms(2) have s: "db_system tx' = map (\<lambda>kv. if fst kv = k then (fst kv, v) else kv) (db_system tx)"
    by (auto simp: UpdateSystem_def)
  show ?thesis
    by (simp add: GetSystem_def QueryRow_def s find_updated_key[OF f])
qed

lemma UpdateSystem_tables:
  "UpdateSystem tx k v = Inr tx' \<Longrightarrow> db_books tx' = db_books tx \<and> db_notes tx' = db_notes tx"
  by (auto simp: UpdateSystem_def)

lemma getLastMaxUSN_system: "db_system a = db_system b \<Longrightarrow> getLastMaxUSN a = getLastMaxUSN b"
  by (simp add: getLastMaxUSN_def GetSystem_def)

lemma getLastMaxUSN_updateLastMaxUSN:
  assumes "getLastMaxUSN tx = Inr l" and "updateLastMaxUSN tx v = Inr tx'"
  shows "getLastMaxUSN tx' = Inr v"
proof -
  from assms(1) have g: "GetSystem tx SystemLastMaxUSN = Inr l"
    by (simp add: getLastMaxUSN_def)
  from assms(2) have u: "UpdateSystem tx SystemLastMaxUSN v = Inr tx'"
    by (simp add: updateLastMaxUSN_def)
  from GetSystem_UpdateSystem[OF g u] show ?thesis
    by (simp add: getLastMaxUSN_def)
qed

lemma updateLastMaxUSN_total: "\<exists>tx'. updateLastMaxUSN tx v = Inr tx'"
  by (simp add: updateLastMaxUSN_def UpdateSystem_def)


lemma trackUSN_step:
  assumes sys: "db_system tx1 = db_system tx" and l: "getLastMaxUSN tx = Inr l"
  shows "\<exists>tx'. trackUSN tx1 r b = Inr (b \<or> r \<noteq> l + 1, tx')
           \<and> getLastMaxUSN tx' = Inr (if r = l + 1 then l + 1 else l)
           \<and> db_books tx' = db_books tx1 \<and> db_notes tx' = db_notes tx1"
proof -
  from sys l have l1: "getLastMaxUSN tx1 = Inr l"
    using getLastMaxUSN_system[of tx1 tx] by simp
  show ?thesis
  proof (cases "r = l + 1")
    case True
    obtain tx' where u: "updateLastMaxUSN tx1 (l + 1) = Inr tx'"
      using updateLastMaxUSN_total by blast
    from getLastMaxUSN_updateLastMaxUSN[OF l1 u] have g: "getLastMaxUSN tx' = Inr (l + 1)" .
    from u have "UpdateSystem tx1 SystemLastMaxUSN (l + 1) = Inr tx'"
      by (simp add: updateLastMaxUSN_def)
    then have t: "db_books tx' = db_books tx1 \<and> db_notes tx' = db_notes tx1"
      by (rule UpdateSystem_tables)
    have "trackUSN tx1 r b = Inr (b, tx')"
      using True l1 u by (simp add: trackUSN_def)
    with True g t show ?thesis by simp
  next
    case False
    with l1 have "trackUSN tx1 r b = Inr (True, tx1)" by (simp add: trackUSN_def)
    with False l1 show ?thesis by simp
  qed
qed


lemma sendBook_new_deleted:
  assumes "book_USN book = 0" and "book_Deleted book"
  shows "sendBook ctx book (b, tx) sv
           = (Inr (b, DELETE_books (\<lambda>r. book_UUID r = book_UUID book) tx), sv)"
  using assms by (simp add: sendBook_def Book_Expunge_def)

lemma sendBook_create:
  assumes "book_USN book = 0" and "\<not> book_Deleted book"
    and "client_CreateBook ctx (book_Label book) sv = (resp, sv1)"
  shows "sendBook ctx book (b, tx) sv =
           (case resp of
              Inl err \<Rightarrow> Inl (Wrap ''creating a book'' err)
            | Inr (respUUID, respUSN) \<Rightarrow>
                trackUSN
                  (UPDATE_books (\<lambda>r. book_UUID r = book_UUID book) (\<lambda>r. r\<lparr>book_UUID := respUUID\<rparr>)
                     (UPDATE_books (\<lambda>r. book_UUID r = book_UUID book)
                        (\<lambda>r. r\<lparr>book_Label := book_Label book, book_USN := respUSN,
                               book_Dirty := False, book_Deleted := book_Deleted book\<rparr>)
                        (UPDATE_notes (\<lambda>r. note_BookUUID r = book_UUID book)
                           (\<lambda>r. r\<lparr>note_BookUUID := respUUID\<rparr>) tx)))
                  respUSN b, sv1)"
  using assms
  by (cases resp) (auto simp: sendBook_def Let_def Book_Update_def Book_UpdateUUID_def)

lemma sendBook_delete:
  assumes "book_USN book \<noteq> 0" and "book_Deleted book"
    and "client_DeleteBook ctx (book_UUID book) sv = (resp, sv1)"
  shows "sendBook ctx book (b, tx) sv =
           (case resp of
              Inl err \<Rightarrow> Inl (Wrap ''deleting a book'' err)
            | Inr respUSN \<Rightarrow>
                trackUSN (DELETE_books (\<lambda>r. book_UUID r = book_UUID book) tx) respUSN b, sv1)"
  using assms
  by (cases resp) (auto simp: sendBook_def Let_def Book_Expunge_def)

lemma sendBook_update:
  assumes "book_USN book \<noteq> 0" and "\<not> book_Deleted book"
    and "client_UpdateBook ctx (book_Label book) (book_UUID book) sv = (resp, sv1)"
  shows "sendBook ctx book (b, tx) sv =
           (case resp of
              Inl err \<Rightarrow> Inl (Wrap ''updating a book'' err)
            | Inr respUSN \<Rightarrow>
                trackUSN
                  (UPDATE_books (\<lambda>r. book_UUID r = book_UUID book)
                     (\<lambda>r. r\<lparr>book_Label := book_Label book, book_USN := respUSN,
                            book_Dirty := False, book_Deleted := book_Deleted book\<rparr>) tx)
                  respUSN b, sv1)"
  using assms
  by (cases resp) (auto simp: sendBook_def Let_def Book_Update_def)

lemma sendBook_shape:
  assumes run: "sendBook ctx book (b, tx) sv = (Inr (b', tx'), sv')"
  shows "(db_system tx' = db_system tx \<and> b' = b)
      \<or> (\<exists>tx1 r. db_system tx1 = db_system tx \<and> trackUSN tx1 r b = Inr (b', tx'))"
proof (cases "book_USN book = 0")
  case new: True
  show ?thesis
  proof (cases "book_Deleted book")
    case True
    from run sendBook_new_deleted[OF new True, of ctx b tx sv] show ?thesis by auto
  next
    case False
    obtain resp sv1 where c: "client_CreateBook ctx (book_Label book) sv = (resp, sv1)"
      by (cases "client_CreateBook ctx (book_Label book) sv")
    note eq = sendBook_create[OF new False c, of b tx]
    show ?thesis
    proof (cases resp)
      case (Inl err)
      with run eq show ?thesis by simp
    next
      case (Inr p)
      obtain u r where p: "p = (u, r)" by (cases p)
      from run eq Inr p obtain tx1 where t: "trackUSN tx1 r b = Inr (b', tx')"
        and s: "db_system tx1 = db_system tx"
        by auto
      then show ?thesis by blast
    qed
  qed
next
  case old: False
  show ?thesis
  proof (cases "book_Deleted book")
    case True
    obtain resp sv1 where c: "client_DeleteBook ctx (book_UUID book) sv = (resp, sv1)"
      by (cases "client_DeleteBook ctx (book_UUID book) sv")
    note eq = sendBook_delete[OF old True c, of b tx]
    show ?thesis
    proof (cases resp)
      case (Inl err)
      with run eq show ?thesis by simp
    next
      case (Inr r)
      from run eq Inr obtain tx1 where t: "trackUSN tx1 r b = Inr (b', tx')"
        and s: "db_system tx1 = db_system tx"
        by auto
      then show ?thesis by blast
    qed
  next
    case False
    obtain resp sv1 where c: "client_UpdateBook ctx (book_Label book) (book_UUID book) sv = (resp, sv1)"
      by (cases "client_UpdateBook ctx (book_Label book) (book_UUID book) sv")
    note eq = sendBook_update[OF old False c, of b tx]
    show ?thesis
    proof (cases resp)
      case (Inl err)
      with run eq show ?thesis by simp
    next
      case (Inr r)
      from run eq Inr obtain tx1 where t: "trackUSN tx1 r b = Inr (b', tx')"
        and s: "db_system tx1 = db_system tx"
        by auto
      then show ?thesis by blast
    qed
  qed
qed

lemma shape_usn:
  assumes shape: "(db_system tx' = db_system tx \<and> b' = b)
      \<or> (\<exists>tx1 r. db_system tx1 = db_system tx \<and> trackUSN tx1 r b = Inr (b', tx'))"
    and l: "getLastMaxUSN tx = Inr l"
  shows "\<exists>l'. getLastMaxUSN tx' = Inr l' \<and> l \<le> l' \<and> (b \<longrightarrow> b')"
  using shape
proof
  assume "db_system tx' = db_system tx \<and> b' = b"
  with l show ?thesis by (auto simp: getLastMaxUSN_system[of tx' tx])
next
  assume "\<exists>tx1 r. db_system tx1 = db_system tx \<and> trackUSN tx1 r b = Inr (b', tx')"
  then obtain tx1 r where s: "db_system tx1 = db_system tx" and t: "trackUSN tx1 r b = Inr (b', tx')"
    by blast
  from trackUSN_step[OF s l, of r b] t show ?thesis by auto
qed

lemma sendBook_usn:
  assumes "sendBook ctx book (b, tx) sv = (Inr (b', tx'), sv')" and "getLastMaxUSN tx = Inr l"
  shows "\<exists>l'. getLastMaxUSN tx' = Inr l' \<and> l \<le> l' \<and> (b \<longrightarrow> b')"
  using sendBook_shape[OF assms(1)] assms(2) by (rule shape_usn)

lemma sendNote_new_deleted:
  assumes "note_USN n = 0" and "note_Deleted n"
  shows "sendNote ctx n (b, tx) sv
           = (Inr (b, DELETE_notes (\<lambda>r. note_UUID r = note_UUID n) tx), sv)"
  using assms by (simp add: sendNote_def Note_Expunge_def)

lemma sendNote_create:
  assumes "note_USN n = 0" and "\<not> note_Deleted n"
    and "client_CreateNote ctx (note_BookUUID n) (note_Body n) sv = (resp, sv1)"
  shows "sendNote ctx n (b, tx) sv =
           (case resp of
              Inl err \<Rightarrow> Inl (Wrap ''creating a note'' err)
            | Inr (respUUID, respUSN) \<Rightarrow>
                trackUSN
                  (UPDATE_notes (\<lambda>r. note_UUID r = note_UUID n) (\<lambda>r. r\<lparr>note_UUID := respUUID\<rparr>)
                     (UPDATE_notes (\<lambda>r. note_UUID r = note_UUID n)
                        (\<lambda>r. n\<lparr>note_Dirty := False, note_USN := respUSN\<rparr>) tx))
                  respUSN b, sv1)"
  using assms
  by (cases resp) (auto simp: sendNote_def Let_def Note_Update_def Note_UpdateUUID_def)

lemma sendNote_delete:
  assumes "note_USN n \<noteq> 0" and "note_Deleted n"
    and "client_DeleteNote ctx (note_UUID n) sv = (resp, sv1)"
  shows "sendNote ctx n (b, tx) sv =
           (case resp of
              Inl err \<Rightarrow> Inl (Wrap ''deleting a note'' err)
            | Inr respUSN \<Rightarrow>
                trackUSN (DELETE_notes (\<lambda>r. note_UUID r = note_UUID n) tx) respUSN b, sv1)"
  using assms
  by (cases resp) (auto simp: sendNote_def Let_def Note_Expunge_def)

lemma sendNote_update:
  assumes "note_USN n \<noteq> 0" and "\<not> note_Deleted n"
    and "client_UpdateNote ctx (note_UUID n) (note_BookUUID n) (note_Body n)
           (note_Public n) sv = (resp, sv1)"
  shows "sendNote ctx n (b, tx) sv =
           (case resp of
              Inl err \<Rightarrow> Inl (Wrap ''updating a note'' err)
            | Inr respUSN \<Rightarrow>
                trackUSN
                  (UPDATE_notes (\<lambda>r. note_UUID r = note_UUID n)
                     (\<lambda>r. n\<lparr>note_Dirty := False, note_USN := respUSN\<rparr>) tx)
                  respUSN b, sv1)"
  using assms
  by (cases resp) (auto simp: sendNote_def Let_def Note_Update_def)

lemma sendNote_shape:
  assumes run: "sendNote ctx n (b, tx) sv = (Inr (b', tx'), sv')"
  shows "(db_system tx' = db_system tx \<and> b' = b)
      \<or> (\<exists>tx1 r. db_system tx1 = db_system tx \<and> trackUSN tx1 r b = Inr (b', tx'))"
proof (cases "note_USN n = 0")
  case new: True
  show ?thesis
  proof (cases "note_Deleted n")
    case True
    from run sendNote_new_deleted[OF new True, of ctx b tx sv] show ?thesis by auto
  next
    case False
    obtain resp sv1 where
      c: "client_CreateNote ctx (note_BookUUID n) (note_Body n) sv = (resp, sv1)"
      by (cases "client_CreateNote ctx (note_BookUUID n) (note_Body n) sv")
    note eq = sendNote_create[OF new False c, of b tx]
    show ?thesis
    proof (cases resp)
      case (Inl err)
      with run eq show ?thesis by simp
    next
      case (Inr p)
      obtain u r where p: "p = (u, r)" by (cases p)
      from run eq Inr p obtain tx1 where t: "trackUSN tx1 r b = Inr (b', tx')"
        and s: "db_system tx1 = db_system tx"
        by auto
      then show ?thesis by blast
    qed
  qed
next
  case old: False
  show ?thesis
  proof (cases "note_Deleted n")
    case True
    obtain resp sv1 where c: "client_DeleteNote ctx (note_UUID n) sv = (resp, sv1)"
      by (cases "client_DeleteNote ctx (note_UUID n) sv")
    note eq = sendNote_delete[OF old True c, of b tx]
    show ?thesis
    proof (cases resp)
      case (Inl err)
      with run eq show ?thesis by simp
    next
      case (Inr r)
      from run eq Inr obtain tx1 where t: "trackUSN tx1 r b = Inr (b', tx')"
        and s: "db_system tx1 = db_system tx"
        by auto
      then show ?thesis by blast
    qed
  next
    case False
    obtain resp sv1 where
      c: "client_UpdateNote ctx (note_UUID n) (note_BookUUID n) (note_Body n)
           (note_Public n) sv = (resp, sv1)"
      by (cases "client_UpdateNote ctx (note_UUID n) (note_BookUUID n) (note_Body n)
           (note_Public n) sv")
    note eq = sendNote_update[OF old False c, of b tx]
    show ?thesis
    proof (cases resp)
      case (Inl err)
      with run eq show ?thesis by simp
    next
      case (Inr r)
      from run eq Inr obtain tx1 where t: "trackUSN tx1 r b = Inr (b', tx')"
        and s: "db_system tx1 = db_system tx"
        by auto
      then show ?thesis by blast
    qed
  qed
qed

lemma sendNote_usn:
  assumes "sendNote ctx n (b, tx) sv = (Inr (b', tx'), sv')" and "getLastMaxUSN tx = Inr l"
  shows "\<exists>l'. getLastMaxUSN tx' = Inr l' \<and> l \<le> l' \<and> (b \<longrightarrow> b')"
  using sendNote_shape[OF assms(1)] assms(2) by (rule shape_usn)

lemma sendBooks_rows_usn:
  assumes "sendBooks_rows ctx rows (b, tx) sv = (Inr (b', tx'), sv')"
    and "getLastMaxUSN tx = Inr l"
  shows "\<exists>l'. getLastMaxUSN tx' = Inr l' \<and> l \<le> l' \<and> (b \<longrightarrow> b')"
  using assms
proof (induction rows arbitrary: b tx sv l)
  case Nil
  then show ?case by auto
next
  case (Cons book rows)
  from Cons.prems(1) obtain b1 tx1 sv1 where
    one: "sendBook ctx book (b, tx) sv = (Inr (b1, tx1), sv1)" and
    rest: "sendBooks_rows ctx rows (b1, tx1) sv1 = (Inr (b', tx'), sv')"
    by (auto split: prod.splits sum.splits)
  from sendBook_usn[OF one Cons.prems(2)] obtain l1 where
    l1: "getLastMaxUSN tx1 = Inr l1" "l \<le> l1" "b \<longrightarrow> b1" by blast
  from Cons.IH[OF rest l1(1)] l1 show ?case by auto
qed

lemma sendNotes_rows_usn:
  assumes "sendNotes_rows ctx rows (b, tx) sv = (Inr (b', tx'), sv')"
    and "getLastMaxUSN tx = Inr l"
  shows "\<exists>l'. getLastMaxUSN tx' = Inr l' \<and> l \<le> l' \<and> (b \<longrightarrow> b')"
  using assms
proof (induction rows arbitrary: b tx sv l)
  case Nil
  then show ?case by auto
next
  case (Cons n rows)
  from Cons.prems(1) obtain b1 tx1 sv1 where
    one: "sendNote ctx n (b, tx) sv = (Inr (b1, tx1), sv1)" and
    rest: "sendNotes_rows ctx rows (b1, tx1) sv1 = (Inr (b', tx'), sv')"
    by (auto split: prod.splits sum.splits)
  from sendNote_usn[OF one Cons.prems(2)] obtain l1 where
    l1: "getLastMaxUSN tx1 = Inr l1" "l \<le> l1" "b \<longrightarrow> b1" by blast
  from Cons.IH[OF rest l1(1)] l1 show ?case by auto
qed

lemma sendChanges_usn:
  assumes "sendChanges ctx tx sv = (Inr (b', tx'), sv')" and "getLastMaxUSN tx = Inr l"
  shows "\<exists>l'. getLastMaxUSN tx' = Inr l' \<and> l \<le> l'"
proof -
  from assms(1) obtain sv0 b1 tx1 sv1 b2 where
    bs: "sendBooks ctx tx sv0 = (Inr (b1, tx1), sv1)" and
    ns: "sendNotes ctx tx1 sv1 = (Inr (b2, tx'), sv')"
    by (auto simp: sendChanges_def split: prod.splits sum.splits)
  from sendBooks_rows_usn[OF bs[unfolded sendBooks_def] assms(2)] obtain l1 where
    l1: "getLastMaxUSN tx1 = Inr l1" "l \<le> l1" by blast
  from sendNotes_rows_usn[OF ns[unfolded sendNotes_def] l1(1)] l1(2) show ?thesis by auto
qed

section \<open>What a pull writes to the system table\<close>

lemma keys_differ: "SystemLastSyncAt \<noteq> SystemLastMaxUSN"
  by (simp add: SystemLastSyncAt_def SystemLastMaxUSN_def)

lemma getLastSyncAt_system: "db_system a = db_system b \<Longrightarrow> getLastSyncAt a = getLastSyncAt b"
  by (simp add: getLastSyncAt_def GetSystem_def)

lemma updateLastSyncAt_eq:
  "updateLastSyncAt tx v = Inr tx' \<longleftrightarrow> UpdateSystem tx SystemLastSyncAt v = Inr tx'"
  by (simp add: updateLastSyncAt_def)

lemma updateLastSyncAt_total: "\<exists>tx'. updateLastSyncAt tx v = Inr tx'"
  by (simp add: updateLastSyncAt_def UpdateSystem_def)

lemma updateLastSyncAt_effect:
  assumes u: "updateLastSyncAt tx v = Inr tx'"
  shows "getLastMaxUSN tx' = getLastMaxUSN tx \<and> db_books tx' = db_books tx
         \<and> db_notes tx' = db_notes tx
         \<and> (\<forall>t. getLastSyncAt tx = Inr t \<longrightarrow> getLastSyncAt tx' = Inr v)"
proof -
  from u have us: "UpdateSystem tx SystemLastSyncAt v = Inr tx'"
    by (simp add: updateLastSyncAt_def)
  have "GetSystem tx' SystemLastMaxUSN = GetSystem tx SystemLastMaxUSN"
    using find_other_key[of SystemLastMaxUSN SystemLastSyncAt v "db_system tx"] us keys_differ
    by (auto simp: GetSystem_def QueryRow_def UpdateSystem_def)
  then have a: "getLastMaxUSN tx' = getLastMaxUSN tx" by (simp add: getLastMaxUSN_def)
  have b: "\<forall>t. getLastSyncAt tx = Inr t \<longrightarrow> getLastSyncAt tx' = Inr v"
  proof (intro allI impI)
    fix t
    assume "getLastSyncAt tx = Inr t"
    then have "GetSystem tx SystemLastSyncAt = Inr t" by (simp add: getLastSyncAt_def)
    from GetSystem_UpdateSystem[OF this us] show "getLastSyncAt tx' = Inr v"
      by (simp add: getLastSyncAt_def)
  qed
  from UpdateSystem_tables[OF us] a b show ?thesis by simp
qed

lemma saveSyncState_effect:
  assumes l: "getLastMaxUSN tx = Inr l" and s: "saveSyncState tx t u = Inr tx'"
  shows "getLastMaxUSN tx' = Inr u"
proof -
  from s obtain tx1 where u1: "updateLastMaxUSN tx u = Inr tx1"
    and u2: "updateLastSyncAt tx1 t = Inr tx'"
    by (auto simp: saveSyncState_def bindE_eq_Inr)
  from getLastMaxUSN_updateLastMaxUSN[OF l u1] updateLastSyncAt_effect[OF u2] show ?thesis
    by simp
qed

lemma mergeNote_system: "mergeNote tx sn ln = Inr tx' \<Longrightarrow> db_system tx' = db_system tx"
  by (cases "QueryRow (\<lambda>r. book_UUID r = note_BookUUID ln) (db_books tx)")
     (auto simp: mergeNote_def split: if_splits)

lemma insertServerNote_system: "insertServerNote tx n = Inr tx' \<Longrightarrow> db_system tx' = db_system tx"
  by (auto simp: insertServerNote_def Note_Insert_def)

lemma stepSyncNote_system: "stepSyncNote tx n = Inr tx' \<Longrightarrow> db_system tx' = db_system tx"
  by (cases "QueryRow (\<lambda>r. note_UUID r = fn_UUID n) (db_notes tx)")
     (auto simp: stepSyncNote_def split: if_splits dest: mergeNote_system insertServerNote_system)

lemma fullSyncNote_system: "fullSyncNote tx n = Inr tx' \<Longrightarrow> db_system tx' = db_system tx"
  by (cases "QueryRow (\<lambda>r. note_UUID r = fn_UUID n) (db_notes tx)")
     (auto simp: fullSyncNote_def split: if_splits dest: mergeNote_system insertServerNote_system)

lemma mergeBook_system: "mergeBook tx b m = Inr tx' \<Longrightarrow> db_system tx' = db_system tx"
  by (cases m)
     (auto simp: mergeBook_def resolveLabel_def Book_Insert_def bindE_eq_Inr split: if_splits)

lemma stepSyncBook_system: "stepSyncBook tx b = Inr tx' \<Longrightarrow> db_system tx' = db_system tx"
  by (cases "QueryRow (\<lambda>r. book_UUID r = fb_UUID b) (db_books tx)")
     (auto simp: stepSyncBook_def split: if_splits dest: mergeBook_system)

lemma fullSyncBook_system: "fullSyncBook tx b = Inr tx' \<Longrightarrow> db_system tx' = db_system tx"
  by (cases "QueryRow (\<lambda>r. book_UUID r = fb_UUID b) (db_books tx)")
     (auto simp: fullSyncBook_def split: if_splits dest: mergeBook_system)

lemma syncDeleteNote_system: "syncDeleteNote tx u = Inr tx' \<Longrightarrow> db_system tx' = db_system tx"
  by (cases "QueryRow (\<lambda>r. note_UUID r = u) (db_notes tx)")
     (auto simp: syncDeleteNote_def split: if_splits)

lemma syncDeleteBook_system: "syncDeleteBook tx u = Inr tx' \<Longrightarrow> db_system tx' = db_system tx"
  by (cases "QueryRow (\<lambda>r. book_UUID r = u) (db_books tx)")
     (auto simp: syncDeleteBook_def checkNotesPristine_eq split: if_splits)

lemma forEach_system:
  assumes "forEach msg f xs tx = Inr tx'"
    and "\<And>x t t'. f t x = Inr t' \<Longrightarrow> db_system t' = db_system t"
  shows "db_system tx' = db_system tx"
  by (rule forEach_preserves[where P = "\<lambda>t. db_system t = db_system tx", OF assms(1)])
     (simp_all add: assms(2))

lemma stepSync_merge_system:
  assumes "stepSync_merge tx list = Inr tx'" and l: "getLastMaxUSN tx = Inr l"
  shows "getLastMaxUSN tx' = Inr (sl_MaxUSN list)"
proof -
  from assms(1) obtain tx1 tx2 tx3 tx4 where
    m1: "forEach ''merging note'' stepSyncNote (map snd (sl_Notes list)) tx = Inr tx1" and
    m2: "forEach ''merging book'' stepSyncBook (map snd (sl_Books list)) tx1 = Inr tx2" and
    d1: "forEach ''deleting note'' syncDeleteNote (sl_ExpungedNotes list) tx2 = Inr tx3" and
    d2: "forEach ''deleting book'' syncDeleteBook (sl_ExpungedBooks list) tx3 = Inr tx4" and
    s: "saveSyncState tx4 (sl_MaxCurrentTime list) (sl_MaxUSN list) = Inr tx'"
    by (auto simp: stepSync_merge_def bindE_eq_Inr)
  have "db_system tx4 = db_system tx"
    using forEach_system[OF m1 stepSyncNote_system] forEach_system[OF m2 stepSyncBook_system]
      forEach_system[OF d1 syncDeleteNote_system] forEach_system[OF d2 syncDeleteBook_system]
    by simp
  with l have "getLastMaxUSN tx4 = Inr l" using getLastMaxUSN_system[of tx4 tx] by simp
  from saveSyncState_effect[OF this s] show ?thesis .
qed

lemma fullSync_merge_system:
  assumes "fullSync_merge tx list = Inr tx'" and l: "getLastMaxUSN tx = Inr l"
  shows "getLastMaxUSN tx' = Inr (sl_MaxUSN list)"
proof -
  from assms(1) obtain tx1 tx2 tx3 tx4 tx5 tx6 where
    c1: "cleanLocalNotes tx list = Inr tx1" and
    c2: "cleanLocalBooks tx1 list = Inr tx2" and
    m1: "forEach ''merging note'' fullSyncNote (map snd (sl_Notes list)) tx2 = Inr tx3" and
    m2: "forEach ''merging book'' fullSyncBook (map snd (sl_Books list)) tx3 = Inr tx4" and
    d1: "forEach ''deleting note'' syncDeleteNote (sl_ExpungedNotes list) tx4 = Inr tx5" and
    d2: "forEach ''deleting book'' syncDeleteBook (sl_ExpungedBooks list) tx5 = Inr tx6" and
    s: "saveSyncState tx6 (sl_MaxCurrentTime list) (sl_MaxUSN list) = Inr tx'"
    by (auto simp: fullSync_merge_def bindE_eq_Inr)
  from c1 c2 have "db_system tx2 = db_system tx"
    by (auto simp: cleanLocalNotes_def cleanLocalBooks_def cleanLocalNotes_rows_eq
          cleanLocalBooks_rows_eq)
  then have "db_system tx6 = db_system tx"
    using forEach_system[OF m1 fullSyncNote_system] forEach_system[OF m2 fullSyncBook_system]
      forEach_system[OF d1 syncDeleteNote_system] forEach_system[OF d2 syncDeleteBook_system]
    by simp
  with l have "getLastMaxUSN tx6 = Inr l" using getLastMaxUSN_system[of tx6 tx] by simp
  from saveSyncState_effect[OF this s] show ?thesis .
qed

lemma processFragments_loop_MaxUSN:
  assumes "processFragments_loop dec fs sl = Inr sl'"
  shows "sl_MaxUSN sl' = Max (insert (sl_MaxUSN sl) (frag_FragMaxUSN ` set fs))"
  using assms
proof (induction fs arbitrary: sl)
  case Nil
  then show ?case by simp
next
  case (Cons f fs)
  from Cons.prems obtain ns bs where
    rest: "processFragments_loop dec fs
            \<lparr>sl_Notes = ns, sl_Books = bs,
             sl_ExpungedNotes = fold List.insert (frag_ExpungedNotes f) (sl_ExpungedNotes sl),
             sl_ExpungedBooks = fold List.insert (frag_ExpungedBooks f) (sl_ExpungedBooks sl),
             sl_MaxUSN = (if sl_MaxUSN sl < frag_FragMaxUSN f
                          then frag_FragMaxUSN f else sl_MaxUSN sl),
             sl_MaxCurrentTime = (if sl_MaxCurrentTime sl < frag_CurrentTime f
                                  then frag_CurrentTime f else sl_MaxCurrentTime sl)\<rparr> = Inr sl'"
    by (auto simp: bindE_eq_Inr)
  have m: "(if sl_MaxUSN sl < frag_FragMaxUSN f then frag_FragMaxUSN f else sl_MaxUSN sl)
             = max (sl_MaxUSN sl) (frag_FragMaxUSN f)"
    by (simp add: max_def)
  have "sl_MaxUSN sl' = Max (insert (max (sl_MaxUSN sl) (frag_FragMaxUSN f)) (frag_FragMaxUSN ` set fs))"
    using Cons.IH[OF rest] by (simp add: m)
  also have "\<dots> = Max (insert (sl_MaxUSN sl) (frag_FragMaxUSN ` set (f # fs)))"
  proof (cases "fs = []")
    case True
    then show ?thesis by (simp add: max.commute)
  next
    case False
    then show ?thesis by (simp add: max.assoc max.left_commute max.commute)
  qed
  finally show ?case .
qed

lemma getSyncList_MaxUSN:
  assumes "getSyncList ctx a sv = Some (Inr pulled, sv')"
  shows "\<exists>frs. getSyncFragments ctx a sv = Some (Inr frs, sv')
           \<and> sl_MaxUSN pulled = Max (insert 0 (frag_FragMaxUSN ` set frs))"
proof -
  from assms obtain frs where f: "getSyncFragments ctx a sv = Some (Inr frs, sv')"
    and p: "processFragments ctx frs (ctx_CipherKey ctx) = Inr pulled"
    by (auto simp: getSyncList_def split: option.splits sum.splits)
  from processFragments_loop_MaxUSN[OF p[unfolded processFragments_def]] f show ?thesis
    by (simp add: emptySyncList_def)
qed

section \<open>The sync command as one transaction\<close>

lemma newRun_phases:
  assumes "ctx_SessionKey ctx \<noteq> []" and "ctx_CipherKey ctx \<noteq> None"
    and "migrate_Run ctx db sv = ((None, db0), sv0)"
    and "DB_Begin ctx sv0 = (None, svb)"
    and "client_GetSyncState ctx svb = (Inr syncState, sv1)"
    and "getLastSyncAt db0 = Inr lastSyncAt" and "getLastMaxUSN db0 = Inr lastMaxUSN"
  shows "newRun ctx isFullSync db sv =
           (case pullChanges ctx isFullSync syncState lastSyncAt lastMaxUSN db0 sv1 of
              None \<Rightarrow> None
            | Some (Inl (err, fate), sv2) \<Rightarrow> Some ((Some err, fate, db0), sv2)
            | Some (Inr tx1, sv2) \<Rightarrow>
                (case sendChanges ctx tx1 sv2 of
                   (Inl err, sv3) \<Rightarrow>
                     Some ((Some (Wrap ''sending changes'' err), RolledBack, db0), sv3)
                 | (Inr (isBehind, tx2), sv3) \<Rightarrow> followUp ctx db0 isBehind tx2 sv3))"
  using assms by (auto simp: newRun_def)

lemma sendChanges_scanned:
  assumes "tx_Scan_delta ctx sv = (scan, sv0)"
  shows "sendChanges ctx tx sv =
           (case sendBooks ctx tx sv0 of
              (Inl err, sv1) \<Rightarrow> (Inl (Wrap ''sending books'' err), sv1)
            | (Inr (behind1, tx1), sv1) \<Rightarrow>
                (case sendNotes ctx tx1 sv1 of
                   (Inl err, sv2) \<Rightarrow> (Inl (Wrap ''sending notes'' err), sv2)
                 | (Inr (behind2, tx2), sv2) \<Rightarrow> (Inr (behind1 \<or> behind2, tx2), sv2)))"
  using assms by (cases scan) (simp_all add: sendChanges_def countDirty_def)





section \<open>The pull decision\<close>

text \<open>
  C2. The pull decision of a sync run: when the operator passed the full flag or
  \<open>last_sync_at < SyncState.FullSyncBefore\<close>, a full sync; otherwise, when
  \<open>last_max_usn \<noteq> SyncState.MaxUSN\<close>, a step sync after \<open>last_max_usn\<close>; otherwise
  no pull (no server call, no change of books, notes or \<open>last_max_usn\<close>) and
  \<open>last_sync_at\<close> becomes \<open>SyncState.CurrentTime\<close>. \<open>newRun\<close> takes this decision
  on the handle of the transaction it has begun, with the sync state the server sent and
  the two values it read from the system table.
\<close>

theorem pull_decision:
  "(isFullSync \<or> lastSyncAt < ss_FullSyncBefore syncState \<longrightarrow>
      pullChanges ctx isFullSync syncState lastSyncAt lastMaxUSN tx sv
        = syncErrCheck (fullSync ctx tx sv))
   \<and> (\<not> isFullSync \<and> \<not> lastSyncAt < ss_FullSyncBefore syncState
        \<and> lastMaxUSN \<noteq> ss_MaxUSN syncState \<longrightarrow>
      pullChanges ctx isFullSync syncState lastSyncAt lastMaxUSN tx sv
        = syncErrCheck (stepSync ctx tx lastMaxUSN sv))
   \<and> (\<not> isFullSync \<and> \<not> lastSyncAt < ss_FullSyncBefore syncState
        \<and> lastMaxUSN = ss_MaxUSN syncState \<longrightarrow>
      (\<exists>tx'. pullChanges ctx isFullSync syncState lastSyncAt lastMaxUSN tx sv = Some (Inr tx', sv)
         \<and> db_books tx' = db_books tx \<and> db_notes tx' = db_notes tx
         \<and> getLastMaxUSN tx' = getLastMaxUSN tx
         \<and> (\<forall>t. getLastSyncAt tx = Inr t \<longrightarrow>
               getLastSyncAt tx' = Inr (ss_CurrentTime syncState))))
   \<and> (ctx_SessionKey ctx \<noteq> [] \<and> ctx_CipherKey ctx \<noteq> None
        \<and> migrate_Run ctx db sv = ((None, tx), sv0)
        \<and> DB_Begin ctx sv0 = (None, svb)
        \<and> client_GetSyncState ctx svb = (Inr syncState, sv1)
        \<and> getLastSyncAt tx = Inr lastSyncAt \<and> getLastMaxUSN tx = Inr lastMaxUSN \<longrightarrow>
      newRun ctx isFullSync db sv =
        (case pullChanges ctx isFullSync syncState lastSyncAt lastMaxUSN tx sv1 of
           None \<Rightarrow> None
         | Some (Inl (err, fate), sv2) \<Rightarrow> Some ((Some err, fate, tx), sv2)
         | Some (Inr tx1, sv2) \<Rightarrow>
             (case sendChanges ctx tx1 sv2 of
                (Inl err, sv3) \<Rightarrow>
                  Some ((Some (Wrap ''sending changes'' err), RolledBack, tx), sv3)
              | (Inr (isBehind, tx2), sv3) \<Rightarrow> followUp ctx tx isBehind tx2 sv3)))"
proof (intro conjI impI)
  assume "isFullSync \<or> lastSyncAt < ss_FullSyncBefore syncState"
  then show "pullChanges ctx isFullSync syncState lastSyncAt lastMaxUSN tx sv
        = syncErrCheck (fullSync ctx tx sv)"
    by (simp add: pullChanges_def)
next
  assume "\<not> isFullSync \<and> \<not> lastSyncAt < ss_FullSyncBefore syncState
        \<and> lastMaxUSN \<noteq> ss_MaxUSN syncState"
  then show "pullChanges ctx isFullSync syncState lastSyncAt lastMaxUSN tx sv
        = syncErrCheck (stepSync ctx tx lastMaxUSN sv)"
    by (simp add: pullChanges_def)
next
  assume a: "\<not> isFullSync \<and> \<not> lastSyncAt < ss_FullSyncBefore syncState
        \<and> lastMaxUSN = ss_MaxUSN syncState"
  obtain tx' where u: "updateLastSyncAt tx (ss_CurrentTime syncState) = Inr tx'"
    using updateLastSyncAt_total by blast
  with a have "pullChanges ctx isFullSync syncState lastSyncAt lastMaxUSN tx sv = Some (Inr tx', sv)"
    by (simp add: pullChanges_def)
  with updateLastSyncAt_effect[OF u]
  show "\<exists>tx'. pullChanges ctx isFullSync syncState lastSyncAt lastMaxUSN tx sv = Some (Inr tx', sv)
         \<and> db_books tx' = db_books tx \<and> db_notes tx' = db_notes tx
         \<and> getLastMaxUSN tx' = getLastMaxUSN tx
         \<and> (\<forall>t. getLastSyncAt tx = Inr t \<longrightarrow>
               getLastSyncAt tx' = Inr (ss_CurrentTime syncState))"
    by blast
next
  assume "ctx_SessionKey ctx \<noteq> [] \<and> ctx_CipherKey ctx \<noteq> None
        \<and> migrate_Run ctx db sv = ((None, tx), sv0)
        \<and> DB_Begin ctx sv0 = (None, svb)
        \<and> client_GetSyncState ctx svb = (Inr syncState, sv1)
        \<and> getLastSyncAt tx = Inr lastSyncAt \<and> getLastMaxUSN tx = Inr lastMaxUSN"
  then show "newRun ctx isFullSync db sv =
        (case pullChanges ctx isFullSync syncState lastSyncAt lastMaxUSN tx sv1 of
           None \<Rightarrow> None
         | Some (Inl (err, fate), sv2) \<Rightarrow> Some ((Some err, fate, tx), sv2)
         | Some (Inr tx1, sv2) \<Rightarrow>
             (case sendChanges ctx tx1 sv2 of
                (Inl err, sv3) \<Rightarrow>
                  Some ((Some (Wrap ''sending changes'' err), RolledBack, tx), sv3)
              | (Inr (isBehind, tx2), sv3) \<Rightarrow> followUp ctx tx isBehind tx2 sv3))"
    using newRun_phases[of ctx db sv tx sv0 svb syncState sv1 lastSyncAt lastMaxUSN isFullSync]
    by blast
qed

theorem pull_decision_witness:
  "pullChanges
     (scriptedCtx \<lparr>ss_MaxUSN = 41, ss_FullSyncBefore = 40, ss_CurrentTime = 100\<rparr> []
        (Inl (Err ''offline'')))
     False \<lparr>ss_MaxUSN = 41, ss_FullSyncBefore = 40, ss_CurrentTime = 100\<rparr> 50 41
     \<lparr>db_books = [], db_notes = [], db_system = [(''last_sync_at'', 50), (''last_max_usn'', 41)]\<rparr> 0
   = Some (Inr \<lparr>db_books = [], db_notes = [],
                 db_system = [(''last_sync_at'', 100), (''last_max_usn'', 41)]\<rparr>, 0)
   \<and> pullChanges
       (scriptedCtx \<lparr>ss_MaxUSN = 43, ss_FullSyncBefore = 40, ss_CurrentTime = 100\<rparr>
          [\<lparr>frag_Notes = [], frag_Books = [], frag_ExpungedNotes = [''n7''],
            frag_ExpungedBooks = [], frag_FragMaxUSN = 43, frag_CurrentTime = 100\<rparr>]
          (Inl (Err ''offline'')))
       False \<lparr>ss_MaxUSN = 43, ss_FullSyncBefore = 40, ss_CurrentTime = 100\<rparr> 50 41
       \<lparr>db_books = [], db_notes = [], db_system = [(''last_sync_at'', 50), (''last_max_usn'', 41)]\<rparr> 0
     = Some (Inr \<lparr>db_books = [], db_notes = [],
                   db_system = [(''last_sync_at'', 100), (''last_max_usn'', 43)]\<rparr>, 2)
   \<and> pullChanges
       (scriptedCtx \<lparr>ss_MaxUSN = 41, ss_FullSyncBefore = 60, ss_CurrentTime = 100\<rparr>
          [\<lparr>frag_Notes = [], frag_Books = [], frag_ExpungedNotes = [''n7''],
            frag_ExpungedBooks = [], frag_FragMaxUSN = 41, frag_CurrentTime = 100\<rparr>]
          (Inl (Err ''offline'')))
       False \<lparr>ss_MaxUSN = 41, ss_FullSyncBefore = 60, ss_CurrentTime = 100\<rparr> 50 41
       \<lparr>db_books = [NewBook ''old'' ''gone'' 7 False False], db_notes = [],
        db_system = [(''last_sync_at'', 50), (''last_max_usn'', 41)]\<rparr> 0
     = Some (Inr \<lparr>db_books = [], db_notes = [],
                   db_system = [(''last_sync_at'', 100), (''last_max_usn'', 41)]\<rparr>, 2)"
proof -
  let ?d = "\<lparr>db_books = [], db_notes = [],
             db_system = [(''last_sync_at'', 50), (''last_max_usn'', 41)]\<rparr>"
  let ?dold = "\<lparr>db_books = [NewBook ''old'' ''gone'' 7 False False], db_notes = [],
             db_system = [(''last_sync_at'', 50), (''last_max_usn'', 41)]\<rparr>"
  let ?sa = "\<lparr>ss_MaxUSN = 41, ss_FullSyncBefore = 40, ss_CurrentTime = 100\<rparr>"
  let ?sb = "\<lparr>ss_MaxUSN = 43, ss_FullSyncBefore = 40, ss_CurrentTime = 100\<rparr>"
  let ?sc = "\<lparr>ss_MaxUSN = 41, ss_FullSyncBefore = 60, ss_CurrentTime = 100\<rparr>"
  let ?ca = "scriptedCtx ?sa [] (Inl (Err ''offline''))"
  let ?cb = "scriptedCtx ?sb
          [\<lparr>frag_Notes = [], frag_Books = [], frag_ExpungedNotes = [''n7''],
            frag_ExpungedBooks = [], frag_FragMaxUSN = 43, frag_CurrentTime = 100\<rparr>]
          (Inl (Err ''offline''))"
  let ?cc = "scriptedCtx ?sc
          [\<lparr>frag_Notes = [], frag_Books = [], frag_ExpungedNotes = [''n7''],
            frag_ExpungedBooks = [], frag_FragMaxUSN = 41, frag_CurrentTime = 100\<rparr>]
          (Inl (Err ''offline''))"
  have a: "pullChanges ?ca False ?sa 50 41 ?d 0
      = Some (Inr \<lparr>db_books = [], db_notes = [],
                 db_system = [(''last_sync_at'', 100), (''last_max_usn'', 41)]\<rparr>, 0)"
  proof -
    from pull_decision[of False 50 ?sa ?ca 41 ?d 0 ?d 0 0 0]
    obtain tx' where p: "pullChanges ?ca False ?sa 50 41 ?d 0 = Some (Inr tx', 0)"
      by auto
    then have "tx' = \<lparr>db_books = [], db_notes = [],
                 db_system = [(''last_sync_at'', 100), (''last_max_usn'', 41)]\<rparr>"
      by (simp add: pullChanges_def updateLastSyncAt_def UpdateSystem_def SystemLastSyncAt_def)
    with p show ?thesis by simp
  qed
  have "stepSync ?cb ?d 41 0 = Some (Inr \<lparr>db_books = [], db_notes = [],
                   db_system = [(''last_sync_at'', 100), (''last_max_usn'', 43)]\<rparr>, 2)"
    by code_simp
  with pull_decision[of False 50 ?sb ?cb 41 ?d 0 ?d 0 0 0]
  have b: "pullChanges ?cb False ?sb 50 41 ?d 0 = Some (Inr \<lparr>db_books = [], db_notes = [],
                   db_system = [(''last_sync_at'', 100), (''last_max_usn'', 43)]\<rparr>, 2)"
    by (simp add: syncErrCheck_def)
  have "fullSync ?cc ?dold 0 = Some (Inr \<lparr>db_books = [], db_notes = [],
                   db_system = [(''last_sync_at'', 100), (''last_max_usn'', 41)]\<rparr>, 2)"
    by code_simp
  with pull_decision[of False 50 ?sc ?cc 41 ?dold 0 ?dold 0 0 0]
  have c: "pullChanges ?cc False ?sc 50 41 ?dold 0 = Some (Inr \<lparr>db_books = [], db_notes = [],
                   db_system = [(''last_sync_at'', 100), (''last_max_usn'', 41)]\<rparr>, 2)"
    by (simp add: syncErrCheck_def)
  from a b c show ?thesis by simp
qed

section \<open>The push engine tracks the server's USN\<close>

lemma sendBooks_rows_raised:
  assumes "sendBooks_rows ctx rows (True, tx) sv = (Inr (b', tx'), sv')"
  shows "b'"
  using assms
proof (induction rows arbitrary: tx sv)
  case Nil
  then show ?case by simp
next
  case (Cons book rows)
  from Cons.prems obtain b1 tx1 sv1 where
    one: "sendBook ctx book (True, tx) sv = (Inr (b1, tx1), sv1)" and
    rest: "sendBooks_rows ctx rows (b1, tx1) sv1 = (Inr (b', tx'), sv')"
    by (auto split: prod.splits sum.splits)
  from sendBook_shape[OF one] have "b1"
    by (auto simp: trackUSN_def bindE_eq_Inr split: if_splits)
  with rest show ?case using Cons.IH by simp
qed

lemma sendNotes_rows_raised:
  assumes "sendNotes_rows ctx rows (True, tx) sv = (Inr (b', tx'), sv')"
  shows "b'"
  using assms
proof (induction rows arbitrary: tx sv)
  case Nil
  then show ?case by simp
next
  case (Cons n rows)
  from Cons.prems obtain b1 tx1 sv1 where
    one: "sendNote ctx n (True, tx) sv = (Inr (b1, tx1), sv1)" and
    rest: "sendNotes_rows ctx rows (b1, tx1) sv1 = (Inr (b', tx'), sv')"
    by (auto split: prod.splits sum.splits)
  from sendNote_shape[OF one] have "b1"
    by (auto simp: trackUSN_def bindE_eq_Inr split: if_splits)
  with rest show ?case using Cons.IH by simp
qed

text \<open>
  C3. With \<open>last_max_usn = l\<close> in the transaction: when the server answers the creation
  or the update of a book or a note with the USN \<open>l + 1\<close>, \<open>last_max_usn\<close> becomes
  \<open>l + 1\<close> and \<open>isBehind\<close> stays as it was; with any other USN \<open>last_max_usn\<close> stays \<open>l\<close>
  and \<open>isBehind\<close> is raised. A raised \<open>isBehind\<close> stays raised through the rest of the send
  loops, \<open>sendChanges\<close> reports the disjunction of the two loops, and \<open>newRun\<close> answers a
  raised \<open>isBehind\<close> with a step sync after the \<open>last_max_usn\<close> of that moment, before it
  commits; when \<open>isBehind\<close> is not raised it commits without another pull.
\<close>

theorem push_tracks_usn:
  assumes l: "getLastMaxUSN tx = Inr l"
  shows "(\<forall>respUUID respUSN sv1.
            book_USN book = 0 \<and> \<not> book_Deleted book
            \<and> client_CreateBook ctx (book_Label book) sv = (Inr (respUUID, respUSN), sv1) \<longrightarrow>
            (\<exists>tx'. sendBook ctx book (isBehind, tx) sv
                      = (Inr (isBehind \<or> respUSN \<noteq> l + 1, tx'), sv1)
                 \<and> getLastMaxUSN tx' = Inr (if respUSN = l + 1 then l + 1 else l)))
       \<and> (\<forall>respUSN sv1.
            book_USN book \<noteq> 0 \<and> \<not> book_Deleted book
            \<and> client_UpdateBook ctx (book_Label book) (book_UUID book) sv = (Inr respUSN, sv1) \<longrightarrow>
            (\<exists>tx'. sendBook ctx book (isBehind, tx) sv
                      = (Inr (isBehind \<or> respUSN \<noteq> l + 1, tx'), sv1)
                 \<and> getLastMaxUSN tx' = Inr (if respUSN = l + 1 then l + 1 else l)))
       \<and> (\<forall>respUUID respUSN sv1.
            note_USN n = 0 \<and> \<not> note_Deleted n
            \<and> client_CreateNote ctx (note_BookUUID n) (note_Body n) sv
                 = (Inr (respUUID, respUSN), sv1) \<longrightarrow>
            (\<exists>tx'. sendNote ctx n (isBehind, tx) sv
                      = (Inr (isBehind \<or> respUSN \<noteq> l + 1, tx'), sv1)
                 \<and> getLastMaxUSN tx' = Inr (if respUSN = l + 1 then l + 1 else l)))
       \<and> (\<forall>respUSN sv1.
            note_USN n \<noteq> 0 \<and> \<not> note_Deleted n
            \<and> client_UpdateNote ctx (note_UUID n) (note_BookUUID n) (note_Body n)
                 (note_Public n) sv = (Inr respUSN, sv1) \<longrightarrow>
            (\<exists>tx'. sendNote ctx n (isBehind, tx) sv
                      = (Inr (isBehind \<or> respUSN \<noteq> l + 1, tx'), sv1)
                 \<and> getLastMaxUSN tx' = Inr (if respUSN = l + 1 then l + 1 else l)))
       \<and> (\<forall>bookRows b' tx' sv'.
            sendBooks_rows ctx bookRows (True, tx) sv = (Inr (b', tx'), sv') \<longrightarrow> b')
       \<and> (\<forall>noteRows b' tx' sv'.
            sendNotes_rows ctx noteRows (True, tx) sv = (Inr (b', tx'), sv') \<longrightarrow> b')
       \<and> (\<forall>scan sv0 behind1 tx1 sv1 behind2 tx2 sv2.
            tx_Scan_delta ctx sv = (scan, sv0)
            \<and> sendBooks ctx tx sv0 = (Inr (behind1, tx1), sv1)
            \<and> sendNotes ctx tx1 sv1 = (Inr (behind2, tx2), sv2) \<longrightarrow>
            sendChanges ctx tx sv = (Inr (behind1 \<or> behind2, tx2), sv2))
       \<and> (\<forall>isFullSync db sv0 db0 sv1 sv2 syncState sv3 lastSyncAt lastMaxUSN tx0 sv4 behind sv5.
            ctx_SessionKey ctx \<noteq> [] \<and> ctx_CipherKey ctx \<noteq> None
            \<and> migrate_Run ctx db sv0 = ((None, db0), sv1)
            \<and> DB_Begin ctx sv1 = (None, sv2)
            \<and> client_GetSyncState ctx sv2 = (Inr syncState, sv3)
            \<and> getLastSyncAt db0 = Inr lastSyncAt \<and> getLastMaxUSN db0 = Inr lastMaxUSN
            \<and> pullChanges ctx isFullSync syncState lastSyncAt lastMaxUSN db0 sv3
                 = Some (Inr tx0, sv4)
            \<and> sendChanges ctx tx0 sv4 = (Inr (behind, tx), sv5) \<longrightarrow>
            newRun ctx isFullSync db sv0 =
              (if behind then
                 (case stepSync ctx tx l sv5 of
                    None \<Rightarrow> None
                  | Some (Inl err, sv6) \<Rightarrow>
                      Some ((Some (Wrap ''performing the follow-up step sync'' err),
                             RolledBack, db0), sv6)
                  | Some (Inr tx', sv6) \<Rightarrow>
                      (case tx_Commit ctx sv6 of
                         (None, sv7) \<Rightarrow> Some ((None, Committed, tx'), sv7)
                       | (Some err, sv7) \<Rightarrow> Some ((None, CommitFailed, db0), sv7)))
               else
                 (case tx_Commit ctx sv5 of
                    (None, sv7) \<Rightarrow> Some ((None, Committed, tx), sv7)
                  | (Some err, sv7) \<Rightarrow> Some ((None, CommitFailed, db0), sv7))))"
proof (intro conjI allI impI)
  fix respUUID respUSN sv1
  assume a: "book_USN book = 0 \<and> \<not> book_Deleted book
            \<and> client_CreateBook ctx (book_Label book) sv = (Inr (respUUID, respUSN), sv1)"
  then have eq: "sendBook ctx book (isBehind, tx) sv =
      (trackUSN
         (UPDATE_books (\<lambda>r. book_UUID r = book_UUID book) (\<lambda>r. r\<lparr>book_UUID := respUUID\<rparr>)
            (UPDATE_books (\<lambda>r. book_UUID r = book_UUID book)
               (\<lambda>r. r\<lparr>book_Label := book_Label book, book_USN := respUSN,
                      book_Dirty := False, book_Deleted := book_Deleted book\<rparr>)
               (UPDATE_notes (\<lambda>r. note_BookUUID r = book_UUID book)
                  (\<lambda>r. r\<lparr>note_BookUUID := respUUID\<rparr>) tx)))
         respUSN isBehind, sv1)"
    using sendBook_create[of book ctx sv "Inr (respUUID, respUSN)" sv1 isBehind tx] by simp
  from trackUSN_step[OF _ l, of _ respUSN isBehind] eq
  show "\<exists>tx'. sendBook ctx book (isBehind, tx) sv
                      = (Inr (isBehind \<or> respUSN \<noteq> l + 1, tx'), sv1)
                 \<and> getLastMaxUSN tx' = Inr (if respUSN = l + 1 then l + 1 else l)"
    by (metis db_system_UPDATE_books db_system_UPDATE_notes)
next
  fix respUSN sv1
  assume a: "book_USN book \<noteq> 0 \<and> \<not> book_Deleted book
            \<and> client_UpdateBook ctx (book_Label book) (book_UUID book) sv = (Inr respUSN, sv1)"
  then have eq: "sendBook ctx book (isBehind, tx) sv =
      (trackUSN
         (UPDATE_books (\<lambda>r. book_UUID r = book_UUID book)
            (\<lambda>r. r\<lparr>book_Label := book_Label book, book_USN := respUSN,
                   book_Dirty := False, book_Deleted := book_Deleted book\<rparr>) tx)
         respUSN isBehind, sv1)"
    using sendBook_update[of book ctx sv "Inr respUSN" sv1 isBehind tx] by simp
  from trackUSN_step[OF _ l, of _ respUSN isBehind] eq
  show "\<exists>tx'. sendBook ctx book (isBehind, tx) sv
                      = (Inr (isBehind \<or> respUSN \<noteq> l + 1, tx'), sv1)
                 \<and> getLastMaxUSN tx' = Inr (if respUSN = l + 1 then l + 1 else l)"
    by (metis db_system_UPDATE_books)
next
  fix respUUID respUSN sv1
  assume a: "note_USN n = 0 \<and> \<not> note_Deleted n
            \<and> client_CreateNote ctx (note_BookUUID n) (note_Body n) sv
                 = (Inr (respUUID, respUSN), sv1)"
  then have eq: "sendNote ctx n (isBehind, tx) sv =
      (trackUSN
         (UPDATE_notes (\<lambda>r. note_UUID r = note_UUID n) (\<lambda>r. r\<lparr>note_UUID := respUUID\<rparr>)
            (UPDATE_notes (\<lambda>r. note_UUID r = note_UUID n)
               (\<lambda>r. n\<lparr>note_Dirty := False, note_USN := respUSN\<rparr>) tx))
         respUSN isBehind, sv1)"
    using sendNote_create[of n ctx sv "Inr (respUUID, respUSN)" sv1 isBehind tx] by simp
  from trackUSN_step[OF _ l, of _ respUSN isBehind] eq
  show "\<exists>tx'. sendNote ctx n (isBehind, tx) sv
                      = (Inr (isBehind \<or> respUSN \<noteq> l + 1, tx'), sv1)
                 \<and> getLastMaxUSN tx' = Inr (if respUSN = l + 1 then l + 1 else l)"
    by (metis db_system_UPDATE_notes)
next
  fix respUSN sv1
  assume a: "note_USN n \<noteq> 0 \<and> \<not> note_Deleted n
            \<and> client_UpdateNote ctx (note_UUID n) (note_BookUUID n) (note_Body n)
                 (note_Public n) sv = (Inr respUSN, sv1)"
  then have eq: "sendNote ctx n (isBehind, tx) sv =
      (trackUSN
         (UPDATE_notes (\<lambda>r. note_UUID r = note_UUID n)
            (\<lambda>r. n\<lparr>note_Dirty := False, note_USN := respUSN\<rparr>) tx)
         respUSN isBehind, sv1)"
    using sendNote_update[of n ctx sv "Inr respUSN" sv1 isBehind tx] by simp
  from trackUSN_step[OF _ l, of _ respUSN isBehind] eq
  show "\<exists>tx'. sendNote ctx n (isBehind, tx) sv
                      = (Inr (isBehind \<or> respUSN \<noteq> l + 1, tx'), sv1)
                 \<and> getLastMaxUSN tx' = Inr (if respUSN = l + 1 then l + 1 else l)"
    by (metis db_system_UPDATE_notes)
next
  fix bookRows b' tx' sv'
  assume "sendBooks_rows ctx bookRows (True, tx) sv = (Inr (b', tx'), sv')"
  then show "b'" by (rule sendBooks_rows_raised)
next
  fix noteRows b' tx' sv'
  assume "sendNotes_rows ctx noteRows (True, tx) sv = (Inr (b', tx'), sv')"
  then show "b'" by (rule sendNotes_rows_raised)
next
  fix scan sv0 behind1 tx1 sv1 behind2 tx2 sv2
  assume a: "tx_Scan_delta ctx sv = (scan, sv0)
            \<and> sendBooks ctx tx sv0 = (Inr (behind1, tx1), sv1)
            \<and> sendNotes ctx tx1 sv1 = (Inr (behind2, tx2), sv2)"
  then have "tx_Scan_delta ctx sv = (scan, sv0)" by simp
  from sendChanges_scanned[OF this, of tx] a
  show "sendChanges ctx tx sv = (Inr (behind1 \<or> behind2, tx2), sv2)"
    by simp
next
  fix isFullSync db sv0 db0 sv1 sv2 syncState sv3 lastSyncAt lastMaxUSN tx0 sv4 behind sv5
  assume a: "ctx_SessionKey ctx \<noteq> [] \<and> ctx_CipherKey ctx \<noteq> None
            \<and> migrate_Run ctx db sv0 = ((None, db0), sv1)
            \<and> DB_Begin ctx sv1 = (None, sv2)
            \<and> client_GetSyncState ctx sv2 = (Inr syncState, sv3)
            \<and> getLastSyncAt db0 = Inr lastSyncAt \<and> getLastMaxUSN db0 = Inr lastMaxUSN
            \<and> pullChanges ctx isFullSync syncState lastSyncAt lastMaxUSN db0 sv3
                 = Some (Inr tx0, sv4)
            \<and> sendChanges ctx tx0 sv4 = (Inr (behind, tx), sv5)"
  then have "newRun ctx isFullSync db sv0 = followUp ctx db0 behind tx sv5"
    using newRun_phases[of ctx db sv0 db0 sv1 sv2 syncState sv3 lastSyncAt lastMaxUSN isFullSync]
    by simp
  with l show "newRun ctx isFullSync db sv0 =
              (if behind then
                 (case stepSync ctx tx l sv5 of
                    None \<Rightarrow> None
                  | Some (Inl err, sv6) \<Rightarrow>
                      Some ((Some (Wrap ''performing the follow-up step sync'' err),
                             RolledBack, db0), sv6)
                  | Some (Inr tx', sv6) \<Rightarrow>
                      (case tx_Commit ctx sv6 of
                         (None, sv7) \<Rightarrow> Some ((None, Committed, tx'), sv7)
                       | (Some err, sv7) \<Rightarrow> Some ((None, CommitFailed, db0), sv7)))
               else
                 (case tx_Commit ctx sv5 of
                    (None, sv7) \<Rightarrow> Some ((None, Committed, tx), sv7)
                  | (Some err, sv7) \<Rightarrow> Some ((None, CommitFailed, db0), sv7)))"
    by (simp add: followUp_def commitTx_def split: option.splits prod.splits sum.splits)
qed

theorem push_tracks_usn_witness:
  "(\<exists>tx'. sendBook
        (scriptedCtx \<lparr>ss_MaxUSN = 41, ss_FullSyncBefore = 0, ss_CurrentTime = 100\<rparr> []
           (Inr (''S1'', 42)))
        (scanSyncableBook (NewBook ''L1'' ''js'' 0 False True))
        (False, \<lparr>db_books = [NewBook ''L1'' ''js'' 0 False True], db_notes = [],
                 db_system = [(''last_sync_at'', 50), (''last_max_usn'', 41)]\<rparr>) 0
        = (Inr (False, tx'), 0)
      \<and> getLastMaxUSN tx' = Inr 42)
   \<and> (\<exists>tx'. sendBook
        (scriptedCtx \<lparr>ss_MaxUSN = 41, ss_FullSyncBefore = 0, ss_CurrentTime = 100\<rparr> []
           (Inr (''S1'', 44)))
        (scanSyncableBook (NewBook ''L1'' ''js'' 0 False True))
        (False, \<lparr>db_books = [NewBook ''L1'' ''js'' 0 False True], db_notes = [],
                 db_system = [(''last_sync_at'', 50), (''last_max_usn'', 41)]\<rparr>) 0
        = (Inr (True, tx'), 0)
      \<and> getLastMaxUSN tx' = Inr 41)
   \<and> newRun
       (scriptedCtx \<lparr>ss_MaxUSN = 41, ss_FullSyncBefore = 0, ss_CurrentTime = 100\<rparr>
          [\<lparr>frag_Notes = [],
            frag_Books = [\<lparr>fb_UUID = ''O1'', fb_USN = 43, fb_Label = ''go'', fb_Deleted = False\<rparr>,
                          \<lparr>fb_UUID = ''S1'', fb_USN = 44, fb_Label = ''js'', fb_Deleted = False\<rparr>],
            frag_ExpungedNotes = [], frag_ExpungedBooks = [], frag_FragMaxUSN = 44,
            frag_CurrentTime = 120\<rparr>]
          (Inr (''S1'', 42)))
       False
       \<lparr>db_books = [NewBook ''L1'' ''js'' 0 False True], db_notes = [],
        db_system = [(''last_sync_at'', 50), (''last_max_usn'', 41)]\<rparr> 0
     = Some ((None, Committed,
              \<lparr>db_books = [NewBook ''S1'' ''js'' 42 False False], db_notes = [],
               db_system = [(''last_sync_at'', 100), (''last_max_usn'', 42)]\<rparr>), 0)
   \<and> newRun
       (scriptedCtx \<lparr>ss_MaxUSN = 41, ss_FullSyncBefore = 0, ss_CurrentTime = 100\<rparr>
          [\<lparr>frag_Notes = [],
            frag_Books = [\<lparr>fb_UUID = ''O1'', fb_USN = 43, fb_Label = ''go'', fb_Deleted = False\<rparr>,
                          \<lparr>fb_UUID = ''S1'', fb_USN = 44, fb_Label = ''js'', fb_Deleted = False\<rparr>],
            frag_ExpungedNotes = [], frag_ExpungedBooks = [], frag_FragMaxUSN = 44,
            frag_CurrentTime = 120\<rparr>]
          (Inr (''S1'', 44)))
       False
       \<lparr>db_books = [NewBook ''L1'' ''js'' 0 False True], db_notes = [],
        db_system = [(''last_sync_at'', 50), (''last_max_usn'', 41)]\<rparr> 0
     = Some ((None, Committed,
              \<lparr>db_books = [NewBook ''S1'' ''js'' 44 False True, NewBook ''O1'' ''go'' 43 False False],
               db_notes = [],
               db_system = [(''last_sync_at'', 120), (''last_max_usn'', 44)]\<rparr>), 2)"
proof -
  let ?db = "\<lparr>db_books = [NewBook ''L1'' ''js'' 0 False True], db_notes = [],
              db_system = [(''last_sync_at'', 50), (''last_max_usn'', 41)]\<rparr>"
  let ?book = "scanSyncableBook (NewBook ''L1'' ''js'' 0 False True)"
  let ?st = "\<lparr>ss_MaxUSN = 41, ss_FullSyncBefore = 0, ss_CurrentTime = 100\<rparr>"
  let ?near = "scriptedCtx ?st [] (Inr (''S1'', 42))"
  let ?far = "scriptedCtx ?st [] (Inr (''S1'', 44))"
  have l: "getLastMaxUSN ?db = Inr 41"
    by (simp add: getLastMaxUSN_def GetSystem_def QueryRow_def SystemLastMaxUSN_def)
  have b: "book_USN ?book = 0 \<and> \<not> book_Deleted ?book"
    by (simp add: scanSyncableBook_def NewBook_def)
  have c1: "client_CreateBook ?near (book_Label ?book) 0 = (Inr (''S1'', 42), 0)"
    by (simp add: scriptedCtx_def)
  have c2: "client_CreateBook ?far (book_Label ?book) 0 = (Inr (''S1'', 44), 0)"
    by (simp add: scriptedCtx_def)
  from push_tracks_usn[OF l, where book = ?book and ctx = ?near and sv = 0 and isBehind = False] b c1
  have s1: "\<exists>tx'. sendBook ?near ?book (False, ?db) 0 = (Inr (False, tx'), 0)
              \<and> getLastMaxUSN tx' = Inr 42"
    by fastforce
  from push_tracks_usn[OF l, where book = ?book and ctx = ?far and sv = 0 and isBehind = False] b c2
  have s2: "\<exists>tx'. sendBook ?far ?book (False, ?db) 0 = (Inr (True, tx'), 0)
              \<and> getLastMaxUSN tx' = Inr 41"
    by fastforce
  have r1: "newRun
       (scriptedCtx ?st
          [\<lparr>frag_Notes = [],
            frag_Books = [\<lparr>fb_UUID = ''O1'', fb_USN = 43, fb_Label = ''go'', fb_Deleted = False\<rparr>,
                          \<lparr>fb_UUID = ''S1'', fb_USN = 44, fb_Label = ''js'', fb_Deleted = False\<rparr>],
            frag_ExpungedNotes = [], frag_ExpungedBooks = [], frag_FragMaxUSN = 44,
            frag_CurrentTime = 120\<rparr>]
          (Inr (''S1'', 42))) False ?db 0
     = Some ((None, Committed,
              \<lparr>db_books = [NewBook ''S1'' ''js'' 42 False False], db_notes = [],
               db_system = [(''last_sync_at'', 100), (''last_max_usn'', 42)]\<rparr>), 0)"
    by code_simp
  have r2: "newRun
       (scriptedCtx ?st
          [\<lparr>frag_Notes = [],
            frag_Books = [\<lparr>fb_UUID = ''O1'', fb_USN = 43, fb_Label = ''go'', fb_Deleted = False\<rparr>,
                          \<lparr>fb_UUID = ''S1'', fb_USN = 44, fb_Label = ''js'', fb_Deleted = False\<rparr>],
            frag_ExpungedNotes = [], frag_ExpungedBooks = [], frag_FragMaxUSN = 44,
            frag_CurrentTime = 120\<rparr>]
          (Inr (''S1'', 44))) False ?db 0
     = Some ((None, Committed,
              \<lparr>db_books = [NewBook ''S1'' ''js'' 44 False True, NewBook ''O1'' ''go'' 43 False False],
               db_notes = [],
               db_system = [(''last_sync_at'', 120), (''last_max_usn'', 44)]\<rparr>), 2)"
    by code_simp
  from s1 s2 r1 r2 show ?thesis by blast
qed

section \<open>\<open>last_max_usn\<close> across commits\<close>

text \<open>
  C9, as stated, does not hold: \<open>saveSyncState\<close> stores the \<open>MaxUSN\<close> of the pulled sync
  list and never compares it with the stored value. Two runs that commit, from a store
  with \<open>last_max_usn = 41\<close>: a step sync against an account whose \<open>MaxUSN\<close> is 40, where
  nothing comes after USN 41, and a full sync on the operator's flag against an account
  that holds nothing. In both the server's one fragment is its end mark, and the committed
  \<open>last_max_usn\<close> is 0.
\<close>

theorem newRun_last_max_usn_decreases_counterexample:
  "newRun
     (scriptedCtx \<lparr>ss_MaxUSN = 40, ss_FullSyncBefore = 0, ss_CurrentTime = 100\<rparr>
        [\<lparr>frag_Notes = [], frag_Books = [], frag_ExpungedNotes = [], frag_ExpungedBooks = [],
          frag_FragMaxUSN = 0, frag_CurrentTime = 100\<rparr>]
        (Inl (Err ''offline'')))
     False
     \<lparr>db_books = [], db_notes = [], db_system = [(''last_sync_at'', 50), (''last_max_usn'', 41)]\<rparr> 0
   = Some ((None, Committed,
            \<lparr>db_books = [], db_notes = [],
             db_system = [(''last_sync_at'', 100), (''last_max_usn'', 0)]\<rparr>), 1)
   \<and> newRun
       (scriptedCtx \<lparr>ss_MaxUSN = 0, ss_FullSyncBefore = 0, ss_CurrentTime = 100\<rparr>
          [\<lparr>frag_Notes = [], frag_Books = [], frag_ExpungedNotes = [], frag_ExpungedBooks = [],
            frag_FragMaxUSN = 0, frag_CurrentTime = 100\<rparr>]
          (Inl (Err ''offline'')))
       True
       \<lparr>db_books = [NewBook ''S1'' ''js'' 40 False False], db_notes = [],
        db_system = [(''last_sync_at'', 50), (''last_max_usn'', 41)]\<rparr> 0
     = Some ((None, Committed,
              \<lparr>db_books = [], db_notes = [],
               db_system = [(''last_sync_at'', 100), (''last_max_usn'', 0)]\<rparr>), 1)
   \<and> getLastMaxUSN
       \<lparr>db_books = [], db_notes = [], db_system = [(''last_sync_at'', 50), (''last_max_usn'', 41)]\<rparr>
     = Inr 41
   \<and> getLastMaxUSN
       \<lparr>db_books = [], db_notes = [], db_system = [(''last_sync_at'', 100), (''last_max_usn'', 0)]\<rparr>
     = Inr 0"
  by code_simp

text \<open>
  C9, amended. With \<open>last_max_usn = l\<close> in the transaction: the push phase writes
  \<open>l + 1\<close> or nothing, so \<open>last_max_usn\<close> does not decrease through \<open>sendChanges\<close>.
  \<open>saveSyncState\<close> stores the value it is given, and \<open>stepSync\<close> and \<open>fullSync\<close> give it
  the \<open>MaxUSN\<close> of the pulled sync list, which is the greatest \<open>FragMaxUSN\<close> of the fetched
  fragments (0 when all report 0). So a pull stores a value that is at least \<open>l\<close> exactly
  when some fetched fragment reports a \<open>FragMaxUSN\<close> that is at least \<open>l\<close> (or \<open>l \<le> 0\<close>).
\<close>

theorem last_max_usn_writes:
  assumes l: "getLastMaxUSN tx = Inr l"
  shows "(\<forall>respUSN isBehind b' tx'.
            trackUSN tx respUSN isBehind = Inr (b', tx') \<longrightarrow>
            getLastMaxUSN tx' = Inr (if respUSN = l + 1 then l + 1 else l))
       \<and> (\<forall>b' tx' sv'.
            sendChanges ctx tx sv = (Inr (b', tx'), sv') \<longrightarrow>
            (\<exists>l'. getLastMaxUSN tx' = Inr l' \<and> l \<le> l'))
       \<and> (\<forall>serverTime serverMaxUSN tx'.
            saveSyncState tx serverTime serverMaxUSN = Inr tx' \<longrightarrow>
            getLastMaxUSN tx' = Inr serverMaxUSN)
       \<and> (\<forall>afterUSN tx' sv'.
            stepSync ctx tx afterUSN sv = Some (Inr tx', sv') \<longrightarrow>
            (\<exists>pulled frs. getSyncList ctx afterUSN sv = Some (Inr pulled, sv')
               \<and> getSyncFragments ctx afterUSN sv = Some (Inr frs, sv')
               \<and> sl_MaxUSN pulled = Max (insert 0 (frag_FragMaxUSN ` set frs))
               \<and> getLastMaxUSN tx' = Inr (sl_MaxUSN pulled)
               \<and> (l \<le> sl_MaxUSN pulled \<longleftrightarrow> (\<exists>f\<in>set frs. l \<le> frag_FragMaxUSN f) \<or> l \<le> 0)))
       \<and> (\<forall>tx' sv'.
            fullSync ctx tx sv = Some (Inr tx', sv') \<longrightarrow>
            (\<exists>pulled frs. getSyncList ctx 0 sv = Some (Inr pulled, sv')
               \<and> getSyncFragments ctx 0 sv = Some (Inr frs, sv')
               \<and> sl_MaxUSN pulled = Max (insert 0 (frag_FragMaxUSN ` set frs))
               \<and> getLastMaxUSN tx' = Inr (sl_MaxUSN pulled)
               \<and> (l \<le> sl_MaxUSN pulled \<longleftrightarrow> (\<exists>f\<in>set frs. l \<le> frag_FragMaxUSN f) \<or> l \<le> 0)))"
proof -
  have max_le: "\<And>frs :: SyncFragment list.
      (l \<le> Max (insert 0 (frag_FragMaxUSN ` set frs)))
        = ((\<exists>f\<in>set frs. l \<le> frag_FragMaxUSN f) \<or> l \<le> 0)"
    by (subst Max_ge_iff) auto
  have track: "\<forall>respUSN isBehind b' tx'.
            trackUSN tx respUSN isBehind = Inr (b', tx') \<longrightarrow>
            getLastMaxUSN tx' = Inr (if respUSN = l + 1 then l + 1 else l)"
  proof (intro allI impI)
    fix respUSN isBehind b' tx'
    assume t: "trackUSN tx respUSN isBehind = Inr (b', tx')"
    from trackUSN_step[OF refl l, of respUSN isBehind] t
    show "getLastMaxUSN tx' = Inr (if respUSN = l + 1 then l + 1 else l)"
      by auto
  qed
  have push: "\<forall>b' tx' sv'.
            sendChanges ctx tx sv = (Inr (b', tx'), sv') \<longrightarrow>
            (\<exists>l'. getLastMaxUSN tx' = Inr l' \<and> l \<le> l')"
  proof (intro allI impI)
    fix b' tx' sv'
    assume "sendChanges ctx tx sv = (Inr (b', tx'), sv')"
    from sendChanges_usn[OF this l] show "\<exists>l'. getLastMaxUSN tx' = Inr l' \<and> l \<le> l'" .
  qed
  have save: "\<forall>serverTime serverMaxUSN tx'.
            saveSyncState tx serverTime serverMaxUSN = Inr tx' \<longrightarrow>
            getLastMaxUSN tx' = Inr serverMaxUSN"
  proof (intro allI impI)
    fix serverTime serverMaxUSN tx'
    assume "saveSyncState tx serverTime serverMaxUSN = Inr tx'"
    from saveSyncState_effect[OF l this] show "getLastMaxUSN tx' = Inr serverMaxUSN" .
  qed
  have step: "\<forall>afterUSN tx' sv'.
            stepSync ctx tx afterUSN sv = Some (Inr tx', sv') \<longrightarrow>
            (\<exists>pulled frs. getSyncList ctx afterUSN sv = Some (Inr pulled, sv')
               \<and> getSyncFragments ctx afterUSN sv = Some (Inr frs, sv')
               \<and> sl_MaxUSN pulled = Max (insert 0 (frag_FragMaxUSN ` set frs))
               \<and> getLastMaxUSN tx' = Inr (sl_MaxUSN pulled)
               \<and> (l \<le> sl_MaxUSN pulled \<longleftrightarrow> (\<exists>f\<in>set frs. l \<le> frag_FragMaxUSN f) \<or> l \<le> 0))"
  proof (intro allI impI)
    fix afterUSN tx' sv'
    assume "stepSync ctx tx afterUSN sv = Some (Inr tx', sv')"
    then obtain pulled where g: "getSyncList ctx afterUSN sv = Some (Inr pulled, sv')"
      and m: "stepSync_merge tx pulled = Inr tx'"
      by (auto simp: stepSync_def split: option.splits sum.splits)
    from getSyncList_MaxUSN[OF g] obtain frs where
      f: "getSyncFragments ctx afterUSN sv = Some (Inr frs, sv')"
      and mx: "sl_MaxUSN pulled = Max (insert 0 (frag_FragMaxUSN ` set frs))"
      by blast
    from stepSync_merge_system[OF m l] have s: "getLastMaxUSN tx' = Inr (sl_MaxUSN pulled)" .
    from max_le[of frs] mx
    have "l \<le> sl_MaxUSN pulled \<longleftrightarrow> (\<exists>f\<in>set frs. l \<le> frag_FragMaxUSN f) \<or> l \<le> 0"
      by simp
    with g f mx s
    show "\<exists>pulled frs. getSyncList ctx afterUSN sv = Some (Inr pulled, sv')
               \<and> getSyncFragments ctx afterUSN sv = Some (Inr frs, sv')
               \<and> sl_MaxUSN pulled = Max (insert 0 (frag_FragMaxUSN ` set frs))
               \<and> getLastMaxUSN tx' = Inr (sl_MaxUSN pulled)
               \<and> (l \<le> sl_MaxUSN pulled \<longleftrightarrow> (\<exists>f\<in>set frs. l \<le> frag_FragMaxUSN f) \<or> l \<le> 0)"
      by blast
  qed
  have full: "\<forall>tx' sv'.
            fullSync ctx tx sv = Some (Inr tx', sv') \<longrightarrow>
            (\<exists>pulled frs. getSyncList ctx 0 sv = Some (Inr pulled, sv')
               \<and> getSyncFragments ctx 0 sv = Some (Inr frs, sv')
               \<and> sl_MaxUSN pulled = Max (insert 0 (frag_FragMaxUSN ` set frs))
               \<and> getLastMaxUSN tx' = Inr (sl_MaxUSN pulled)
               \<and> (l \<le> sl_MaxUSN pulled \<longleftrightarrow> (\<exists>f\<in>set frs. l \<le> frag_FragMaxUSN f) \<or> l \<le> 0))"
  proof (intro allI impI)
    fix tx' sv'
    assume "fullSync ctx tx sv = Some (Inr tx', sv')"
    then obtain pulled where g: "getSyncList ctx 0 sv = Some (Inr pulled, sv')"
      and m: "fullSync_merge tx pulled = Inr tx'"
      by (auto simp: fullSync_def split: option.splits sum.splits)
    from getSyncList_MaxUSN[OF g] obtain frs where
      f: "getSyncFragments ctx 0 sv = Some (Inr frs, sv')"
      and mx: "sl_MaxUSN pulled = Max (insert 0 (frag_FragMaxUSN ` set frs))"
      by blast
    from fullSync_merge_system[OF m l] have s: "getLastMaxUSN tx' = Inr (sl_MaxUSN pulled)" .
    from max_le[of frs] mx
    have "l \<le> sl_MaxUSN pulled \<longleftrightarrow> (\<exists>f\<in>set frs. l \<le> frag_FragMaxUSN f) \<or> l \<le> 0"
      by simp
    with g f mx s
    show "\<exists>pulled frs. getSyncList ctx 0 sv = Some (Inr pulled, sv')
               \<and> getSyncFragments ctx 0 sv = Some (Inr frs, sv')
               \<and> sl_MaxUSN pulled = Max (insert 0 (frag_FragMaxUSN ` set frs))
               \<and> getLastMaxUSN tx' = Inr (sl_MaxUSN pulled)
               \<and> (l \<le> sl_MaxUSN pulled \<longleftrightarrow> (\<exists>f\<in>set frs. l \<le> frag_FragMaxUSN f) \<or> l \<le> 0)"
      by blast
  qed
  from track push save step full show ?thesis by blast
qed

theorem last_max_usn_writes_witness:
  "stepSync
     (scriptedCtx \<lparr>ss_MaxUSN = 43, ss_FullSyncBefore = 0, ss_CurrentTime = 100\<rparr>
        [\<lparr>frag_Notes = [], frag_Books = [], frag_ExpungedNotes = [''n7''],
          frag_ExpungedBooks = [], frag_FragMaxUSN = 43, frag_CurrentTime = 100\<rparr>]
        (Inr (''S1'', 42)))
     \<lparr>db_books = [NewBook ''L1'' ''js'' 0 False True], db_notes = [],
      db_system = [(''last_sync_at'', 50), (''last_max_usn'', 41)]\<rparr> 41 0
   = Some (Inr \<lparr>db_books = [NewBook ''L1'' ''js'' 0 False True], db_notes = [],
                 db_system = [(''last_sync_at'', 100), (''last_max_usn'', 43)]\<rparr>, 2)
   \<and> getLastMaxUSN \<lparr>db_books = [NewBook ''L1'' ''js'' 0 False True], db_notes = [],
                 db_system = [(''last_sync_at'', 100), (''last_max_usn'', 43)]\<rparr> = Inr 43
   \<and> sendChanges
       (scriptedCtx \<lparr>ss_MaxUSN = 43, ss_FullSyncBefore = 0, ss_CurrentTime = 100\<rparr> []
          (Inr (''S1'', 42)))
       \<lparr>db_books = [NewBook ''L1'' ''js'' 0 False True], db_notes = [],
        db_system = [(''last_sync_at'', 50), (''last_max_usn'', 41)]\<rparr> 0
     = (Inr (False,
             \<lparr>db_books = [NewBook ''S1'' ''js'' 42 False False], db_notes = [],
              db_system = [(''last_sync_at'', 50), (''last_max_usn'', 42)]\<rparr>), 0)
   \<and> (\<exists>l'. getLastMaxUSN \<lparr>db_books = [NewBook ''S1'' ''js'' 42 False False], db_notes = [],
              db_system = [(''last_sync_at'', 50), (''last_max_usn'', 42)]\<rparr> = Inr l'
          \<and> 41 \<le> l')
   \<and> (\<exists>pulled. getSyncList
          (scriptedCtx \<lparr>ss_MaxUSN = 43, ss_FullSyncBefore = 0, ss_CurrentTime = 100\<rparr>
             [\<lparr>frag_Notes = [], frag_Books = [], frag_ExpungedNotes = [''n7''],
               frag_ExpungedBooks = [], frag_FragMaxUSN = 43, frag_CurrentTime = 100\<rparr>]
             (Inr (''S1'', 42))) 41 0 = Some (Inr pulled, 2)
          \<and> sl_MaxUSN pulled = 43)"
proof -
  let ?db = "\<lparr>db_books = [NewBook ''L1'' ''js'' 0 False True], db_notes = [],
              db_system = [(''last_sync_at'', 50), (''last_max_usn'', 41)]\<rparr>"
  let ?pulled = "\<lparr>db_books = [NewBook ''L1'' ''js'' 0 False True], db_notes = [],
                 db_system = [(''last_sync_at'', 100), (''last_max_usn'', 43)]\<rparr>"
  let ?st = "\<lparr>ss_MaxUSN = 43, ss_FullSyncBefore = 0, ss_CurrentTime = 100\<rparr>"
  let ?pull = "scriptedCtx ?st
        [\<lparr>frag_Notes = [], frag_Books = [], frag_ExpungedNotes = [''n7''],
          frag_ExpungedBooks = [], frag_FragMaxUSN = 43, frag_CurrentTime = 100\<rparr>]
        (Inr (''S1'', 42))"
  let ?push = "scriptedCtx ?st [] (Inr (''S1'', 42))"
  have l: "getLastMaxUSN ?db = Inr 41"
    by (simp add: getLastMaxUSN_def GetSystem_def QueryRow_def SystemLastMaxUSN_def)
  have s: "stepSync ?pull ?db 41 0 = Some (Inr ?pulled, 2)"
    by code_simp
  have g: "getLastMaxUSN ?pulled = Inr 43"
    by code_simp
  have p: "sendChanges ?push ?db 0
      = (Inr (False,
             \<lparr>db_books = [NewBook ''S1'' ''js'' 42 False False], db_notes = [],
              db_system = [(''last_sync_at'', 50), (''last_max_usn'', 42)]\<rparr>), 0)"
    by code_simp
  note step = last_max_usn_writes[OF l, of ?pull 0, THEN conjunct2, THEN conjunct2,
      THEN conjunct2, THEN conjunct1, rule_format, OF s]
  note push = last_max_usn_writes[OF l, of ?push 0, THEN conjunct2, THEN conjunct1,
      rule_format, OF p]
  from step obtain pulled where gl: "getSyncList ?pull 41 0 = Some (Inr pulled, 2)"
    and st: "getLastMaxUSN ?pulled = Inr (sl_MaxUSN pulled)"
    by (elim exE conjE)
  from st have "sl_MaxUSN pulled = 43"
    by (simp only: g sum.inject)
  with gl have e: "\<exists>pulled. getSyncList ?pull 41 0 = Some (Inr pulled, 2) \<and> sl_MaxUSN pulled = 43"
    by (intro exI conjI)
  show ?thesis
    by (rule conjI[OF s conjI[OF g conjI[OF p conjI[OF push e]]]])
qed

end
